(* ===== verification/Sds_Prelude.thy ===== *)
theory Sds_Prelude
  imports Main "HOL-Library.Word"
begin

text \<open>
  Shared vocabulary of the development: the machine integers of the Rust sources, the
  saturating and checked operations of the standard library on them, the option
  combinators the sources use, the key-value stores behind \<open>BTreeMap\<close> and
  \<open>HashMap\<close>, and the interface of a fallible state machine (a component whose
  operations return \<open>Result\<close> and change nothing when they fail) with its
  reachability lemma.
\<close>

named_theorems rust_num \<open>values of the standard library's integer operations\<close>
named_theorems op_defs \<open>definitions of the modelled operations\<close>

type_synonym u8 = "8 word"
type_synonym u16 = "16 word"
type_synonym u32 = "32 word"
type_synonym u64 = "64 word"
type_synonym bytes = "8 word list"

section \<open>Integer operations of the standard library\<close>

definition sat_add :: "'a::len word \<Rightarrow> 'a word \<Rightarrow> 'a word" where
  "sat_add a b = (if unat a + unat b < 2 ^ LENGTH('a) then a + b else - 1)"

definition sat_sub :: "'a::len word \<Rightarrow> 'a word \<Rightarrow> 'a word" where
  "sat_sub a b = (if a < b then 0 else a - b)"

definition abs_diff :: "'a::len word \<Rightarrow> 'a word \<Rightarrow> 'a word" where
  "abs_diff a b = (if a < b then b - a else a - b)"

definition checked_add :: "'a::len word \<Rightarrow> 'a word \<Rightarrow> 'a word option" where
  "checked_add a b = (if unat a + unat b < 2 ^ LENGTH('a) then Some (a + b) else None)"

text \<open>
  \<open>Duration\<close> values enter the model as their whole milliseconds, the only view
  the modelled code takes of them; \<open>u64::try_from(d.as_millis()).unwrap_or(u64::MAX)\<close>
  clamps them to 64 bits.
\<close>

definition duration_millis :: "nat \<Rightarrow> u64" where
  "duration_millis d = (if d < 2 ^ 64 then of_nat d else - 1)"

lemma unat_bound: "unat a < 2 ^ LENGTH('a)" for a :: "'a::len word"
  by transfer (simp add: nat_less_iff)

lemma unat_max_word: "unat (- 1 :: 'a::len word) = 2 ^ LENGTH('a) - 1"
  by transfer (simp add: take_bit_minus_one_eq_mask mask_eq_exp_minus_1 nat_diff_distrib nat_power_eq)

lemma unat_sat_add [rust_num]:
  "unat (sat_add a b) = min (unat a + unat b) (2 ^ LENGTH('a) - 1)"
  for a b :: "'a::len word"
proof (cases "unat a + unat b < 2 ^ LENGTH('a)")
  case True
  then have "unat (a + b) = unat a + unat b"
    by (simp add: unat_word_ariths)
  with True show ?thesis by (simp add: sat_add_def)
next
  case False
  then show ?thesis by (simp add: sat_add_def unat_max_word)
qed

lemma unat_sat_sub [rust_num]: "unat (sat_sub a b) = unat a - unat b"
  for a b :: "'a::len word"
  by (auto simp: sat_sub_def word_less_nat_alt unat_sub_if')

lemma unat_abs_diff [rust_num]:
  "unat (abs_diff a b) = (if unat a < unat b then unat b - unat a else unat a - unat b)"
  for a b :: "'a::len word"
  by (auto simp: abs_diff_def word_less_nat_alt unat_sub_if')

lemma sat_add_ge: "a \<le> sat_add a b" for a b :: "'a::len word"
proof -
  have "unat a \<le> 2 ^ LENGTH('a) - 1" using unat_bound [of a] by linarith
  then show ?thesis by (simp add: word_le_nat_alt unat_sat_add)
qed

lemma sat_add_mono: "a \<le> b \<Longrightarrow> sat_add a k \<le> sat_add b k" for a b k :: "'a::len word"
  by (simp add: word_le_nat_alt rust_num)

lemma sat_add_gt: "0 < b \<Longrightarrow> a < - 1 \<Longrightarrow> a < sat_add a b" for a b :: "'a::len word"
  by (simp add: word_less_nat_alt unat_sat_add unat_max_word)

lemma unat_duration_millis [rust_num]: "unat (duration_millis d) = min d (2 ^ 64 - 1)"
  by (simp add: duration_millis_def unat_of_nat unat_max_word)

section \<open>Option combinators\<close>

definition is_none_or :: "('a \<Rightarrow> bool) \<Rightarrow> 'a option \<Rightarrow> bool" where
  "is_none_or p x = (case x of None \<Rightarrow> True | Some v \<Rightarrow> p v)"

definition is_some_and :: "('a \<Rightarrow> bool) \<Rightarrow> 'a option \<Rightarrow> bool" where
  "is_some_and p x = (case x of None \<Rightarrow> False | Some v \<Rightarrow> p v)"

lemma is_none_or_simps [simp]:
  "is_none_or p None" "is_none_or p (Some v) = p v"
  by (simp_all add: is_none_or_def)

lemma is_some_and_simps [simp]:
  "\<not> is_some_and p None" "is_some_and p (Some v) = p v"
  by (simp_all add: is_some_and_def)

lemma is_some_and_iff: "is_some_and p x \<longleftrightarrow> (\<exists>v. x = Some v \<and> p v)"
  by (cases x) simp_all

lemma is_none_or_iff: "is_none_or p x \<longleftrightarrow> (\<forall>v. x = Some v \<longrightarrow> p v)"
  by (cases x) simp_all

section \<open>Key-value stores\<close>

text \<open>\<open>retain\<close> keeps the entries that satisfy a predicate.\<close>

definition retain :: "('k \<Rightarrow> 'v \<Rightarrow> bool) \<Rightarrow> ('k \<rightharpoonup> 'v) \<Rightarrow> ('k \<rightharpoonup> 'v)" where
  "retain p m = (\<lambda>k. case m k of None \<Rightarrow> None | Some v \<Rightarrow> if p k v then Some v else None)"

lemma retain_Some_iff [simp]: "retain p m k = Some v \<longleftrightarrow> m k = Some v \<and> p k v"
  by (auto simp: retain_def split: option.splits if_splits)

lemma retain_None_iff: "retain p m k = None \<longleftrightarrow> (\<forall>v. m k = Some v \<longrightarrow> \<not> p k v)"
  by (auto simp: retain_def split: option.splits)

lemma retain_empty [simp]: "retain p Map.empty = Map.empty"
  by (simp add: retain_def)

lemma dom_retain_subset: "dom (retain p m) \<subseteq> dom m"
  by (auto simp: dom_def)

section \<open>Fallible state machines\<close>

text \<open>
  An operation either fails, and the component keeps its state, or succeeds with the next
  state. \<open>reaches ok step s t\<close> holds when a sequence of successful operations, each
  permitted by \<open>ok\<close> in the state where it is applied, leads from \<open>s\<close> to \<open>t\<close>.
\<close>

inductive reaches ::
  "('s \<Rightarrow> 'e \<Rightarrow> bool) \<Rightarrow> ('s \<Rightarrow> 'e \<Rightarrow> 'err + 's) \<Rightarrow> 's \<Rightarrow> 's \<Rightarrow> bool"
  for ok step where
  reaches_refl [intro]: "reaches ok step s s"
| reaches_step: "reaches ok step s t \<Longrightarrow> ok t e \<Longrightarrow> step t e = Inr u \<Longrightarrow> reaches ok step s u"

definition keep_on_error :: "('s \<Rightarrow> 'e \<Rightarrow> 'err + 's) \<Rightarrow> 's \<Rightarrow> 'e \<Rightarrow> 's" where
  "keep_on_error step s e = (case step s e of Inl err \<Rightarrow> s | Inr t \<Rightarrow> t)"

lemma keep_on_error_simps:
  "step s e = Inl err \<Longrightarrow> keep_on_error step s e = s"
  "step s e = Inr t \<Longrightarrow> keep_on_error step s e = t"
  by (simp_all add: keep_on_error_def)

lemma reaches_trans: "reaches ok step t u \<Longrightarrow> reaches ok step s t \<Longrightarrow> reaches ok step s u"
  by (induction rule: reaches.induct) (auto intro: reaches_step)

lemma reaches_foldl:
  "list_all (\<lambda>e. \<forall>t. ok t e) es \<Longrightarrow> reaches ok step s (foldl (keep_on_error step) s es)"
proof (induction es arbitrary: s)
  case Nil
  show ?case by (simp add: reaches_refl)
next
  case (Cons e es)
  from Cons.prems have ok: "ok s e" and rest: "list_all (\<lambda>e. \<forall>t. ok t e) es" by simp_all
  have "reaches ok step s (keep_on_error step s e)"
  proof (cases "step s e")
    case (Inl err)
    then show ?thesis by (simp add: keep_on_error_simps reaches_refl)
  next
    case (Inr t)
    with ok show ?thesis
      by (auto simp: keep_on_error_simps intro: reaches_step [OF reaches_refl])
  qed
  with Cons.IH [OF rest] show ?case by (auto intro: reaches_trans)
qed

fun run_checked ::
  "('s \<Rightarrow> 'e \<Rightarrow> bool) \<Rightarrow> ('s \<Rightarrow> 'e \<Rightarrow> 'err + 's) \<Rightarrow> 's \<Rightarrow> 'e list \<Rightarrow> 's option" where
  "run_checked ok step s [] = Some s"
| "run_checked ok step s (e # es) =
     (if ok s e then case step s e of Inl err \<Rightarrow> None | Inr t \<Rightarrow> run_checked ok step t es
      else None)"

lemma run_checked_reaches: "run_checked ok step s es = Some t \<Longrightarrow> reaches ok step s t"
proof (induction es arbitrary: s)
  case Nil
  then show ?case by (simp add: reaches_refl)
next
  case (Cons e es)
  then obtain u where "ok s e" "step s e = Inr u" "run_checked ok step u es = Some t"
    by (auto split: if_splits sum.splits)
  with Cons.IH show ?case by (blast intro: reaches_trans reaches_step reaches_refl)
qed

locale fallible_machine =
  fixes ok :: "'s \<Rightarrow> 'e \<Rightarrow> bool"
    and step :: "'s \<Rightarrow> 'e \<Rightarrow> 'err + 's"
    and inv :: "'s \<Rightarrow> bool"
  assumes step_inv: "inv s \<Longrightarrow> ok s e \<Longrightarrow> step s e = Inr t \<Longrightarrow> inv t"
begin

lemma reaches_inv: "reaches ok step s t \<Longrightarrow> inv s \<Longrightarrow> inv t"
  by (induction rule: reaches.induct) (auto intro: step_inv)

lemma run_inv: "inv s \<Longrightarrow> list_all (\<lambda>e. \<forall>t. ok t e) es \<Longrightarrow> inv (foldl (keep_on_error step) s es)"
  by (rule reaches_inv [OF reaches_foldl])

end

end
