(* ===== verification/Proxy_Target.thy ===== *)
theory Proxy_Target
  imports Sds_Prelude
begin

text \<open>
  The vocabulary of \<open>src/target.rs\<close>: the local role, the stable mode, the
  cluster state, and the proxy target that they determine. \<open>resolve_target\<close> is the
  only place where the sources decide where a client request may be sent; the lemmas
  describe it completely and show for which combinations it is inconsistent.
\<close>

section \<open>Roles, modes and states\<close>

datatype local_role = Coordinator | Worker | Unknown

datatype stable_mode =
  SoloStandalone | PairedStandalone | DistributedLayerParallel | DistributedTensorParallel

datatype cluster_state =
  Booting
| SoloStandaloneStarting
| SoloStandaloneReady
| Pairing
| PairedStandaloneReady
| AwaitingWorkerHello
| Promoting
| DistributedStarting
| DistributedReady
| Demoting
| Backoff
| ManualInterventionRequired
| TensorParallelStarting
| AwaitingTensorParallelWorkerHello
| TensorParallelReady
| DemotingTensorParallel
| TensorParallelBackoff

datatype unavailable_reason =
  Transition | InconsistentStableState | UnknownRoleWithoutLocalStandalone

datatype proxy_target = LocalStandalone | ToCoordinator | Unavailable unavailable_reason

fun role_name :: "local_role \<Rightarrow> string" where
  "role_name Coordinator = ''coordinator''"
| "role_name Worker = ''worker''"
| "role_name Unknown = ''unknown''"

fun mode_name :: "stable_mode \<Rightarrow> string" where
  "mode_name SoloStandalone = ''solo-standalone''"
| "mode_name PairedStandalone = ''paired-standalone''"
| "mode_name DistributedLayerParallel = ''distributed-layer-parallel''"
| "mode_name DistributedTensorParallel = ''distributed-tensor-parallel''"

fun state_name :: "cluster_state \<Rightarrow> string" where
  "state_name Booting = ''booting''"
| "state_name SoloStandaloneStarting = ''solo-standalone-starting''"
| "state_name SoloStandaloneReady = ''solo-standalone-ready''"
| "state_name Pairing = ''pairing''"
| "state_name PairedStandaloneReady = ''paired-standalone-ready''"
| "state_name AwaitingWorkerHello = ''awaiting-worker-hello''"
| "state_name Promoting = ''promoting''"
| "state_name DistributedStarting = ''distributed-starting''"
| "state_name DistributedReady = ''distributed-ready''"
| "state_name Demoting = ''demoting''"
| "state_name Backoff = ''backoff''"
| "state_name ManualInterventionRequired = ''manual-intervention-required''"
| "state_name TensorParallelStarting = ''tensor-parallel-starting''"
| "state_name AwaitingTensorParallelWorkerHello = ''awaiting-tensor-parallel-worker-hello''"
| "state_name TensorParallelReady = ''tensor-parallel-ready''"
| "state_name DemotingTensorParallel = ''demoting-tensor-parallel''"
| "state_name TensorParallelBackoff = ''tensor-parallel-backoff''"

section \<open>Target resolution\<close>

text \<open>The decision chain of \<open>resolve_target\<close>, in source order.\<close>

definition resolve_target ::
  "local_role \<Rightarrow> stable_mode \<Rightarrow> cluster_state \<Rightarrow> bool \<Rightarrow> proxy_target" where
  "resolve_target role mode state local_ready =
     (if state = ManualInterventionRequired \<and> local_ready then LocalStandalone
      else if state = Backoff then
        (if mode = SoloStandalone \<and> local_ready \<or>
            mode = PairedStandalone \<and> role = Coordinator \<and> local_ready then LocalStandalone
         else if mode = PairedStandalone \<and> role = Worker then ToCoordinator
         else Unavailable Transition)
      else if state \<notin> {SoloStandaloneReady, PairedStandaloneReady, DistributedReady,
                        TensorParallelReady} then Unavailable Transition
      else if role = Unknown then
        (if local_ready then LocalStandalone
         else Unavailable UnknownRoleWithoutLocalStandalone)
      else if mode = SoloStandalone \<and> state = SoloStandaloneReady then LocalStandalone
      else if mode = PairedStandalone \<and> state = PairedStandaloneReady then
        (if role = Coordinator then LocalStandalone else ToCoordinator)
      else if mode = DistributedLayerParallel \<and> state = DistributedReady then
        (if role = Coordinator then LocalStandalone else ToCoordinator)
      else if mode = DistributedTensorParallel \<and> state = TensorParallelReady then
        (if role = Coordinator then LocalStandalone else ToCoordinator)
      else Unavailable InconsistentStableState)"

section \<open>What resolution promises\<close>

text \<open>The state in which a stable mode is published.\<close>

fun stable_ready_state :: "stable_mode \<Rightarrow> cluster_state" where
  "stable_ready_state SoloStandalone = SoloStandaloneReady"
| "stable_ready_state PairedStandalone = PairedStandaloneReady"
| "stable_ready_state DistributedLayerParallel = DistributedReady"
| "stable_ready_state DistributedTensorParallel = TensorParallelReady"

definition ready_states :: "cluster_state set" where
  "ready_states =
     {SoloStandaloneReady, PairedStandaloneReady, DistributedReady, TensorParallelReady}"

lemma stable_ready_state_ready [simp]: "stable_ready_state m \<in> ready_states"
  by (cases m) (simp_all add: ready_states_def)

lemma stable_ready_state_inj: "stable_ready_state m = stable_ready_state n \<longleftrightarrow> m = n"
  by (cases m; cases n) simp_all

lemma resolve_ready:
  assumes "role \<noteq> Unknown"
  shows "resolve_target role mode (stable_ready_state mode) lr =
    (if role = Worker \<and> mode \<noteq> SoloStandalone then ToCoordinator else LocalStandalone)"
  using assms by (cases mode; cases role) (simp_all add: resolve_target_def)

lemma resolve_transition:
  "state \<notin> ready_states \<union> {Backoff, ManualInterventionRequired} \<Longrightarrow>
   resolve_target role mode state lr = Unavailable Transition"
  by (simp add: resolve_target_def ready_states_def)

lemma resolve_inconsistent_iff:
  "resolve_target role mode state lr = Unavailable InconsistentStableState \<longleftrightarrow>
   role \<noteq> Unknown \<and> state \<in> ready_states \<and> state \<noteq> stable_ready_state mode"
  by (cases mode; cases role) (auto simp: resolve_target_def ready_states_def)

lemma resolve_coordinator_iff:
  "resolve_target role mode state lr = ToCoordinator \<longleftrightarrow>
   role = Worker \<and> mode \<noteq> SoloStandalone \<and>
   (state = stable_ready_state mode \<or> mode = PairedStandalone \<and> state = Backoff)"
  by (cases mode; cases role) (auto simp: resolve_target_def)

lemma state_name_inj: "state_name s = state_name t \<longleftrightarrow> s = t"
  by (cases s; cases t) simp_all

end
