(* ===== verification/Tp_Session.thy ===== *)
theory Tp_Session
  imports Sds_Prelude
begin

text \<open>
  The tensor-parallel session of \<open>src/cluster/tp.rs\<close>: the four readiness
  elements that must be observed before a route is published, and the session they are
  collected for. Session identifiers (\<open>TpSessionId\<close> of
  \<open>src/cluster/operation.rs\<close>) are 64-bit values.
\<close>

datatype tp_session_id = TpSessionId u64

record tp_readiness =
  worker_prepared :: bool
  coordinator_started :: bool
  handshake_http_ready :: bool
  warmup_done :: bool

datatype tp_readiness_event = WorkerPrepared | CoordinatorStarted | HandshakeHttpReady | WarmupDone

definition tp_readiness_new :: tp_readiness where
  "tp_readiness_new = \<lparr>worker_prepared = False, coordinator_started = False,
     handshake_http_ready = False, warmup_done = False\<rparr>"

definition is_complete :: "tp_readiness \<Rightarrow> bool" where
  "is_complete r \<longleftrightarrow>
     worker_prepared r \<and> coordinator_started r \<and> handshake_http_ready r \<and> warmup_done r"

fun readiness_with :: "tp_readiness \<Rightarrow> tp_readiness_event \<Rightarrow> tp_readiness" where
  "readiness_with r WorkerPrepared = r\<lparr>worker_prepared := True\<rparr>"
| "readiness_with r CoordinatorStarted = r\<lparr>coordinator_started := True\<rparr>"
| "readiness_with r HandshakeHttpReady = r\<lparr>handshake_http_ready := True\<rparr>"
| "readiness_with r WarmupDone = r\<lparr>warmup_done := True\<rparr>"

record tp_session_state =
  tp_session :: tp_session_id
  readiness :: tp_readiness

definition tp_session_new :: "tp_session_id \<Rightarrow> tp_session_state" where
  "tp_session_new s = \<lparr>tp_session = s, readiness = tp_readiness_new\<rparr>"

definition route_ready :: "tp_session_state \<Rightarrow> bool" where
  "route_ready t = is_complete (readiness t)"

definition tp_apply_event ::
  "tp_session_state \<Rightarrow> tp_session_id \<Rightarrow> tp_readiness_event \<Rightarrow> tp_session_state option" where
  "tp_apply_event t s e =
     (if tp_session t \<noteq> s then None
      else Some \<lparr>tp_session = s, readiness = readiness_with (readiness t) e\<rparr>)"

section \<open>Collecting readiness\<close>

text \<open>The elements observed so far, as a set: the abstract view of a readiness value.\<close>

definition observed :: "tp_readiness \<Rightarrow> tp_readiness_event set" where
  "observed r =
     (if worker_prepared r then {WorkerPrepared} else {}) \<union>
     (if coordinator_started r then {CoordinatorStarted} else {}) \<union>
     (if handshake_http_ready r then {HandshakeHttpReady} else {}) \<union>
     (if warmup_done r then {WarmupDone} else {})"

lemma observed_new [simp]: "observed tp_readiness_new = {}"
  by (simp add: observed_def tp_readiness_new_def)

lemma observed_with [simp]: "observed (readiness_with r e) = insert e (observed r)"
  by (cases e) (auto simp: observed_def)

lemma is_complete_iff: "is_complete r \<longleftrightarrow> observed r = UNIV"
proof -
  have "(UNIV :: tp_readiness_event set) =
      {WorkerPrepared, CoordinatorStarted, HandshakeHttpReady, WarmupDone}"
    using tp_readiness_event.exhaust by blast
  then show ?thesis by (auto simp: is_complete_def observed_def split: if_splits)
qed

fun tp_apply_events ::
  "tp_session_state \<Rightarrow> (tp_session_id \<times> tp_readiness_event) list \<Rightarrow> tp_session_state option" where
  "tp_apply_events t [] = Some t"
| "tp_apply_events t ((s, e) # es) = Option.bind (tp_apply_event t s e) (\<lambda>t'. tp_apply_events t' es)"

lemma tp_apply_events_Some:
  "tp_apply_events t es = Some t' \<Longrightarrow>
   tp_session t' = tp_session t \<and> fst ` set es \<subseteq> {tp_session t} \<and>
   observed (readiness t') = observed (readiness t) \<union> snd ` set es"
proof (induction t es rule: tp_apply_events.induct)
  case (1 t)
  then show ?case by simp
next
  case (2 t s e es)
  from "2.prems" obtain u where u: "tp_apply_event t s e = Some u" and r: "tp_apply_events u es = Some t'"
    by (auto simp: Option.bind_eq_Some_conv)
  from u have "tp_session u = tp_session t" "s = tp_session t"
    "observed (readiness u) = insert e (observed (readiness t))"
    by (auto simp: tp_apply_event_def split: if_splits)
  with "2.IH" [OF u r] show ?case by auto
qed

text \<open>
  A session that starts fresh is route-ready after a sequence of readiness events
  exactly when all four elements were observed and every event carried that session's
  identifier: no event of another session counts, and the order and repetition of the
  events do not matter.
\<close>
lemma tp_route_ready_iff:
  assumes "tp_apply_events (tp_session_new s) es = Some t"
  shows "route_ready t \<longleftrightarrow> (\<forall>e. (s, e) \<in> set es)"
proof -
  from tp_apply_events_Some [OF assms]
  have obs: "observed (readiness t) = snd ` set es" and sess: "fst ` set es \<subseteq> {s}"
    by (simp_all add: tp_session_new_def)
  from sess have "e \<in> snd ` set es \<longleftrightarrow> (s, e) \<in> set es" for e by force
  then show ?thesis by (auto simp: route_ready_def is_complete_iff obs)
qed

end
