(* ===== verification/Cluster_State.thy ===== *)
theory Cluster_State
  imports Proxy_Target Tp_Session
begin

text \<open>
  The cluster state machine of \<open>src/cluster/state.rs\<close>: snapshots, events, the
  pure reducer \<open>transition\<close>, the actor loop of \<open>spawn_state_machine\<close> that
  serialises commands through it, the failure table, and the promotion failure tracker.
  The reducer's match is grouped by event kind; within a kind the arms keep the source
  order. Generations are 64-bit and \<open>+ 1\<close> wraps, as the release build does.
\<close>

section \<open>Events, failures, snapshots\<close>

datatype cluster_event_kind =
  BeginSoloStandalone
| LocalStandaloneReady
| LocalStandaloneLost
| BeginPairing
| PairingReady
| WorkerHelloAccepted
| BeginPromotion
| DistributedChildStarted
| DistributedRouteReady
| PromotionFailed
| DeploymentMismatch
| BeginDemotion
| PeerLost
| EnterBackoff
| BackoffElapsed
| RequireManualIntervention
| OperatorReconcile
| BeginTensorParallel
| TensorParallelWorkerPrepared
| TensorParallelCoordinatorStarted
| TensorParallelHandshakeHttpReady
| TensorParallelWarmupDone
| BeginTensorParallelDemotion

datatype cluster_failure =
  CfPeerAbsent
| CfBridgeUnavailable
| CfBridgeAddressInvalid
| CfBonjourUnavailable (static_fallback: bool)
| CfUnauthenticatedDiscovery
| CfInvalidControlHmac
| CfInvalidPeerProxyToken
| CfDeploymentMismatch
| CfManifestStale
| CfHelloTimeout
| CfUnknownDs4Schema
| CfCoordinatorStartupTimeout
| CfRouteIncomplete
| CfPeerLeaseLost
| CfChildIdentityUnknown
| CfStandaloneStartFailed
| CfDrainTimeout
| CfFirstPrefillTimeout
| CfStateCorrupt (standalone_safe: bool)

datatype failure_action_kind =
  FaMaintainCurrent | FaRejectRequest | FaRetryStaticDiscovery | FaSoloStandalone
| FaPairedStandalone | FaPromotionBackoff | FaManualIntervention | FaUnavailable

fun failure_action :: "cluster_failure \<Rightarrow> failure_action_kind" where
  "failure_action CfPeerAbsent = FaSoloStandalone"
| "failure_action CfBridgeUnavailable = FaSoloStandalone"
| "failure_action CfBridgeAddressInvalid = FaSoloStandalone"
| "failure_action CfPeerLeaseLost = FaSoloStandalone"
| "failure_action (CfBonjourUnavailable b) = (if b then FaRetryStaticDiscovery else FaSoloStandalone)"
| "failure_action CfUnauthenticatedDiscovery = FaMaintainCurrent"
| "failure_action CfInvalidControlHmac = FaRejectRequest"
| "failure_action CfInvalidPeerProxyToken = FaRejectRequest"
| "failure_action CfDeploymentMismatch = FaSoloStandalone"
| "failure_action CfManifestStale = FaPairedStandalone"
| "failure_action CfHelloTimeout = FaPromotionBackoff"
| "failure_action CfCoordinatorStartupTimeout = FaPromotionBackoff"
| "failure_action CfUnknownDs4Schema = FaPairedStandalone"
| "failure_action CfRouteIncomplete = FaPairedStandalone"
| "failure_action CfChildIdentityUnknown = FaManualIntervention"
| "failure_action CfStandaloneStartFailed = FaUnavailable"
| "failure_action CfDrainTimeout = FaManualIntervention"
| "failure_action CfFirstPrefillTimeout = FaPairedStandalone"
| "failure_action (CfStateCorrupt b) = (if b then FaSoloStandalone else FaManualIntervention)"

record cluster_snapshot =
  cs_generation :: u64
  cs_role :: local_role
  cs_mode :: stable_mode
  cs_state :: cluster_state
  cs_target :: proxy_target
  cs_local_ready :: bool
  cs_last_failure :: "cluster_failure option"
  cs_tp :: "tp_session_state option"

definition snapshot_new ::
  "u64 \<Rightarrow> local_role \<Rightarrow> stable_mode \<Rightarrow> cluster_state \<Rightarrow> bool \<Rightarrow> tp_session_state option \<Rightarrow>
   cluster_snapshot" where
  "snapshot_new g role mode state lr tp =
     \<lparr>cs_generation = g, cs_role = role, cs_mode = mode, cs_state = state,
      cs_target = resolve_target role mode state lr, cs_local_ready = lr,
      cs_last_failure = None, cs_tp = tp\<rparr>"

definition booting_at :: "local_role \<Rightarrow> u64 \<Rightarrow> cluster_snapshot" where
  "booting_at role g = snapshot_new g role SoloStandalone Booting False None"

record cluster_event =
  ev_expected_generation :: u64
  ev_kind :: cluster_event_kind
  ev_tp_session :: "tp_session_id option"

definition event_new :: "u64 \<Rightarrow> cluster_event_kind \<Rightarrow> cluster_event" where
  "event_new g k = \<lparr>ev_expected_generation = g, ev_kind = k, ev_tp_session = None\<rparr>"

definition event_tp :: "u64 \<Rightarrow> cluster_event_kind \<Rightarrow> tp_session_id \<Rightarrow> cluster_event" where
  "event_tp g k s = \<lparr>ev_expected_generation = g, ev_kind = k, ev_tp_session = Some s\<rparr>"

datatype transition_error =
  StaleGeneration (expected: u64) (current: u64)
| InvalidTransition cluster_state cluster_event_kind
| Stopped

section \<open>The reducer\<close>

text \<open>The elements that must precede the warm-up before the route may be published.\<close>

definition tp_pre_warmup_complete :: "cluster_snapshot \<Rightarrow> bool" where
  "tp_pre_warmup_complete c =
     (case cs_tp c of
        None \<Rightarrow> False
      | Some t \<Rightarrow> worker_prepared (readiness t) \<and> coordinator_started (readiness t) \<and>
          handshake_http_ready (readiness t))"

text \<open>The stable mode, state and local readiness an event leads to; \<open>None\<close> is the
  source's catch-all \<open>InvalidTransition\<close> arm.\<close>

fun next_stable ::
  "cluster_snapshot \<Rightarrow> cluster_event_kind \<Rightarrow> (stable_mode \<times> cluster_state \<times> bool) option" where
  "next_stable c BeginSoloStandalone =
     (if cs_state c \<in> {ManualInterventionRequired, DemotingTensorParallel, PairedStandaloneReady,
                       SoloStandaloneReady, Booting, Backoff}
      then Some (SoloStandalone, SoloStandaloneStarting, False) else None)"
| "next_stable c LocalStandaloneReady =
     (if cs_state c = SoloStandaloneStarting
      then Some (SoloStandalone, SoloStandaloneReady, True) else None)"
| "next_stable c LocalStandaloneLost =
     (if cs_state c = SoloStandaloneReady
      then Some (SoloStandalone, SoloStandaloneStarting, False) else None)"
| "next_stable c BeginPairing =
     (if cs_state c = SoloStandaloneReady
      then Some (SoloStandalone, Pairing, cs_local_ready c) else None)"
| "next_stable c PairingReady =
     (if cs_state c \<in> {Pairing, Demoting, DemotingTensorParallel}
      then Some (PairedStandalone, PairedStandaloneReady, cs_role c \<noteq> Worker) else None)"
| "next_stable c BeginPromotion =
     (if cs_state c = PairedStandaloneReady
      then Some (PairedStandalone, AwaitingWorkerHello, cs_local_ready c) else None)"
| "next_stable c WorkerHelloAccepted =
     (if cs_state c = AwaitingWorkerHello
      then Some (PairedStandalone, Promoting, cs_local_ready c) else None)"
| "next_stable c DistributedChildStarted =
     (if cs_state c = Promoting
      then Some (PairedStandalone, DistributedStarting, False) else None)"
| "next_stable c DistributedRouteReady =
     (if cs_state c = DistributedStarting
      then Some (DistributedLayerParallel, DistributedReady, cs_role c \<noteq> Worker) else None)"
| "next_stable c PromotionFailed =
     (if cs_state c \<in> {AwaitingWorkerHello, Promoting, DistributedStarting}
      then Some (PairedStandalone, PairedStandaloneReady, cs_role c \<noteq> Worker) else None)"
| "next_stable c DeploymentMismatch =
     (if cs_state c \<in> {Pairing, PairedStandaloneReady, AwaitingWorkerHello, Promoting,
                       DistributedStarting, DistributedReady, Demoting}
      then Some (SoloStandalone, SoloStandaloneStarting, False)
      else if cs_state c = SoloStandaloneReady
      then Some (SoloStandalone, SoloStandaloneReady, True) else None)"
| "next_stable c BeginDemotion =
     (if cs_state c = DistributedReady
      then Some (DistributedLayerParallel, Demoting, False) else None)"
| "next_stable c PeerLost =
     (if cs_state c \<in> {Pairing, PairedStandaloneReady, AwaitingWorkerHello, Promoting,
                       DistributedStarting, DistributedReady, Demoting, Backoff}
      then Some (SoloStandalone, SoloStandaloneStarting, False) else None)"
| "next_stable c BeginTensorParallel =
     (if cs_state c \<in> {SoloStandaloneReady, PairedStandaloneReady}
      then Some (DistributedTensorParallel, TensorParallelStarting, False) else None)"
| "next_stable c TensorParallelWorkerPrepared =
     (if cs_state c = TensorParallelStarting
      then Some (DistributedTensorParallel, AwaitingTensorParallelWorkerHello, False) else None)"
| "next_stable c TensorParallelCoordinatorStarted =
     (if cs_state c = AwaitingTensorParallelWorkerHello
      then Some (DistributedTensorParallel, AwaitingTensorParallelWorkerHello, False) else None)"
| "next_stable c TensorParallelHandshakeHttpReady =
     (if cs_state c = AwaitingTensorParallelWorkerHello
      then Some (DistributedTensorParallel, AwaitingTensorParallelWorkerHello, False) else None)"
| "next_stable c TensorParallelWarmupDone =
     (if cs_state c = AwaitingTensorParallelWorkerHello
      then (if tp_pre_warmup_complete c
            then Some (DistributedTensorParallel, TensorParallelReady, cs_role c \<noteq> Worker)
            else Some (DistributedTensorParallel, AwaitingTensorParallelWorkerHello, False))
      else None)"
| "next_stable c BeginTensorParallelDemotion =
     (if cs_state c \<in> {TensorParallelReady, TensorParallelStarting,
                       AwaitingTensorParallelWorkerHello, DemotingTensorParallel}
      then Some (DistributedTensorParallel, DemotingTensorParallel, False) else None)"
| "next_stable c EnterBackoff =
     (if cs_state c \<in> {TensorParallelReady, TensorParallelStarting,
                       AwaitingTensorParallelWorkerHello, DemotingTensorParallel}
      then Some (DistributedTensorParallel, TensorParallelBackoff, cs_local_ready c)
      else Some (cs_mode c, Backoff, cs_local_ready c))"
| "next_stable c BackoffElapsed =
     (if cs_state c = TensorParallelBackoff
      then Some (DistributedTensorParallel, TensorParallelStarting, False)
      else if cs_state c = Backoff
      then Some (cs_mode c, stable_ready_state (cs_mode c), cs_local_ready c) else None)"
| "next_stable c OperatorReconcile =
     (if cs_state c = ManualInterventionRequired
      then Some (cs_mode c, stable_ready_state (cs_mode c), cs_local_ready c) else None)"
| "next_stable c RequireManualIntervention =
     Some (cs_mode c, ManualInterventionRequired, cs_local_ready c)"

definition advance_readiness ::
  "cluster_snapshot \<Rightarrow> cluster_event \<Rightarrow> tp_readiness_event \<Rightarrow> tp_session_state option" where
  "advance_readiness c e r =
     Option.bind (cs_tp c)
       (\<lambda>t. tp_apply_event t (case ev_tp_session e of None \<Rightarrow> TpSessionId 0 | Some s \<Rightarrow> s) r)"

definition next_tp :: "cluster_snapshot \<Rightarrow> cluster_event \<Rightarrow> tp_session_state option" where
  "next_tp c e =
     (case ev_kind e of
        BeginTensorParallel \<Rightarrow> map_option tp_session_new (ev_tp_session e)
      | TensorParallelWorkerPrepared \<Rightarrow> advance_readiness c e WorkerPrepared
      | TensorParallelCoordinatorStarted \<Rightarrow> advance_readiness c e CoordinatorStarted
      | TensorParallelHandshakeHttpReady \<Rightarrow> advance_readiness c e HandshakeHttpReady
      | TensorParallelWarmupDone \<Rightarrow> advance_readiness c e WarmupDone
      | _ \<Rightarrow> cs_tp c)"

definition next_failure :: "cluster_snapshot \<Rightarrow> cluster_event_kind \<Rightarrow> cluster_failure option" where
  "next_failure c k =
     (case k of
        DeploymentMismatch \<Rightarrow> Some CfDeploymentMismatch
      | LocalStandaloneReady \<Rightarrow>
          (if cs_state c = SoloStandaloneStarting then cs_last_failure c else None)
      | _ \<Rightarrow> None)"

text \<open>A tensor-parallel event of another session, or of none, is ignored.\<close>

definition foreign_session :: "cluster_snapshot \<Rightarrow> cluster_event \<Rightarrow> bool" where
  "foreign_session c e \<longleftrightarrow>
     (case ev_tp_session e of
        None \<Rightarrow> False
      | Some s \<Rightarrow> ev_kind e \<noteq> BeginTensorParallel \<and> map_option tp_session (cs_tp c) \<noteq> Some s)"

definition transition :: "cluster_snapshot \<Rightarrow> cluster_event \<Rightarrow> transition_error + cluster_snapshot" where
  "transition c e =
     (if ev_expected_generation e \<noteq> cs_generation c
      then Inl (StaleGeneration (ev_expected_generation e) (cs_generation c))
      else if foreign_session c e then Inr c
      else case next_stable c (ev_kind e) of
        None \<Rightarrow> Inl (InvalidTransition (cs_state c) (ev_kind e))
      | Some (mode, state, lr) \<Rightarrow>
          Inr ((snapshot_new (cs_generation c + 1) (cs_role c) mode state lr (cs_tp c))
                 \<lparr>cs_tp := next_tp c e, cs_last_failure := next_failure c (ev_kind e)\<rparr>))"

text \<open>The actor of \<open>spawn_state_machine\<close>: commands are taken from the channel one
  at a time; a success becomes the current and published snapshot, and every command is
  answered with the reducer's result.\<close>

fun state_machine ::
  "cluster_snapshot \<Rightarrow> cluster_event list \<Rightarrow>
   cluster_snapshot \<times> (transition_error + cluster_snapshot) list" where
  "state_machine c [] = (c, [])"
| "state_machine c (e # es) =
     (let r = transition c e;
          c' = (case r of Inr n \<Rightarrow> n | Inl err \<Rightarrow> c);
          (last, replies) = state_machine c' es
      in (last, r # replies))"

section \<open>Names used in logs\<close>

fun transition_name :: "cluster_state \<Rightarrow> cluster_state \<Rightarrow> string" where
  "transition_name from to =
     (if (from, to) = (SoloStandaloneReady, Pairing) then ''pair''
      else if (from, to) \<in> {(PairedStandaloneReady, AwaitingWorkerHello),
          (AwaitingWorkerHello, Promoting), (Promoting, DistributedStarting),
          (DistributedStarting, DistributedReady)} then ''promote''
      else if (from, to) \<in> {(DistributedReady, Demoting), (Demoting, PairedStandaloneReady)}
      then ''demote'' else ''reconcile'')"

section \<open>Promotion failures\<close>

datatype promotion_retry_decision = RetryBackoff (retry_at: u64) | RetryManualIntervention

record promotion_failure_status =
  pf_failure :: "cluster_failure option"
  pf_consecutive :: u32
  pf_retry_at :: "u64 option"
  pf_manual :: bool

text \<open>The configured back-off is a duration, kept in whole milliseconds; a sub-millisecond
  duration is positive for \<open>is_zero\<close> and 0 for \<open>as_millis\<close>, so positivity is a
  separate flag of the constructor.\<close>

record promotion_failure_tracker =
  pt_backoff_millis :: nat
  pt_maximum :: u32
  pt_status :: promotion_failure_status

datatype promotion_tracker_error = InvalidPolicy | NotPromotionFailure

definition pf_clear :: promotion_failure_status where
  "pf_clear = \<lparr>pf_failure = None, pf_consecutive = 0, pf_retry_at = None, pf_manual = False\<rparr>"

definition tracker_new ::
  "bool \<Rightarrow> nat \<Rightarrow> u32 \<Rightarrow> promotion_tracker_error + promotion_failure_tracker" where
  "tracker_new backoff_is_zero backoff_millis maximum =
     (if backoff_is_zero \<or> maximum = 0 then Inl InvalidPolicy
      else Inr \<lparr>pt_backoff_millis = backoff_millis, pt_maximum = maximum, pt_status = pf_clear\<rparr>)"

definition tracker_record ::
  "promotion_failure_tracker \<Rightarrow> cluster_failure \<Rightarrow> u64 \<Rightarrow>
   promotion_tracker_error + (promotion_failure_tracker \<times> promotion_retry_decision)" where
  "tracker_record t failure now =
     (if failure_action failure \<noteq> FaPromotionBackoff then Inl NotPromotionFailure
      else
        let n = (if pf_failure (pt_status t) = Some failure
                 then sat_add (pf_consecutive (pt_status t)) 1 else 1);
            st = (pt_status t)\<lparr>pf_consecutive := n, pf_failure := Some failure\<rparr>
        in if pt_maximum t \<le> n
           then Inr (t\<lparr>pt_status := st\<lparr>pf_retry_at := None, pf_manual := True\<rparr>\<rparr>,
                     RetryManualIntervention)
           else
             let at = sat_add now (duration_millis (pt_backoff_millis t))
             in Inr (t\<lparr>pt_status := st\<lparr>pf_retry_at := Some at, pf_manual := False\<rparr>\<rparr>,
                     RetryBackoff at))"

definition can_retry :: "promotion_failure_tracker \<Rightarrow> u64 \<Rightarrow> bool" where
  "can_retry t now \<longleftrightarrow>
     \<not> pf_manual (pt_status t) \<and> is_none_or (\<lambda>at. at \<le> now) (pf_retry_at (pt_status t))"

definition tracker_reset :: "promotion_failure_tracker \<Rightarrow> promotion_failure_tracker" where
  "tracker_reset t = t\<lparr>pt_status := pf_clear\<rparr>"

abbreviation note_success :: "promotion_failure_tracker \<Rightarrow> promotion_failure_tracker" where
  "note_success \<equiv> tracker_reset"

section \<open>Invariants\<close>

text \<open>The stable mode a state belongs to; back-off and manual intervention occur in every mode.\<close>

definition mode_fits :: "stable_mode \<Rightarrow> cluster_state \<Rightarrow> bool" where
  "mode_fits mode state \<longleftrightarrow>
     (state \<in> {Booting, SoloStandaloneStarting, SoloStandaloneReady, Pairing} \<longrightarrow>
        mode = SoloStandalone) \<and>
     (state \<in> {PairedStandaloneReady, AwaitingWorkerHello, Promoting, DistributedStarting} \<longrightarrow>
        mode = PairedStandalone) \<and>
     (state \<in> {DistributedReady, Demoting} \<longrightarrow> mode = DistributedLayerParallel) \<and>
     (state \<in> {TensorParallelStarting, AwaitingTensorParallelWorkerHello, TensorParallelReady,
               DemotingTensorParallel, TensorParallelBackoff} \<longrightarrow>
        mode = DistributedTensorParallel)"

text \<open>Well-formed snapshots: the mode fits the state, and the target is the resolved one.\<close>

definition coherent :: "cluster_snapshot \<Rightarrow> bool" where
  "coherent c \<longleftrightarrow> mode_fits (cs_mode c) (cs_state c) \<and>
     cs_target c = resolve_target (cs_role c) (cs_mode c) (cs_state c) (cs_local_ready c)"

text \<open>The event kinds that carry a session identifier (the match of \<open>tp_event\<close> in
  \<open>src/cluster/production/tp_runtime.rs\<close>); every other constructor of events leaves it out.\<close>

definition tp_kind :: "cluster_event_kind \<Rightarrow> bool" where
  "tp_kind k \<longleftrightarrow> k \<in> {BeginTensorParallel, TensorParallelWorkerPrepared,
     TensorParallelCoordinatorStarted, TensorParallelHandshakeHttpReady,
     TensorParallelWarmupDone, BeginTensorParallelDemotion}"

definition tp_event_for :: "cluster_snapshot \<Rightarrow> cluster_event_kind \<Rightarrow> u64 \<Rightarrow> cluster_event" where
  "tp_event_for c k session =
     (if tp_kind k then event_tp (cs_generation c) k (TpSessionId session)
      else event_new (cs_generation c) k)"

definition wf_event :: "cluster_event \<Rightarrow> bool" where
  "wf_event e \<longleftrightarrow> (tp_kind (ev_kind e) \<longleftrightarrow> ev_tp_session e \<noteq> None)"

text \<open>The two events that return to the published state of the current mode without an
  observation of the children.\<close>

definition blind_republish :: "cluster_snapshot \<Rightarrow> cluster_event \<Rightarrow> bool" where
  "blind_republish c e \<longleftrightarrow>
     ev_kind e = OperatorReconcile \<or> ev_kind e = BackoffElapsed \<and> cs_state c = Backoff"

definition tp_published_complete :: "cluster_snapshot \<Rightarrow> bool" where
  "tp_published_complete c \<longleftrightarrow>
     (cs_state c = TensorParallelReady \<longrightarrow> (\<exists>t. cs_tp c = Some t \<and> route_ready t))"

definition serves_when_ready :: "cluster_snapshot \<Rightarrow> bool" where
  "serves_when_ready c \<longleftrightarrow> (cs_target c = LocalStandalone \<longrightarrow> cs_local_ready c)"

text \<open>A caller that reads the current snapshot and applies one event kind after the other
  (the pattern of every orchestration in the sources), and the kinds that lead from a state
  back to a served solo standalone.\<close>

definition issue :: "cluster_snapshot \<Rightarrow> cluster_event_kind \<Rightarrow> cluster_event" where
  "issue c k = \<lparr>ev_expected_generation = cs_generation c, ev_kind = k,
     ev_tp_session = (if tp_kind k then map_option tp_session (cs_tp c) else None)\<rparr>"

fun drive :: "cluster_snapshot \<Rightarrow> cluster_event_kind list \<Rightarrow> cluster_snapshot option" where
  "drive c [] = Some c"
| "drive c (k # ks) = (case transition c (issue c k) of Inl err \<Rightarrow> None | Inr d \<Rightarrow> drive d ks)"

fun back_to_solo :: "cluster_state \<Rightarrow> cluster_event_kind list" where
  "back_to_solo SoloStandaloneStarting = [LocalStandaloneReady]"
| "back_to_solo SoloStandaloneReady = [LocalStandaloneLost, LocalStandaloneReady]"
| "back_to_solo Booting = [BeginSoloStandalone, LocalStandaloneReady]"
| "back_to_solo Backoff = [BeginSoloStandalone, LocalStandaloneReady]"
| "back_to_solo ManualInterventionRequired = [BeginSoloStandalone, LocalStandaloneReady]"
| "back_to_solo DemotingTensorParallel = [BeginSoloStandalone, LocalStandaloneReady]"
| "back_to_solo TensorParallelBackoff =
     [BackoffElapsed, BeginTensorParallelDemotion, BeginSoloStandalone, LocalStandaloneReady]"
| "back_to_solo TensorParallelStarting =
     [BeginTensorParallelDemotion, BeginSoloStandalone, LocalStandaloneReady]"
| "back_to_solo AwaitingTensorParallelWorkerHello =
     [BeginTensorParallelDemotion, BeginSoloStandalone, LocalStandaloneReady]"
| "back_to_solo TensorParallelReady =
     [BeginTensorParallelDemotion, BeginSoloStandalone, LocalStandaloneReady]"
| "back_to_solo s = [PeerLost, LocalStandaloneReady]"

section \<open>Bounded promotion retries\<close>

text \<open>The tracker after the same failure was recorded at the given times.\<close>

fun record_seq ::
  "promotion_failure_tracker \<Rightarrow> cluster_failure \<Rightarrow> u64 list \<Rightarrow>
   promotion_tracker_error + promotion_failure_tracker" where
  "record_seq t f [] = Inr t"
| "record_seq t f (now # nows) =
     (case tracker_record t f now of Inl err \<Rightarrow> Inl err | Inr (t', d) \<Rightarrow> record_seq t' f nows)"

section \<open>Shape of a transition\<close>

lemma transition_Inr_cases:
  assumes "transition c e = Inr n"
  obtains (ignored) "foreign_session c e" "n = c" "ev_expected_generation e = cs_generation c"
  | (applied) mode state lr where "\<not> foreign_session c e"
      "ev_expected_generation e = cs_generation c"
      "next_stable c (ev_kind e) = Some (mode, state, lr)"
      "cs_generation n = cs_generation c + 1" "cs_role n = cs_role c" "cs_mode n = mode"
      "cs_state n = state" "cs_target n = resolve_target (cs_role c) mode state lr"
      "cs_local_ready n = lr" "cs_tp n = next_tp c e"
      "cs_last_failure n = next_failure c (ev_kind e)"
  using assms
  by (auto simp: transition_def snapshot_new_def split: if_splits option.splits)

lemma mode_fits_ready: "mode_fits m (stable_ready_state m)"
  by (cases m) (simp_all add: mode_fits_def)

lemma mode_fits_ready_iff: "mode_fits m s \<Longrightarrow> s \<in> ready_states \<Longrightarrow> s = stable_ready_state m"
  by (auto simp: mode_fits_def ready_states_def)

lemma next_stable_mode_fits:
  assumes "next_stable c k = Some (mode, state, lr)"
  shows "mode_fits mode state"
  using assms by (cases k; cases "cs_mode c") (auto simp: mode_fits_def split: if_splits)

lemma booting_coherent [simp]: "coherent (booting_at r g)"
  by (simp add: coherent_def booting_at_def snapshot_new_def mode_fits_def)

interpretation cm: fallible_machine "\<lambda>c e. True" transition coherent
proof
  fix c e n
  assume "coherent c" and "transition c e = Inr n"
  from this(2) this(1) show "coherent n"
    by (cases rule: transition_Inr_cases) (auto simp: coherent_def next_stable_mode_fits)
qed

section \<open>Generations\<close>

lemma transition_stale:
  "ev_expected_generation e \<noteq> cs_generation c \<Longrightarrow>
   transition c e = Inl (StaleGeneration (ev_expected_generation e) (cs_generation c))"
  by (simp add: transition_def)

lemma state_machine_fst: "fst (state_machine c es) = foldl (keep_on_error transition) c es"
  by (induction c es rule: state_machine.induct)
    (auto simp: Let_def keep_on_error_def split: prod.splits sum.splits)

lemma step_generation:
  "cs_generation (keep_on_error transition c e) \<in> {cs_generation c, cs_generation c + 1}"
  by (cases "transition c e") (auto simp: keep_on_error_def elim: transition_Inr_cases)

lemma run_generation:
  "\<exists>k \<le> length es. cs_generation (foldl (keep_on_error transition) c es) = cs_generation c + of_nat k"
proof (induction es arbitrary: c)
  case Nil
  show ?case by simp
next
  case (Cons e es)
  let ?d = "keep_on_error transition c e"
  from Cons.IH [of ?d] obtain k where k: "k \<le> length es"
    "cs_generation (foldl (keep_on_error transition) ?d es) = cs_generation ?d + of_nat k" by blast
  from step_generation [of c e] k show ?case
    by (auto intro: exI [of _ k] exI [of _ "Suc k"] simp: algebra_simps)
qed

section \<open>Publication of routes\<close>

lemma next_stable_TensorParallelReady:
  assumes "next_stable c k = Some (mode, TensorParallelReady, lr)"
  shows "k = TensorParallelWarmupDone \<and> tp_pre_warmup_complete c \<or>
    k = OperatorReconcile \<or> k = BackoffElapsed \<and> cs_state c = Backoff"
  using assms by (cases k) (auto split: if_splits)

lemma warmup_completes:
  assumes "wf_event e" "ev_kind e = TensorParallelWarmupDone" "\<not> foreign_session c e"
    "tp_pre_warmup_complete c"
  shows "\<exists>t. next_tp c e = Some t \<and> route_ready t"
  using assms
  by (auto simp: wf_event_def tp_kind_def foreign_session_def tp_pre_warmup_complete_def next_tp_def
      advance_readiness_def tp_apply_event_def route_ready_def is_complete_def split: option.splits)

interpretation tpm: fallible_machine
  "\<lambda>c e. wf_event e \<and> \<not> (cs_mode c = DistributedTensorParallel \<and> blind_republish c e)"
  transition "\<lambda>c. coherent c \<and> tp_published_complete c"
proof
  fix c e n
  assume inv: "coherent c \<and> tp_published_complete c"
    and ok: "wf_event e \<and> \<not> (cs_mode c = DistributedTensorParallel \<and> blind_republish c e)"
    and tr: "transition c e = Inr n"
  from cm.step_inv [OF _ _ tr] inv have co: "coherent n" by simp
  from tr have "tp_published_complete n"
  proof (cases rule: transition_Inr_cases)
    case ignored
    with inv show ?thesis by simp
  next
    case (applied mode state lr)
    show ?thesis unfolding tp_published_complete_def
    proof
      assume ready: "cs_state n = TensorParallelReady"
      with applied have ns: "next_stable c (ev_kind e) = Some (mode, TensorParallelReady, lr)"
        and m: "mode = DistributedTensorParallel"
        using co by (auto simp: coherent_def mode_fits_def)
      from next_stable_TensorParallelReady [OF ns]
      show "\<exists>t. cs_tp n = Some t \<and> route_ready t"
      proof (elim disjE conjE)
        assume "ev_kind e = TensorParallelWarmupDone" "tp_pre_warmup_complete c"
        with ok applied show ?thesis using warmup_completes by metis
      next
        assume "ev_kind e = OperatorReconcile"
        with ns m ok show ?thesis by (auto simp: blind_republish_def split: if_splits)
      next
        assume "ev_kind e = BackoffElapsed" "cs_state c = Backoff"
        with ns m ok show ?thesis by (auto simp: blind_republish_def split: if_splits)
      qed
    qed
  qed
  with co show "coherent n \<and> tp_published_complete n" ..
qed

section \<open>Local readiness\<close>

lemma next_stable_local_ready:
  assumes "next_stable c k = Some (mode, state, lr)"
    and "resolve_target (cs_role c) mode state lr = LocalStandalone"
    and "\<not> (k = OperatorReconcile \<or> k = BackoffElapsed \<and> cs_state c = Backoff)"
  shows "lr"
  using assms by (cases k; cases "cs_role c") (auto simp: resolve_target_def split: if_splits)

interpretation lrm: fallible_machine
  "\<lambda>c e. blind_republish c e \<longrightarrow> cs_local_ready c" transition serves_when_ready
proof
  fix c e n
  assume inv: "serves_when_ready c" and ok: "blind_republish c e \<longrightarrow> cs_local_ready c"
    and tr: "transition c e = Inr n"
  from tr show "serves_when_ready n"
  proof (cases rule: transition_Inr_cases)
    case ignored
    with inv show ?thesis by simp
  next
    case (applied mode state lr)
    have "blind_republish c e \<Longrightarrow> lr = cs_local_ready c"
      using applied(3) by (auto simp: blind_republish_def split: if_splits)
    then show ?thesis
      using applied ok next_stable_local_ready [OF applied(3)]
      by (auto simp: serves_when_ready_def blind_republish_def)
  qed
qed

section \<open>Driving the machine\<close>

lemma issue_simps [simp]:
  "ev_kind (issue c k) = k" "ev_expected_generation (issue c k) = cs_generation c"
  by (simp_all add: issue_def)

lemma issue_not_foreign [simp]: "\<not> foreign_session c (issue c k)"
  by (simp add: issue_def foreign_session_def split: option.splits)

lemma transition_issue:
  "transition c (issue c k) =
     (case next_stable c k of
        None \<Rightarrow> Inl (InvalidTransition (cs_state c) k)
      | Some (mode, state, lr) \<Rightarrow>
          Inr ((snapshot_new (cs_generation c + 1) (cs_role c) mode state lr (cs_tp c))
                 \<lparr>cs_tp := next_tp c (issue c k), cs_last_failure := next_failure c k\<rparr>))"
  by (simp add: transition_def split: option.splits)

lemma transition_role: "transition c e = Inr n \<Longrightarrow> cs_role n = cs_role c"
  by (auto elim: transition_Inr_cases)

lemma reaches_role: "reaches ok transition c d \<Longrightarrow> cs_role d = cs_role c"
  by (induction rule: reaches.induct) (auto dest: transition_role)

lemma reaches_state_machine:
  "reaches (\<lambda>c e. True) transition c (fst (state_machine c es))"
  unfolding state_machine_fst by (rule reaches_foldl) (simp add: list_all_iff)

lemmas transition_eval = transition_def foreign_session_def event_new_def event_tp_def
  booting_at_def snapshot_new_def resolve_target_def next_tp_def next_failure_def
  advance_readiness_def tp_apply_event_def tp_pre_warmup_complete_def tp_session_new_def
  tp_readiness_new_def route_ready_def is_complete_def

section \<open>Recording failures\<close>

lemma tracker_record_eligible:
  assumes "failure_action f = FaPromotionBackoff"
  shows "\<exists>t' d. tracker_record t f now = Inr (t', d) \<and>
    pt_maximum t' = pt_maximum t \<and> pt_backoff_millis t' = pt_backoff_millis t \<and>
    pf_failure (pt_status t') = Some f \<and>
    pf_consecutive (pt_status t') =
      (if pf_failure (pt_status t) = Some f then sat_add (pf_consecutive (pt_status t)) 1 else 1) \<and>
    (\<forall>n. can_retry t' n \<longleftrightarrow> pf_consecutive (pt_status t') < pt_maximum t \<and>
       sat_add now (duration_millis (pt_backoff_millis t)) \<le> n)"
  using assms by (auto simp: tracker_record_def can_retry_def Let_def not_le)

lemma record_seq_eligible:
  assumes "failure_action f = FaPromotionBackoff" "nows \<noteq> []"
    and "pf_failure (pt_status t) = Some f \<or> pf_consecutive (pt_status t) = 0"
  shows "\<exists>t'. record_seq t f nows = Inr t' \<and>
    (\<forall>n. can_retry t' n \<longleftrightarrow>
       min (unat (pf_consecutive (pt_status t)) + length nows) (2 ^ 32 - 1) < unat (pt_maximum t) \<and>
       sat_add (last nows) (duration_millis (pt_backoff_millis t)) \<le> n)"
  using assms(2,3)
proof (induction nows arbitrary: t)
  case Nil
  then show ?case by simp
next
  case (Cons now nows)
  obtain t' d where r: "tracker_record t f now = Inr (t', d)"
    and same: "pt_maximum t' = pt_maximum t" "pt_backoff_millis t' = pt_backoff_millis t"
      "pf_failure (pt_status t') = Some f"
    and n: "pf_consecutive (pt_status t') =
      (if pf_failure (pt_status t) = Some f then sat_add (pf_consecutive (pt_status t)) 1 else 1)"
    and cr: "\<And>n. can_retry t' n \<longleftrightarrow> pf_consecutive (pt_status t') < pt_maximum t \<and>
       sat_add now (duration_millis (pt_backoff_millis t)) \<le> n"
    using tracker_record_eligible [OF assms(1), of t now] by blast
  have un: "unat (pf_consecutive (pt_status t')) =
      min (unat (pf_consecutive (pt_status t)) + 1) (2 ^ 32 - 1)"
    using n Cons.prems(2) by (auto simp: unat_sat_add)
  show ?case
  proof (cases "nows = []")
    case True
    with r cr un show ?thesis by (simp add: word_less_nat_alt)
  next
    case False
    from Cons.IH [OF False, of t'] same obtain u where "record_seq t' f nows = Inr u"
      "\<And>n. can_retry u n \<longleftrightarrow>
       min (unat (pf_consecutive (pt_status t')) + length nows) (2 ^ 32 - 1) < unat (pt_maximum t) \<and>
       sat_add (last nows) (duration_millis (pt_backoff_millis t)) \<le> n" by auto
    with r un False show ?thesis by (auto simp: min_def)
  qed
qed

section \<open>Properties\<close>

text \<open>
  C18. In every snapshot the machine can reach from booting, whatever events are applied in
  whatever order, the published target is the resolved one, it is never reported as an
  inconsistent stable state, and it points to the peer exactly when the node is the worker
  and the cluster is published in a two-node mode, or backs off from the paired mode.
\<close>
theorem reachable_target:
  assumes "reaches (\<lambda>c e. True) transition (booting_at r g) c"
  shows "cs_target c = resolve_target r (cs_mode c) (cs_state c) (cs_local_ready c) \<and>
    cs_target c \<noteq> Unavailable InconsistentStableState \<and>
    (cs_target c = ToCoordinator \<longleftrightarrow> r = Worker \<and>
       (cs_state c \<in> {PairedStandaloneReady, DistributedReady, TensorParallelReady} \<or>
        cs_state c = Backoff \<and> cs_mode c = PairedStandalone))"
proof (intro conjI)
  from cm.reaches_inv [OF assms] have co: "coherent c" by simp
  from reaches_role [OF assms] have r: "cs_role c = r" by (simp add: booting_at_def snapshot_new_def)
  show t: "cs_target c = resolve_target r (cs_mode c) (cs_state c) (cs_local_ready c)"
    using co r by (simp add: coherent_def)
  from co have fit: "mode_fits (cs_mode c) (cs_state c)" by (simp add: coherent_def)
  show "cs_target c \<noteq> Unavailable InconsistentStableState"
    using mode_fits_ready_iff [OF fit] by (auto simp: t resolve_inconsistent_iff)
  show "cs_target c = ToCoordinator \<longleftrightarrow> r = Worker \<and>
       (cs_state c \<in> {PairedStandaloneReady, DistributedReady, TensorParallelReady} \<or>
        cs_state c = Backoff \<and> cs_mode c = PairedStandalone)"
    using fit by (cases "cs_mode c") (auto simp: t resolve_coordinator_iff mode_fits_def)
qed

theorem reachable_target_witness:
  "let c = fst (state_machine (booting_at Worker 0)
      [event_new 0 BeginSoloStandalone, event_new 1 LocalStandaloneReady,
       event_new 2 BeginPairing, event_new 3 PairingReady])
   in cs_state c = PairedStandaloneReady \<and> cs_target c = ToCoordinator"
  using reachable_target [OF reaches_state_machine, of Worker 0
      "[event_new 0 BeginSoloStandalone, event_new 1 LocalStandaloneReady,
        event_new 2 BeginPairing, event_new 3 PairingReady]"]
  by (simp add: transition_eval)

text \<open>
  Optimistic concurrency: once an event that expected generation \<open>g\<close> was applied,
  every other event that was computed against \<open>g\<close> is rejected as stale, no matter
  which further commands (fewer than \<open>2 ^ 64 - 1\<close> of them) the machine served in between.
\<close>
lemma stale_after_apply:
  assumes "transition c e = Inr d" "\<not> foreign_session c e"
    and "length es < 2 ^ 64 - 1"
    and "ev_expected_generation e' = ev_expected_generation e"
    and "n = fst (state_machine d es)"
  shows "transition n e' = Inl (StaleGeneration (ev_expected_generation e) (cs_generation n))"
proof -
  from assms(1,2) have g: "cs_generation d = cs_generation c + 1"
    and e: "ev_expected_generation e = cs_generation c"
    by (auto elim: transition_Inr_cases)
  obtain k where k: "k \<le> length es" "cs_generation n = cs_generation c + 1 + of_nat k"
    using run_generation [of es d] assms(5) g by (auto simp: state_machine_fst)
  have "(1 + of_nat k :: u64) = of_nat (Suc k)" by simp
  moreover have "(of_nat (Suc k) :: u64) \<noteq> 0"
  proof
    assume "(of_nat (Suc k) :: u64) = 0"
    then have "unat (of_nat (Suc k) :: u64) = 0" by simp
    then have "Suc k mod 2 ^ 64 = 0" by (simp only: unat_of_nat) simp
    with k(1) assms(3) show False by simp
  qed
  ultimately have "cs_generation n \<noteq> cs_generation c"
    using k(2) by (metis add.assoc add_cancel_left_right)
  with e assms(4) show ?thesis by (simp add: transition_stale)
qed

text \<open>
  A tensor-parallel route is published only for a session whose four readiness elements
  (worker prepared, coordinator started, handshake and HTTP, warm-up) were all observed, as
  long as the events carry their session the way \<open>tp_event\<close> builds them and no
  operator reconcile or elapsed plain back-off republishes the tensor-parallel mode.
\<close>
lemma tp_route_published_complete:
  assumes "reaches (\<lambda>c e. wf_event e \<and>
      \<not> (cs_mode c = DistributedTensorParallel \<and> blind_republish c e))
      transition (booting_at r g) c"
    and "cs_state c = TensorParallelReady"
  shows "\<exists>t. cs_tp c = Some t \<and> route_ready t"
proof -
  have "tp_published_complete (booting_at r g)"
    by (simp add: tp_published_complete_def booting_at_def snapshot_new_def)
  with tpm.reaches_inv [OF assms(1)] have "tp_published_complete c" by simp
  with assms(2) show ?thesis by (simp add: tp_published_complete_def)
qed

text \<open>
  From every snapshot, at most four events, each computed against the snapshot then
  current, lead back to a served solo standalone: no state of the machine is a trap.
\<close>
lemma solo_always_reachable:
  "\<exists>ks d. length ks \<le> 4 \<and> drive c ks = Some d \<and> cs_state d = SoloStandaloneReady \<and>
     cs_local_ready d \<and> cs_target d = LocalStandalone \<and> cs_role d = cs_role c"
proof -
  have "length (back_to_solo (cs_state c)) \<le> 4"
    by (cases "cs_state c") simp_all
  moreover have "\<exists>d. drive c (back_to_solo (cs_state c)) = Some d \<and>
     cs_state d = SoloStandaloneReady \<and> cs_local_ready d \<and> cs_target d = LocalStandalone \<and>
     cs_role d = cs_role c"
    by (cases "cs_state c"; cases "cs_role c")
      (simp_all add: transition_issue snapshot_new_def resolve_target_def)
  ultimately show ?thesis by blast
qed

text \<open>
  Requests are sent to the local standalone only while it is known to be ready, provided
  operator reconcile and elapsed back-off are applied only with a ready local standalone.
\<close>
lemma local_target_is_ready:
  assumes "reaches (\<lambda>c e. blind_republish c e \<longrightarrow> cs_local_ready c) transition (booting_at r g) c"
    and "cs_target c = LocalStandalone"
  shows "cs_local_ready c"
proof -
  have "serves_when_ready (booting_at r g)"
    by (simp add: serves_when_ready_def booting_at_def snapshot_new_def resolve_target_def)
  from lrm.reaches_inv [OF assms(1) this] assms(2) show ?thesis
    by (simp add: serves_when_ready_def)
qed

text \<open>
  Without that proviso the published target can be wrong: a node that starts in manual
  intervention with no child running is published as a ready local standalone by an operator
  reconcile.
\<close>
lemma manual_reconcile_publishes_unready_local:
  "\<exists>d. drive (booting_at role g) [RequireManualIntervention, OperatorReconcile] = Some d \<and>
     cs_state d = SoloStandaloneReady \<and> \<not> cs_local_ready d \<and>
     (cs_target d = LocalStandalone \<longleftrightarrow> role \<noteq> Unknown)"
  by (cases role) (simp_all add: transition_issue booting_at_def snapshot_new_def resolve_target_def)

text \<open>
  Promotion retries are bounded: after the same eligible failure was recorded at times
  \<open>nows\<close>, another attempt is allowed at \<open>now\<close> exactly when fewer than
  \<open>maximum\<close> failures were recorded and the back-off after the last one has elapsed;
  from the maximum on, the tracker refuses every retry.
\<close>
lemma promotion_retries_bounded:
  assumes "tracker_new False backoff maximum = Inr t"
    and "failure_action f = FaPromotionBackoff" and "nows \<noteq> []"
  shows "\<exists>t'. record_seq t f nows = Inr t' \<and>
    (\<forall>now. can_retry t' now \<longleftrightarrow>
       length nows < unat maximum \<and> sat_add (last nows) (duration_millis backoff) \<le> now)"
proof -
  from assms(1) have t: "pt_maximum t = maximum" "pt_backoff_millis t = backoff" "pt_status t = pf_clear"
    by (auto simp: tracker_new_def split: if_splits)
  have "unat maximum \<le> 2 ^ 32 - 1" using unat_bound [of maximum] by simp
  then have "min (length nows) (2 ^ 32 - 1) < unat maximum \<longleftrightarrow> length nows < unat maximum"
    by linarith
  with record_seq_eligible [OF assms(2,3), of t] t show ?thesis by (simp add: pf_clear_def)
qed

end
