(* ===== verification/Admission_Gate.thy ===== *)
theory Admission_Gate
  imports Sds_Prelude
begin

text \<open>
  The admission gate of \<open>src/admission.rs\<close>. Every method takes the one mutex, so a
  method is one atomic step on \<open>Inner\<close>; the two asynchronous methods
  (\<open>wait_for_zero\<close>, \<open>drain\<close>) release the mutex while they wait, and other
  steps interleave there. Permits are owned values: a permit is dropped once, by its
  holder, so the system state counts the permits that exist.
\<close>

section \<open>State and errors\<close>

datatype admission_state = Serving | Draining | Blocked

datatype admission_error = NotServing | UpstreamNotReady | AtCapacity

datatype drain_error = Timeout | GenerationChanged

record gate =
  ag_state :: admission_state
  ag_closed :: bool
  ag_in_flight :: nat
  ag_max_in_flight :: nat
  ag_drain_generation :: "u64 option"

section \<open>Operations\<close>

text \<open>\<open>AdmissionGate::new\<close> panics on a zero limit: \<open>None\<close>.\<close>

definition gate_new :: "nat \<Rightarrow> gate option" where
  "gate_new limit =
     (if limit = 0 then None
      else Some \<lparr>ag_state = Blocked, ag_closed = False, ag_in_flight = 0,
                 ag_max_in_flight = limit, ag_drain_generation = None\<rparr>)"

definition start_serving :: "gate \<Rightarrow> gate" where
  "start_serving g =
     (if ag_closed g then g else g\<lparr>ag_state := Serving, ag_drain_generation := None\<rparr>)"

definition block :: "gate \<Rightarrow> gate" where
  "block g = g\<lparr>ag_state := Blocked\<rparr>"

definition close :: "gate \<Rightarrow> gate" where
  "close g = g\<lparr>ag_closed := True, ag_state := Blocked\<rparr>"

definition reset_blocked_generation :: "gate \<Rightarrow> gate" where
  "reset_blocked_generation g = g\<lparr>ag_drain_generation := None\<rparr>"

definition acquire_permit :: "gate \<Rightarrow> bool \<Rightarrow> admission_error + gate" where
  "acquire_permit g upstream_ready =
     (if ag_closed g then Inl NotServing
      else if \<not> upstream_ready then Inl UpstreamNotReady
      else if ag_max_in_flight g \<le> ag_in_flight g then Inl AtCapacity
      else Inr (g\<lparr>ag_in_flight := ag_in_flight g + 1\<rparr>))"

definition try_acquire_permit :: "gate \<Rightarrow> bool \<Rightarrow> admission_error + gate" where
  "try_acquire_permit g upstream_ready =
     (if ag_state g \<noteq> Serving then Inl NotServing else acquire_permit g upstream_ready)"

definition try_acquire_recovery :: "gate \<Rightarrow> bool \<Rightarrow> admission_error + gate" where
  "try_acquire_recovery g upstream_ready = acquire_permit g upstream_ready"

definition begin_drain :: "gate \<Rightarrow> u64 \<Rightarrow> drain_error + gate" where
  "begin_drain g generation =
     (if is_some_and (\<lambda>active. active \<noteq> generation) (ag_drain_generation g)
      then Inl GenerationChanged
      else Inr (g\<lparr>ag_state := Draining, ag_drain_generation := Some generation\<rparr>))"

definition accepts_drained_ack :: "gate \<Rightarrow> u64 \<Rightarrow> bool" where
  "accepts_drained_ack g generation \<longleftrightarrow>
     ag_state g = Draining \<and> ag_drain_generation g = Some generation"

text \<open>The second critical section of \<open>drain\<close>.\<close>

definition finish_drain :: "gate \<Rightarrow> u64 \<Rightarrow> drain_error + gate" where
  "finish_drain g generation =
     (if ag_drain_generation g \<noteq> Some generation then Inl GenerationChanged
      else Inr (g\<lparr>ag_state := Blocked\<rparr>))"

text \<open>\<open>AdmissionPermit::drop\<close>; whether the waiters are notified.\<close>

definition drop_permit :: "gate \<Rightarrow> gate \<times> bool" where
  "drop_permit g =
     (let n = ag_in_flight g - 1 in (g\<lparr>ag_in_flight := n\<rparr>, n = 0))"

section \<open>Interleaved steps\<close>

datatype gate_op =
  StartServing | BlockGate | CloseGate | ResetGeneration
| TryAcquire bool | TryAcquireRecovery bool
| BeginDrain u64 | FinishDrain u64 | DropPermit

record gate_sys =
  the_gate :: gate
  held :: nat

datatype gate_error = AdmissionFailed admission_error | DrainFailed drain_error

definition on_gate :: "gate_sys \<Rightarrow> (gate \<Rightarrow> gate) \<Rightarrow> gate_error + gate_sys" where
  "on_gate s f = Inr (s\<lparr>the_gate := f (the_gate s)\<rparr>)"

definition granted :: "gate_sys \<Rightarrow> admission_error + gate \<Rightarrow> gate_error + gate_sys" where
  "granted s r = (case r of Inl e \<Rightarrow> Inl (AdmissionFailed e)
     | Inr g \<Rightarrow> Inr (s\<lparr>the_gate := g, held := held s + 1\<rparr>))"

definition drained :: "gate_sys \<Rightarrow> drain_error + gate \<Rightarrow> gate_error + gate_sys" where
  "drained s r = (case r of Inl e \<Rightarrow> Inl (DrainFailed e) | Inr g \<Rightarrow> Inr (s\<lparr>the_gate := g\<rparr>))"

fun gate_step :: "gate_sys \<Rightarrow> gate_op \<Rightarrow> gate_error + gate_sys" where
  "gate_step s StartServing = on_gate s start_serving"
| "gate_step s BlockGate = on_gate s block"
| "gate_step s CloseGate = on_gate s close"
| "gate_step s ResetGeneration = on_gate s reset_blocked_generation"
| "gate_step s (TryAcquire up) = granted s (try_acquire_permit (the_gate s) up)"
| "gate_step s (TryAcquireRecovery up) = granted s (try_acquire_recovery (the_gate s) up)"
| "gate_step s (BeginDrain n) = drained s (begin_drain (the_gate s) n)"
| "gate_step s (FinishDrain n) = drained s (finish_drain (the_gate s) n)"
| "gate_step s DropPermit =
     Inr (s\<lparr>the_gate := fst (drop_permit (the_gate s)), held := held s - 1\<rparr>)"

text \<open>A permit can be dropped only while one is held.\<close>

definition permitted :: "gate_sys \<Rightarrow> gate_op \<Rightarrow> bool" where
  "permitted s op \<longleftrightarrow> (op = DropPermit \<longrightarrow> 0 < held s)"

abbreviation gate_run :: "gate_sys \<Rightarrow> gate_op list \<Rightarrow> gate_sys" where
  "gate_run \<equiv> foldl (keep_on_error gate_step)"

text \<open>
  \<open>drain\<close>: \<open>waiting\<close> are the steps of other tasks until the wait ends, either
  because the count was observed to be zero or because the timeout fired, and
  \<open>between\<close> the steps that slip in before the mutex is taken again. An error leaves
  the gate as it is at that point.
\<close>

definition drain :: "gate_sys \<Rightarrow> u64 \<Rightarrow> gate_op list \<Rightarrow> gate_op list \<Rightarrow> drain_error option \<times> gate_sys" where
  "drain s generation waiting between =
     (case begin_drain (the_gate s) generation of
        Inl e \<Rightarrow> (Some e, s)
      | Inr g \<Rightarrow>
          let s1 = gate_run (s\<lparr>the_gate := g\<rparr>) waiting
          in if ag_in_flight (the_gate s1) \<noteq> 0 then (Some Timeout, s1)
             else
               let s2 = gate_run s1 between
               in case finish_drain (the_gate s2) generation of
                    Inl e \<Rightarrow> (Some e, s2)
                  | Inr g2 \<Rightarrow> (None, s2\<lparr>the_gate := g2\<rparr>))"

section \<open>Invariants\<close>

definition gate_inv :: "gate_sys \<Rightarrow> bool" where
  "gate_inv s \<longleftrightarrow>
     held s = ag_in_flight (the_gate s) \<and>
     ag_in_flight (the_gate s) \<le> ag_max_in_flight (the_gate s) \<and>
     (ag_closed (the_gate s) \<longrightarrow> ag_state (the_gate s) \<noteq> Serving)"

text \<open>Steps that cannot open the gate while a drain is under way.\<close>

fun quiet :: "gate_op \<Rightarrow> bool" where
  "quiet StartServing = False"
| "quiet (TryAcquireRecovery up) = False"
| "quiet _ = True"

lemmas gate_defs = on_gate_def granted_def drained_def start_serving_def block_def close_def
  reset_blocked_generation_def acquire_permit_def try_acquire_permit_def try_acquire_recovery_def
  begin_drain_def finish_drain_def drop_permit_def keep_on_error_def

lemma gate_step_inv:
  assumes "gate_inv s" "permitted s op" "gate_step s op = Inr t"
  shows "gate_inv t"
  using assms
  by (cases op) (auto simp: gate_inv_def permitted_def gate_defs split: if_splits)

interpretation gm: fallible_machine permitted gate_step gate_inv
  by unfold_locales (rule gate_step_inv)

lemma gate_step_limit: "gate_step s op = Inr t \<Longrightarrow> ag_max_in_flight (the_gate t) = ag_max_in_flight (the_gate s)"
  by (cases op) (auto simp: gate_defs split: if_splits)

lemma reaches_limit: "reaches ok gate_step s t \<Longrightarrow> ag_max_in_flight (the_gate t) = ag_max_in_flight (the_gate s)"
  by (induction rule: reaches.induct) (auto dest: gate_step_limit)

lemma quiet_step:
  assumes "quiet op" "ag_state (the_gate s) \<noteq> Serving"
  shows "ag_state (the_gate (keep_on_error gate_step s op)) \<noteq> Serving \<and>
    ag_in_flight (the_gate (keep_on_error gate_step s op)) \<le> ag_in_flight (the_gate s)"
  using assms by (cases op) (auto simp: gate_defs split: if_splits sum.splits)

lemma quiet_run:
  "list_all quiet ops \<Longrightarrow> ag_state (the_gate s) \<noteq> Serving \<Longrightarrow>
   ag_state (the_gate (gate_run s ops)) \<noteq> Serving \<and>
   ag_in_flight (the_gate (gate_run s ops)) \<le> ag_in_flight (the_gate s)"
proof (induction ops arbitrary: s)
  case (Cons op ops)
  let ?t = "keep_on_error gate_step s op"
  from Cons.prems quiet_step [of op s]
  have "ag_state (the_gate ?t) \<noteq> Serving" "ag_in_flight (the_gate ?t) \<le> ag_in_flight (the_gate s)"
    by simp_all
  with Cons.IH [of ?t] Cons.prems(1) show ?case by fastforce
qed simp

lemma closed_step:
  assumes "ag_closed (the_gate s)"
  shows "ag_closed (the_gate (keep_on_error gate_step s op)) \<and>
    held (keep_on_error gate_step s op) \<le> held s"
  using assms by (cases op) (auto simp: gate_defs split: if_splits sum.splits)

lemma closed_run:
  "ag_closed (the_gate s) \<Longrightarrow>
   ag_closed (the_gate (gate_run s ops)) \<and> held (gate_run s ops) \<le> held s"
proof (induction ops arbitrary: s)
  case (Cons op ops)
  from closed_step [OF Cons.prems, of op] Cons.IH [of "keep_on_error gate_step s op"]
  show ?case by fastforce
qed simp

section \<open>Properties\<close>

text \<open>
  Whatever the interleaving of acquisitions, drops, drains and state changes, the gate
  counts exactly the permits that exist, never more than the configured limit, and a closed
  gate never serves.
\<close>
lemma admission_count_exact:
  assumes "gate_new limit = Some g"
    and "reaches permitted gate_step \<lparr>the_gate = g, held = 0\<rparr> s"
  shows "ag_in_flight (the_gate s) = held s \<and> held s \<le> limit \<and>
    (ag_closed (the_gate s) \<longrightarrow> ag_state (the_gate s) \<noteq> Serving)"
proof -
  from assms(1) have "gate_inv \<lparr>the_gate = g, held = 0\<rparr>" "ag_max_in_flight g = limit"
    by (auto simp: gate_new_def gate_inv_def split: if_splits)
  with gm.reaches_inv [OF assms(2)] reaches_limit [OF assms(2)] show ?thesis
    by (simp add: gate_inv_def)
qed



text \<open>
  A drain completes once its requests have finished: with no other drain under way,
  dropping the permits in flight ends it successfully with the gate blocked.
\<close>
lemma drain_completes:
  assumes "ag_drain_generation (the_gate s) \<in> {None, Some generation}"
    and "ag_in_flight (the_gate s) = n"
  shows "\<exists>t. drain s generation (replicate n DropPermit) [] = (None, t) \<and>
    ag_state (the_gate t) = Blocked \<and> ag_in_flight (the_gate t) = 0"
proof -
  have drops: "the_gate (gate_run s (replicate m DropPermit)) =
      (the_gate s)\<lparr>ag_in_flight := ag_in_flight (the_gate s) - m\<rparr>" for m :: nat and s
    by (induction m arbitrary: s) (simp_all add: keep_on_error_def drop_permit_def Let_def)
  let ?g = "(the_gate s)\<lparr>ag_state := Draining, ag_drain_generation := Some generation\<rparr>"
  from assms(1) have "begin_drain (the_gate s) generation = Inr ?g"
    by (auto simp: begin_drain_def)
  with assms(2) drops [of "s\<lparr>the_gate := ?g\<rparr>" n] show ?thesis
    by (simp add: drain_def finish_drain_def Let_def)
qed

text \<open>
  Closing is permanent: after \<open>close\<close>, no sequence of steps makes the gate grant
  another permit, neither a public one nor the recovery slot.
\<close>
lemma closed_gate_admits_nothing:
  "let t = gate_run (s\<lparr>the_gate := close (the_gate s)\<rparr>) ops
   in held t \<le> held s \<and> try_acquire_permit (the_gate t) up = Inl NotServing \<and>
      try_acquire_recovery (the_gate t) up = Inl NotServing"
  using closed_run [of "s\<lparr>the_gate := close (the_gate s)\<rparr>" ops]
  by (simp add: Let_def close_def try_acquire_permit_def try_acquire_recovery_def acquire_permit_def)

end
