(* ===== verification/Runtime_World.thy ===== *)
theory Runtime_World
  imports Cluster_State Admission_Gate
begin

text \<open>
  What the runtimes of a node act on: the cluster state machine, the proxy's target and its
  admission gate, the record of promotion failures, and the calls to the child processes and
  to the peer. The lifecycles (\<open>LocalStandaloneLifecycle\<close>,
  \<open>DistributedCoordinatorLifecycle\<close>, \<open>CoordinatorPeerLifecycle\<close>,
  \<open>DistributedWorkerLifecycle\<close>) and the lease are trait objects: their answers are the
  fields of an \<open>environment\<close>, an argument of every operation, and the calls are logged
  with their answers in the order they are made. An operation makes each call at most once.
  It runs from its start to its result; other tasks act on the gate while it drains
  (\<open>env_waiting\<close>, \<open>env_between\<close>), and the cluster is changed by one operation at a
  time, under the operation lease.
\<close>

section \<open>World, environment and log\<close>

datatype start_outcome = Started | StartFailed | StartTimeout

datatype lifecycle_call =
  StandaloneStart u64 bool
| StandaloneStop bool
| CoordinatorStart u64 start_outcome
| CoordinatorWaitReady start_outcome
| CoordinatorStop bool
| WorkerStart u64 start_outcome
| WorkerStop bool
| PeerBeginDrain u64 bool
| PeerStopWorker u64 bool

record environment =
  env_waiting :: "gate_op list"
  env_between :: "gate_op list"
  env_lease_valid :: "nat \<Rightarrow> bool"
  env_standalone_start :: bool
  env_standalone_stop :: bool
  env_standalone_running :: "bool option"
  env_coordinator_start :: start_outcome
  env_coordinator_ready :: start_outcome
  env_coordinator_stop :: bool
  env_worker_start :: start_outcome
  env_worker_running :: "bool option"
  env_worker_stop :: bool
  env_peer_drain :: bool
  env_peer_stop_worker :: bool

record world =
  rw_cluster :: cluster_snapshot
  rw_gate :: gate_sys
  rw_target :: proxy_target
  rw_target_ready :: bool
  rw_failures :: promotion_failure_tracker
  rw_log :: "lifecycle_call list"

section \<open>Actions\<close>

text \<open>An action with the error type of its runtime; it may fail after it has changed the
  state. Most actions act on the world of one node.\<close>

type_synonym ('s, 'e, 'a) sact = "'s \<Rightarrow> ('e + 'a) \<times> 's"

type_synonym ('e, 'a) act = "(world, 'e, 'a) sact"

definition return_act :: "'a \<Rightarrow> ('s, 'e, 'a) sact" where
  "return_act a w = (Inr a, w)"

definition fail_act :: "'e \<Rightarrow> ('s, 'e, 'a) sact" where
  "fail_act e w = (Inl e, w)"

text \<open>The question mark operator: an error ends the operation.\<close>

definition seq :: "('s, 'e, 'a) sact \<Rightarrow> ('a \<Rightarrow> ('s, 'e, 'b) sact) \<Rightarrow> ('s, 'e, 'b) sact" where
  "seq m f w = (case m w of (Inl e, w') \<Rightarrow> (Inl e, w') | (Inr a, w') \<Rightarrow> f a w')"

text \<open>A match on the result of an action.\<close>

definition on_result ::
  "('s, 'e, 'a) sact \<Rightarrow> ('a \<Rightarrow> ('s, 'f, 'b) sact) \<Rightarrow> ('e \<Rightarrow> ('s, 'f, 'b) sact) \<Rightarrow> ('s, 'f, 'b) sact" where
  "on_result m ok err w = (case m w of (Inl e, w') \<Rightarrow> err e w' | (Inr a, w') \<Rightarrow> ok a w')"

definition modify_act :: "('s \<Rightarrow> 's) \<Rightarrow> ('s, 'e, unit) sact" where
  "modify_act f w = (Inr (), f w)"

definition get_snapshot :: "('e, cluster_snapshot) act" where
  "get_snapshot w = (Inr (rw_cluster w), w)"

text \<open>\<open>ClusterHandle::apply\<close>, with the conversion of its error.\<close>

definition apply_event :: "(transition_error \<Rightarrow> 'e) \<Rightarrow> u64 \<Rightarrow> cluster_event_kind \<Rightarrow> ('e, cluster_snapshot) act" where
  "apply_event wrap gen k w =
     (case transition (rw_cluster w) (event_new gen k) of
        Inl e \<Rightarrow> (Inl (wrap e), w)
      | Inr c \<Rightarrow> (Inr c, w\<lparr>rw_cluster := c\<rparr>))"

definition set_target :: "proxy_target \<Rightarrow> bool \<Rightarrow> ('e, unit) act" where
  "set_target t ready = modify_act (\<lambda>w. w\<lparr>rw_target := t, rw_target_ready := ready\<rparr>)"

definition change_gate :: "(gate \<Rightarrow> gate) \<Rightarrow> ('e, unit) act" where
  "change_gate f = modify_act (\<lambda>w. w\<lparr>rw_gate := (rw_gate w)\<lparr>the_gate := f (the_gate (rw_gate w))\<rparr>\<rparr>)"

definition run_drain :: "environment \<Rightarrow> u64 \<Rightarrow> ('e, drain_error option) act" where
  "run_drain env gen w =
     (case drain (rw_gate w) gen (env_waiting env) (env_between env) of
        (r, g) \<Rightarrow> (Inr r, w\<lparr>rw_gate := g\<rparr>))"

definition log_call :: "lifecycle_call \<Rightarrow> ('e, unit) act" where
  "log_call c = modify_act (\<lambda>w. w\<lparr>rw_log := rw_log w @ [c]\<rparr>)"

definition require_ok :: "bool \<Rightarrow> 'e \<Rightarrow> ('s, 'e, unit) sact" where
  "require_ok ok e = (if ok then return_act () else fail_act e)"

text \<open>A call whose failure ends the operation with \<open>e\<close>; a call under a timeout.\<close>

definition call :: "lifecycle_call \<Rightarrow> bool \<Rightarrow> 'e \<Rightarrow> ('e, unit) act" where
  "call c ok e = seq (log_call c) (\<lambda>_. require_ok ok e)"

definition timed_call :: "lifecycle_call \<Rightarrow> start_outcome \<Rightarrow> 'e \<Rightarrow> 'e \<Rightarrow> ('e, unit) act" where
  "timed_call c r failed elapsed =
     seq (log_call c) (\<lambda>_. case r of
        Started \<Rightarrow> return_act () | StartFailed \<Rightarrow> fail_act failed | StartTimeout \<Rightarrow> fail_act elapsed)"

definition require_drained :: "(drain_error \<Rightarrow> 'e) \<Rightarrow> drain_error option \<Rightarrow> ('e, unit) act" where
  "require_drained wrap r = (case r of None \<Rightarrow> return_act () | Some e \<Rightarrow> fail_act (wrap e))"

definition available :: "proxy_target \<Rightarrow> bool" where
  "available t = (case t of Unavailable _ \<Rightarrow> False | _ \<Rightarrow> True)"

text \<open>\<open>CoordinatorDistributedRuntime::block_transition\<close>, and the same two steps in
  \<open>ModeRuntime\<close> and in the peer-loss recovery.\<close>

definition block_transition :: "('e, unit) act" where
  "block_transition = seq (change_gate block) (\<lambda>_. set_target (Unavailable Transition) False)"

text \<open>The end of an operation: publish the target of the new snapshot and, unless the caller
  keeps the gate, serve.\<close>

definition serve_snapshot :: "bool \<Rightarrow> bool \<Rightarrow> cluster_snapshot \<Rightarrow> ('e, cluster_snapshot) act" where
  "serve_snapshot ready resume_admission c =
     seq (set_target (cs_target c) ready) (\<lambda>_.
     seq (if resume_admission then change_gate start_serving else return_act ()) (\<lambda>_.
     return_act c))"

section \<open>Weakest preconditions\<close>

definition wp :: "('s, 'e, 'a) sact \<Rightarrow> ('a \<Rightarrow> 's \<Rightarrow> bool) \<Rightarrow> ('e \<Rightarrow> 's \<Rightarrow> bool) \<Rightarrow> 's \<Rightarrow> bool" where
  "wp m Q E w = (case m w of (Inr a, w') \<Rightarrow> Q a w' | (Inl e, w') \<Rightarrow> E e w')"

named_theorems wp_rules \<open>one rule per control structure\<close>
named_theorems wp_eqs \<open>the exact precondition of an action\<close>

lemma wp_return [wp_eqs]: "wp (return_act a) Q E w = Q a w"
  by (simp add: wp_def return_act_def)

lemma wp_fail [wp_eqs]: "wp (fail_act e) Q E w = E e w"
  by (simp add: wp_def fail_act_def)

lemma wp_seq [wp_eqs]: "wp (seq m f) Q E w = wp m (\<lambda>a. wp (f a) Q E) E w"
  by (simp add: wp_def seq_def split: prod.splits sum.splits)

lemma wp_on_result [wp_eqs]:
  "wp (on_result m ok err) Q E w = wp m (\<lambda>a. wp (ok a) Q E) (\<lambda>e. wp (err e) Q E) w"
  by (simp add: wp_def on_result_def split: prod.splits sum.splits)

lemma wp_snapshot [wp_eqs]: "wp get_snapshot Q E w = Q (rw_cluster w) w"
  by (simp add: wp_def get_snapshot_def)

lemma wp_apply_event [wp_eqs]:
  "wp (apply_event wrap gen k) Q E w =
     (case transition (rw_cluster w) (event_new gen k) of
        Inl e \<Rightarrow> E (wrap e) w | Inr c \<Rightarrow> Q c (w\<lparr>rw_cluster := c\<rparr>))"
  by (simp add: wp_def apply_event_def split: sum.splits)

lemma wp_set_target [wp_eqs]:
  "wp (set_target t r) Q E w = Q () (w\<lparr>rw_target := t, rw_target_ready := r\<rparr>)"
  by (simp add: wp_def set_target_def modify_act_def)

lemma wp_change_gate [wp_eqs]:
  "wp (change_gate f) Q E w = Q () (w\<lparr>rw_gate := (rw_gate w)\<lparr>the_gate := f (the_gate (rw_gate w))\<rparr>\<rparr>)"
  by (simp add: wp_def change_gate_def modify_act_def)

lemma wp_run_drain [wp_eqs]:
  "wp (run_drain env gen) Q E w =
     (let d = drain (rw_gate w) gen (env_waiting env) (env_between env) in Q (fst d) (w\<lparr>rw_gate := snd d\<rparr>))"
  by (simp add: wp_def run_drain_def split: prod.splits)

lemma wp_log_call [wp_eqs]: "wp (log_call c) Q E w = Q () (w\<lparr>rw_log := rw_log w @ [c]\<rparr>)"
  by (simp add: wp_def log_call_def modify_act_def)

lemma wp_modify [wp_eqs]: "wp (modify_act f) Q E w = Q () (f w)"
  by (simp add: wp_def modify_act_def)

lemma wp_require_ok [wp_eqs]: "wp (require_ok ok e) Q E w = (if ok then Q () w else E e w)"
  by (simp add: require_ok_def wp_eqs)

lemma wp_call [wp_eqs]:
  "wp (call c ok e) Q E w =
     (let v = w\<lparr>rw_log := rw_log w @ [c]\<rparr> in if ok then Q () v else E e v)"
  by (simp add: call_def wp_eqs Let_def)

lemma wp_timed_call [wp_eqs]:
  "wp (timed_call c r failed elapsed) Q E w =
     (let v = w\<lparr>rw_log := rw_log w @ [c]\<rparr> in
      case r of Started \<Rightarrow> Q () v | StartFailed \<Rightarrow> E failed v | StartTimeout \<Rightarrow> E elapsed v)"
  by (simp add: timed_call_def wp_eqs Let_def split: start_outcome.splits)

lemma wp_require_drained [wp_eqs]:
  "wp (require_drained wrap r) Q E w = (case r of None \<Rightarrow> Q () w | Some e \<Rightarrow> E (wrap e) w)"
  by (simp add: require_drained_def wp_eqs split: option.splits)

lemma wp_mono:
  "wp m Q E w \<Longrightarrow> (\<And>a v. Q a v \<Longrightarrow> Q' a v) \<Longrightarrow> (\<And>e v. E e v \<Longrightarrow> E' e v) \<Longrightarrow> wp m Q' E' w"
  by (auto simp: wp_def split: prod.splits sum.splits)

lemma wp_conj:
  "wp m Q E w \<Longrightarrow> wp m Q' E' w \<Longrightarrow> wp m (\<lambda>a v. Q a v \<and> Q' a v) (\<lambda>e v. E e v \<and> E' e v) w"
  by (simp add: wp_def split: prod.splits sum.splits)

lemma wp_result: "wp m (\<lambda>_. P) (\<lambda>_. P) w = P (snd (m w))"
  by (simp add: wp_def split: prod.splits sum.splits)

lemma wp_seqI [wp_rules]: "wp m (\<lambda>a. wp (f a) Q E) E w \<Longrightarrow> wp (seq m f) Q E w"
  by (simp add: wp_seq)

lemma wp_onI [wp_rules]: "wp m (\<lambda>a. wp (ok a) Q E) (\<lambda>e. wp (err e) Q E) w \<Longrightarrow> wp (on_result m ok err) Q E w"
  by (simp add: wp_on_result)

lemma wp_returnI [wp_rules]: "Q a w \<Longrightarrow> wp (return_act a) Q E w"
  by (simp add: wp_return)

lemma wp_failI [wp_rules]: "E e w \<Longrightarrow> wp (fail_act e) Q E w"
  by (simp add: wp_fail)

lemma wp_ifI [wp_rules]:
  "(b \<Longrightarrow> wp m Q E w) \<Longrightarrow> (\<not> b \<Longrightarrow> wp n Q E w) \<Longrightarrow> wp (if b then m else n) Q E w"
  by simp

lemma wp_snapshotI [wp_rules]: "Q (rw_cluster w) w \<Longrightarrow> wp get_snapshot Q E w"
  by (simp add: wp_snapshot)

lemma wp_requireI [wp_rules]: "Q () w \<Longrightarrow> E e w \<Longrightarrow> wp (require_ok ok e) Q E w"
  by (simp add: wp_require_ok)

lemma wp_drainedI [wp_rules]: "Q () w \<Longrightarrow> (\<And>e. E e w) \<Longrightarrow> wp (require_drained wrap r) Q E w"
  by (simp add: wp_require_drained split: option.split)

section \<open>Publication\<close>

text \<open>
  The gate serves only the target the cluster has published; in a node whose role is known
  that target is reachable; and a gate that serves has no drain under way. While an operation
  changes the cluster the gate is closed, or still serves the previous target.
\<close>

definition serving :: "world \<Rightarrow> bool" where
  "serving w \<longleftrightarrow> ag_state (the_gate (rw_gate w)) = Serving"

definition undrained :: "world \<Rightarrow> bool" where
  "undrained w \<longleftrightarrow> coherent (rw_cluster w)
     \<and> (serving w \<longrightarrow> ag_drain_generation (the_gate (rw_gate w)) = None)"

definition shut :: "world \<Rightarrow> bool" where
  "shut w \<longleftrightarrow> coherent (rw_cluster w) \<and> \<not> serving w"

definition published :: "world \<Rightarrow> bool" where
  "published w \<longleftrightarrow> undrained w
     \<and> (serving w \<longrightarrow> rw_target w = cs_target (rw_cluster w)
          \<and> (cs_role (rw_cluster w) \<noteq> Unknown \<longrightarrow> available (rw_target w)))"

text \<open>The tasks that act while a drain waits do not start the gate.\<close>

definition calm :: "environment \<Rightarrow> bool" where
  "calm env \<longleftrightarrow> StartServing \<notin> set (env_waiting env) \<and> StartServing \<notin> set (env_between env)"

named_theorems shut_rules \<open>actions of an operation on a gate that is shut\<close>

lemma published_undrained: "published w \<Longrightarrow> undrained w"
  by (simp add: published_def)

lemma shut_undrained: "shut w \<Longrightarrow> undrained w"
  by (simp add: shut_def undrained_def)

lemma shut_published: "shut w \<Longrightarrow> published w"
  by (simp add: shut_def published_def undrained_def)

lemma transition_coherent: "transition c e = Inr n \<Longrightarrow> coherent c \<Longrightarrow> coherent n"
  by (erule cm.step_inv [OF _ TrueI])

lemma apply_undrained:
  assumes "undrained w"
    and "\<And>c v. undrained v \<Longrightarrow> rw_cluster v = c \<Longrightarrow>
      transition (rw_cluster w) (event_new gen k) = Inr c \<Longrightarrow> Q c v"
    and "\<And>e. E e w"
  shows "wp (apply_event wrap gen k) Q E w"
proof (cases "transition (rw_cluster w) (event_new gen k)")
  case (Inl e)
  with assms(3) show ?thesis by (simp add: wp_apply_event)
next
  case (Inr c)
  with assms(1) have "undrained (w\<lparr>rw_cluster := c\<rparr>)"
    using transition_coherent [OF Inr] by (simp add: undrained_def serving_def)
  with assms(2) [of "w\<lparr>rw_cluster := c\<rparr>" c] Inr show ?thesis by (simp add: wp_apply_event)
qed

lemma apply_shut [shut_rules]:
  assumes "shut w"
    and "\<And>c v. shut v \<Longrightarrow> rw_cluster v = c \<Longrightarrow>
      transition (rw_cluster w) (event_new gen k) = Inr c \<Longrightarrow> Q c v"
    and "\<And>e. E e w"
  shows "wp (apply_event wrap gen k) Q E w"
proof (cases "transition (rw_cluster w) (event_new gen k)")
  case (Inl e)
  with assms(3) show ?thesis by (simp add: wp_apply_event)
next
  case (Inr c)
  with assms(1) have "shut (w\<lparr>rw_cluster := c\<rparr>)"
    using transition_coherent [OF Inr] by (simp add: shut_def serving_def)
  with assms(2) [of "w\<lparr>rw_cluster := c\<rparr>" c] Inr show ?thesis by (simp add: wp_apply_event)
qed

lemma block_shuts:
  "undrained w \<Longrightarrow> (\<And>v. shut v \<Longrightarrow> rw_cluster v = rw_cluster w \<Longrightarrow> Q () v) \<Longrightarrow>
   wp (change_gate block) Q E w"
  by (simp add: wp_change_gate undrained_def shut_def serving_def block_def)

lemma block_transition_shuts:
  "undrained w \<Longrightarrow> (\<And>v. shut v \<Longrightarrow> rw_cluster v = rw_cluster w \<Longrightarrow> Q () v) \<Longrightarrow>
   wp block_transition Q E w"
  by (simp add: block_transition_def wp_eqs undrained_def shut_def serving_def block_def)

lemma set_target_shut [shut_rules]:
  "shut w \<Longrightarrow> (\<And>v. shut v \<Longrightarrow> rw_cluster v = rw_cluster w \<Longrightarrow> Q () v) \<Longrightarrow> wp (set_target t r) Q E w"
  by (simp add: wp_set_target shut_def serving_def)

lemma reset_shut [shut_rules]:
  "shut w \<Longrightarrow> (\<And>v. shut v \<Longrightarrow> rw_cluster v = rw_cluster w \<Longrightarrow> Q () v) \<Longrightarrow>
   wp (change_gate reset_blocked_generation) Q E w"
  by (simp add: wp_change_gate shut_def serving_def reset_blocked_generation_def)

lemma call_shut [shut_rules]:
  "shut w \<Longrightarrow> (\<And>v. shut v \<Longrightarrow> rw_cluster v = rw_cluster w \<Longrightarrow> Q () v) \<Longrightarrow>
   (\<And>v. shut v \<Longrightarrow> rw_cluster v = rw_cluster w \<Longrightarrow> E e v) \<Longrightarrow> wp (call c ok e) Q E w"
  by (simp add: wp_call Let_def shut_def serving_def)

lemma timed_call_shut [shut_rules]:
  "shut w \<Longrightarrow> (\<And>v. shut v \<Longrightarrow> rw_cluster v = rw_cluster w \<Longrightarrow> Q () v) \<Longrightarrow>
   (\<And>v. shut v \<Longrightarrow> rw_cluster v = rw_cluster w \<Longrightarrow> E failed v) \<Longrightarrow>
   (\<And>v. shut v \<Longrightarrow> rw_cluster v = rw_cluster w \<Longrightarrow> E elapsed v) \<Longrightarrow>
   wp (timed_call c r failed elapsed) Q E w"
  by (simp add: wp_timed_call Let_def shut_def serving_def split: start_outcome.split)

lemma log_shut [shut_rules]:
  "shut w \<Longrightarrow> (\<And>v. shut v \<Longrightarrow> rw_cluster v = rw_cluster w \<Longrightarrow> Q () v) \<Longrightarrow> wp (log_call c) Q E w"
  by (simp add: wp_log_call shut_def serving_def)

text \<open>A drain never leaves the gate serving.\<close>

lemma keep_closed_step:
  "op \<noteq> StartServing \<Longrightarrow> ag_state (the_gate s) \<noteq> Serving \<Longrightarrow>
   ag_state (the_gate (keep_on_error gate_step s op)) \<noteq> Serving"
  by (cases op) (auto simp: gate_defs split: if_splits sum.splits)

lemma keep_closed_run:
  "StartServing \<notin> set ops \<Longrightarrow> ag_state (the_gate s) \<noteq> Serving \<Longrightarrow>
   ag_state (the_gate (gate_run s ops)) \<noteq> Serving"
proof (induction ops arbitrary: s)
  case (Cons op ops)
  then have "op \<noteq> StartServing" "StartServing \<notin> set ops" by auto
  with Cons keep_closed_step show ?case by simp
qed simp

lemma drain_not_serving:
  assumes "calm env" "ag_state (the_gate s) = Serving \<longrightarrow> ag_drain_generation (the_gate s) = None"
  shows "ag_state (the_gate (snd (drain s gen (env_waiting env) (env_between env)))) \<noteq> Serving"
proof (cases "begin_drain (the_gate s) gen")
  case (Inl e)
  with assms(2) show ?thesis by (auto simp: drain_def begin_drain_def split: if_splits)
next
  case (Inr g)
  let ?s1 = "gate_run (s\<lparr>the_gate := g\<rparr>) (env_waiting env)"
  have "ag_state g \<noteq> Serving" using Inr by (auto simp: begin_drain_def split: if_splits)
  then have s1: "ag_state (the_gate ?s1) \<noteq> Serving"
    using assms(1) keep_closed_run [of "env_waiting env" "s\<lparr>the_gate := g\<rparr>"] by (simp add: calm_def)
  then have "ag_state (the_gate (gate_run ?s1 (env_between env))) \<noteq> Serving"
    using assms(1) keep_closed_run [of "env_between env" ?s1] by (simp add: calm_def)
  with s1 Inr show ?thesis by (auto simp: drain_def Let_def finish_drain_def split: sum.splits)
qed

lemma drain_shuts:
  assumes "calm env" "undrained w"
    and "\<And>r v. shut v \<Longrightarrow> rw_cluster v = rw_cluster w \<Longrightarrow> Q r v"
  shows "wp (run_drain env gen) Q E w"
proof -
  let ?d = "drain (rw_gate w) gen (env_waiting env) (env_between env)"
  have "ag_state (the_gate (snd ?d)) \<noteq> Serving"
    using assms(2) by (intro drain_not_serving [OF assms(1)]) (simp add: undrained_def serving_def)
  with assms(2) have "shut (w\<lparr>rw_gate := snd ?d\<rparr>)" by (simp add: shut_def undrained_def serving_def)
  with assms(3) show ?thesis by (simp add: wp_run_drain Let_def)
qed

section \<open>Opening the gate\<close>

lemma serve_published:
  assumes "undrained w" "c = rw_cluster w" "cs_role c \<noteq> Unknown \<longrightarrow> available (cs_target c)"
    and "\<And>v. published v \<Longrightarrow> rw_cluster v = rw_cluster w \<Longrightarrow> Q c v"
  shows "wp (serve_snapshot ready resume_admission c) Q E w"
  using assms
  by (simp add: serve_snapshot_def wp_eqs published_def undrained_def serving_def
      start_serving_def split: if_splits)

lemma coherent_ready_available:
  assumes "coherent c" "cs_state c \<in> ready_states" "cs_role c \<noteq> Unknown"
  shows "available (cs_target c)"
proof -
  have "cs_state c = stable_ready_state (cs_mode c)"
    using assms(1,2) mode_fits_ready_iff unfolding coherent_def by blast
  then have "cs_target c = (if cs_role c = Worker \<and> cs_mode c \<noteq> SoloStandalone then ToCoordinator else LocalStandalone)"
    using assms(1) resolve_ready [OF assms(3)] by (simp add: coherent_def)
  then show ?thesis by (simp add: available_def)
qed

text \<open>The events after which the code serves.\<close>

definition ready_kind :: "cluster_event_kind \<Rightarrow> bool" where
  "ready_kind k \<longleftrightarrow> k \<in> {LocalStandaloneReady, PairingReady, DistributedRouteReady, PromotionFailed,
     OperatorReconcile}"

lemma event_new_not_foreign [simp]: "\<not> foreign_session c (event_new gen k)"
  by (simp add: foreign_session_def event_new_def)

lemma event_new_simps [simp]:
  "ev_kind (event_new gen k) = k" "ev_expected_generation (event_new gen k) = gen"
  by (simp_all add: event_new_def)

lemma transition_new:
  "transition c (event_new gen k) =
     (if gen \<noteq> cs_generation c then Inl (StaleGeneration gen (cs_generation c))
      else case next_stable c k of
        None \<Rightarrow> Inl (InvalidTransition (cs_state c) k)
      | Some (mode, state, lr) \<Rightarrow>
          Inr ((snapshot_new (cs_generation c + 1) (cs_role c) mode state lr (cs_tp c))
                 \<lparr>cs_tp := next_tp c (event_new gen k), cs_last_failure := next_failure c k\<rparr>))"
  by (simp add: transition_def split: option.splits)

lemma ready_kind_state:
  assumes "transition c (event_new gen k) = Inr n" "ready_kind k"
  shows "cs_state n \<in> ready_states"
proof -
  from assms(1) obtain mode state lr where "next_stable c k = Some (mode, state, lr)" "cs_state n = state"
    by (auto simp: transition_new snapshot_new_def split: if_splits option.splits)
  moreover have "SoloStandaloneReady \<in> ready_states" "PairedStandaloneReady \<in> ready_states"
    "DistributedReady \<in> ready_states"
    by (simp_all add: ready_states_def)
  ultimately show ?thesis using assms(2) stable_ready_state_ready [of "cs_mode c"]
    by (auto simp: ready_kind_def simp del: stable_ready_state_ready split: if_splits)
qed

lemma serve_at_ready:
  assumes "undrained v" "rw_cluster v = c" "cs_state c \<in> ready_states"
    and "\<And>u. published u \<Longrightarrow> rw_cluster u = c \<Longrightarrow> Q c u"
  shows "wp (serve_snapshot ready resume_admission c) Q E v"
proof (rule serve_published [OF assms(1)])
  show "c = rw_cluster v" using assms(2) by simp
  show "cs_role c \<noteq> Unknown \<longrightarrow> available (cs_target c)"
    using coherent_ready_available assms(1-3) by (auto simp: undrained_def)
qed (use assms in auto)

lemma serve_ready:
  assumes "undrained v" "rw_cluster v = c" "transition b (event_new gen k) = Inr c" "ready_kind k"
    and "\<And>u. published u \<Longrightarrow> rw_cluster u = c \<Longrightarrow> Q c u"
  shows "wp (serve_snapshot ready resume_admission c) Q E v"
  by (rule serve_at_ready [OF assms(1,2) ready_kind_state [OF assms(3,4)]]) (rule assms(5))

section \<open>Contracts of the gate\<close>

text \<open>
  What an operation keeps of the gate, for every condition that lies between "no drain is under
  way while the gate serves" and \<open>published\<close>, and that does not look at the failures: an
  operation that fails before it has changed anything keeps it, and every other one publishes.
\<close>

locale gate_contract =
  fixes P :: "world \<Rightarrow> bool"
  assumes undrained: "P w \<Longrightarrow> undrained w"
    and publish: "published w \<Longrightarrow> P w"
    and failures [simp]: "P (w\<lparr>rw_failures := t\<rparr>) = P w"
begin

lemma shut_kept: "shut w \<Longrightarrow> P w"
  by (rule publish) (rule shut_published)

end

interpretation pub: gate_contract published
  by unfold_locales (auto simp: published_def undrained_def serving_def)

text \<open>A coordinator that waits for the worker's hello still serves its own child.\<close>

definition offered :: "world \<Rightarrow> bool" where
  "offered w \<longleftrightarrow> published w
     \<or> undrained w \<and> cs_state (rw_cluster w) = AwaitingWorkerHello
       \<and> (serving w \<longrightarrow> cs_role (rw_cluster w) \<noteq> Unknown \<longrightarrow> available (rw_target w))"

interpretation off: gate_contract offered
  by unfold_locales (auto simp: offered_def published_def undrained_def serving_def)

section \<open>One child at a time\<close>

text \<open>
  Whether the standalone child and the distributed child of the node may be running, read off
  the calls: a start makes a child possible whatever it answers, and only a successful stop
  rules it out. The node must never have both, since both claim the same accelerator.
\<close>

fun child_step :: "bool \<times> bool \<Rightarrow> lifecycle_call \<Rightarrow> bool \<times> bool" where
  "child_step (s, d) (StandaloneStart _ _) = (True, d)"
| "child_step (s, d) (StandaloneStop ok) = (s \<and> \<not> ok, d)"
| "child_step (s, d) (CoordinatorStart _ _) = (s, True)"
| "child_step (s, d) (CoordinatorStop ok) = (s, d \<and> \<not> ok)"
| "child_step (s, d) (WorkerStart _ _) = (s, True)"
| "child_step (s, d) (WorkerStop ok) = (s, d \<and> \<not> ok)"
| "child_step (s, d) _ = (s, d)"

fun one_child :: "bool \<times> bool \<Rightarrow> lifecycle_call list \<Rightarrow> bool" where
  "one_child (s, d) [] \<longleftrightarrow> \<not> (s \<and> d)"
| "one_child (s, d) (c # cs) \<longleftrightarrow> \<not> (s \<and> d) \<and> one_child (child_step (s, d) c) cs"

definition may_run :: "lifecycle_call list \<Rightarrow> bool \<times> bool" where
  "may_run = foldl child_step (False, False)"

definition exclusive :: "world \<Rightarrow> bool" where
  "exclusive w \<longleftrightarrow> one_child (False, False) (rw_log w)"

lemma one_child_start: "one_child st cs \<Longrightarrow> \<not> (fst st \<and> snd st)"
  by (cases st; cases cs) auto

lemma one_child_append: "one_child st (xs @ ys) \<longleftrightarrow> one_child st xs \<and> one_child (foldl child_step st xs) ys"
proof (induction xs arbitrary: st)
  case Nil
  show ?case using one_child_start [of st ys] by (cases st) auto
next
  case (Cons x xs)
  then show ?case by (cases st) auto
qed

named_theorems log_rules \<open>the calls an action adds to the log\<close>

lemma apply_log [log_rules]:
  "(\<And>c v. rw_log v = rw_log w \<Longrightarrow> Q c v) \<Longrightarrow> (\<And>e. E e w) \<Longrightarrow> wp (apply_event wrap gen k) Q E w"
  by (simp add: wp_apply_event split: sum.split)

lemma set_target_log [log_rules]:
  "(\<And>v. rw_log v = rw_log w \<Longrightarrow> Q () v) \<Longrightarrow> wp (set_target t r) Q E w"
  by (simp add: wp_set_target)

lemma change_gate_log [log_rules]:
  "(\<And>v. rw_log v = rw_log w \<Longrightarrow> Q () v) \<Longrightarrow> wp (change_gate f) Q E w"
  by (simp add: wp_change_gate)

lemma run_drain_log [log_rules]:
  "(\<And>r v. rw_log v = rw_log w \<Longrightarrow> Q r v) \<Longrightarrow> wp (run_drain env gen) Q E w"
  by (simp add: wp_run_drain Let_def)

lemma block_transition_log [log_rules]:
  "(\<And>v. rw_log v = rw_log w \<Longrightarrow> Q () v) \<Longrightarrow> wp block_transition Q E w"
  by (simp add: block_transition_def wp_eqs)

lemma serve_snapshot_log [log_rules]:
  "(\<And>v. rw_log v = rw_log w \<Longrightarrow> Q c v) \<Longrightarrow> wp (serve_snapshot ready resume c) Q E w"
  by (simp add: serve_snapshot_def wp_eqs)

lemma log_call_log [log_rules]:
  "(\<And>v. rw_log v = rw_log w @ [c] \<Longrightarrow> Q () v) \<Longrightarrow> wp (log_call c) Q E w"
  by (simp add: wp_log_call)

lemma require_log [log_rules]: "(ok \<Longrightarrow> Q () w) \<Longrightarrow> (\<not> ok \<Longrightarrow> E e w) \<Longrightarrow> wp (require_ok ok e) Q E w"
  by (simp add: wp_require_ok)

lemma call_log [log_rules]:
  "(\<And>v. ok \<Longrightarrow> rw_log v = rw_log w @ [c] \<Longrightarrow> Q () v) \<Longrightarrow>
   (\<And>v. \<not> ok \<Longrightarrow> rw_log v = rw_log w @ [c] \<Longrightarrow> E e v) \<Longrightarrow> wp (call c ok e) Q E w"
  by (simp add: wp_call Let_def)

lemma timed_call_log [log_rules]:
  "(\<And>v. rw_log v = rw_log w @ [c] \<Longrightarrow> Q () v) \<Longrightarrow>
   (\<And>v. rw_log v = rw_log w @ [c] \<Longrightarrow> E failed v) \<Longrightarrow>
   (\<And>v. rw_log v = rw_log w @ [c] \<Longrightarrow> E elapsed v) \<Longrightarrow> wp (timed_call c r failed elapsed) Q E w"
  by (simp add: wp_timed_call Let_def split: start_outcome.split)

lemma exclusiveE:
  assumes "exclusive w"
  obtains s d where "one_child (False, False) (rw_log w)"
    "foldl child_step (False, False) (rw_log w) = (s, d)" "\<not> (s \<and> d)"
proof -
  obtain s d where "foldl child_step (False, False) (rw_log w) = (s, d)" by fastforce
  with that assms one_child_append [of "(False, False)" "rw_log w" "[]"] show ?thesis
    by (simp add: exclusive_def)
qed

lemmas exclusive_simps = exclusive_def one_child_append

lemma same_log_exclusive: "exclusive w \<Longrightarrow> rw_log v = rw_log w \<Longrightarrow> exclusive v"
  by (simp add: exclusive_def)

section \<open>Coming to rest\<close>

text \<open>The cluster has come to rest in one of the given states, and the gate is open on its target
  if that is available, unless the gate was closed for good.\<close>

definition at_rest :: "cluster_state set \<Rightarrow> bool \<Rightarrow> world \<Rightarrow> bool" where
  "at_rest S resume w \<longleftrightarrow> cs_state (rw_cluster w) \<in> S
     \<and> rw_target w = cs_target (rw_cluster w)
     \<and> (resume \<longrightarrow> \<not> ag_closed (the_gate (rw_gate w)) \<longrightarrow> available (rw_target w) \<longrightarrow> serving w)"

lemma apply_known:
  assumes "gen = cs_generation (rw_cluster w)"
    and "map_option (fst \<circ> snd) (next_stable (rw_cluster w) k) = Some st"
    and "\<And>c v. rw_cluster v = c \<Longrightarrow> cs_state c = st \<Longrightarrow> Q c v"
  shows "wp (apply_event wrap gen k) Q E w"
  using assms(1,2) assms(3) [of "w\<lparr>rw_cluster := _\<rparr>"]
  by (auto simp: wp_apply_event transition_new snapshot_new_def)

lemma serve_settles:
  assumes "rw_cluster w = c" "cs_state c \<in> S"
  shows "wp (serve_snapshot ready resume c) (\<lambda>_. at_rest S resume) E w"
  using assms by (auto simp: serve_snapshot_def wp_eqs at_rest_def serving_def start_serving_def)

lemma cluster_kept:
  "(\<And>v. rw_cluster v = rw_cluster w \<Longrightarrow> Q () v) \<Longrightarrow> wp block_transition Q E w"
  "(\<And>v. rw_cluster v = rw_cluster w \<Longrightarrow> Q () v) \<Longrightarrow> wp (log_call c) Q E w"
  "(\<And>v. rw_cluster v = rw_cluster w \<Longrightarrow> Q () v) \<Longrightarrow> wp (change_gate f) Q E w"
  "(\<And>r v. rw_cluster v = rw_cluster w \<Longrightarrow> Q2 r v) \<Longrightarrow> wp (run_drain env gen) Q2 E w"
  "(\<And>v. ok \<Longrightarrow> rw_cluster v = rw_cluster w \<Longrightarrow> Q () v) \<Longrightarrow>
   (\<And>v. \<not> ok \<Longrightarrow> rw_cluster v = rw_cluster w \<Longrightarrow> E e v) \<Longrightarrow> wp (call c ok e) Q E w"
  "(\<And>v. rw_cluster v = rw_cluster w \<Longrightarrow> Q () v) \<Longrightarrow>
   (\<And>v. rw_cluster v = rw_cluster w \<Longrightarrow> E failed v) \<Longrightarrow>
   (\<And>v. rw_cluster v = rw_cluster w \<Longrightarrow> E elapsed v) \<Longrightarrow> wp (timed_call c r failed elapsed) Q E w"
  by (simp_all add: block_transition_def wp_eqs Let_def split: start_outcome.split)

end
