(* ===== verification/Text_Codec.thy ===== *)
theory Text_Codec
  imports Sds_Prelude
begin

unbundle bit_operations_syntax

text \<open>
  Text encodings shared by the authenticated control plane and the HELLO frames: lower-case
  hexadecimal (\<open>encode_lower_hex\<close> and \<open>decode_lower_hex_32\<close> of
  \<open>src/cluster/auth.rs\<close>), the decimal \<open>Display\<close> and \<open>FromStr\<close> of
  \<open>u64\<close>, and big-endian 32-bit words (\<open>to_be_bytes\<close>, \<open>from_be_bytes\<close>).
  Strings are byte sequences, as Rust's UTF-8 strings are.
\<close>

definition str_bytes :: "string \<Rightarrow> bytes" where
  "str_bytes s = map (\<lambda>c. of_nat (of_char c)) s"

lemma str_bytes_inj [simp]: "str_bytes s = str_bytes t \<longleftrightarrow> s = t"
proof -
  have "inj (\<lambda>c. of_nat (of_char c) :: u8)"
  proof (rule injI)
    fix c d :: char
    assume "(of_nat (of_char c) :: u8) = of_nat (of_char d)"
    then have "unat (of_nat (of_char c) :: u8) = unat (of_nat (of_char d) :: u8)" by simp
    then show "c = d" by (simp add: unat_of_nat)
  qed
  then show ?thesis unfolding str_bytes_def by (rule inj_map_eq_map)
qed

section \<open>Hexadecimal\<close>

definition hex_digits :: string where
  "hex_digits = ''0123456789abcdef''"

fun encode_lower_hex :: "bytes \<Rightarrow> string" where
  "encode_lower_hex [] = []"
| "encode_lower_hex (b # bs) =
     hex_digits ! unat (drop_bit 4 b) # hex_digits ! unat (b AND 15) # encode_lower_hex bs"

definition lower_hex_value :: "char \<Rightarrow> u8 option" where
  "lower_hex_value c =
     (let n = (of_char c :: nat)
      in if 48 \<le> n \<and> n \<le> 57 then Some (of_nat (n - 48))
         else if 97 \<le> n \<and> n \<le> 102 then Some (of_nat (n - 97 + 10))
         else None)"

text \<open>The pairs of \<open>chunks_exact(2)\<close>: a trailing single byte is not visited.\<close>

fun decode_pairs :: "string \<Rightarrow> bytes option" where
  "decode_pairs (h # l # cs) =
     (case lower_hex_value h of
        None \<Rightarrow> None
      | Some high \<Rightarrow> case lower_hex_value l of
          None \<Rightarrow> None
        | Some low \<Rightarrow> map_option ((#) (push_bit 4 high OR low)) (decode_pairs cs))"
| "decode_pairs _ = Some []"

definition decode_lower_hex_32 :: "string \<Rightarrow> bytes option" where
  "decode_lower_hex_32 v = (if length v \<noteq> 64 then None else decode_pairs v)"

section \<open>Decimal numbers\<close>

definition digit_char :: "nat \<Rightarrow> char" where
  "digit_char d = char_of (48 + d)"

fun show_nat :: "nat \<Rightarrow> string" where
  "show_nat n = (if n < 10 then [digit_char n] else show_nat (n div 10) @ [digit_char (n mod 10)])"

declare show_nat.simps [simp del]

definition show_u64 :: "u64 \<Rightarrow> string" where
  "show_u64 w = show_nat (unat w)"

definition digit_value :: "char \<Rightarrow> nat option" where
  "digit_value c = (let n = (of_char c :: nat) in if 48 \<le> n \<and> n \<le> 57 then Some (n - 48) else None)"

fun parse_digits :: "nat \<Rightarrow> string \<Rightarrow> nat option" where
  "parse_digits acc [] = Some acc"
| "parse_digits acc (c # cs) =
     (case digit_value c of None \<Rightarrow> None | Some d \<Rightarrow> parse_digits (acc * 10 + d) cs)"

text \<open>\<open>str::parse\<close> for \<open>u64\<close>: an optional plus sign, at least one digit, no
  overflow.\<close>

definition parse_u64 :: "string \<Rightarrow> u64 option" where
  "parse_u64 s =
     (let ds = (case s of [] \<Rightarrow> [] | c # cs \<Rightarrow> if c = CHR ''+'' then cs else s)
      in if ds = [] then None
         else case parse_digits 0 ds of
           None \<Rightarrow> None
         | Some n \<Rightarrow> if n < 2 ^ 64 then Some (of_nat n) else None)"

section \<open>Big-endian words\<close>

definition to_be_bytes :: "u32 \<Rightarrow> bytes" where
  "to_be_bytes w = [ucast (drop_bit 24 w), ucast (drop_bit 16 w), ucast (drop_bit 8 w), ucast w]"

fun from_be_bytes :: "bytes \<Rightarrow> u32" where
  "from_be_bytes bs = foldl (\<lambda>acc b. push_bit 8 acc OR ucast b) 0 bs"

section \<open>Round trips\<close>

lemma hex_nibble:
  assumes "n < 16"
  shows "lower_hex_value (hex_digits ! n) = Some (of_nat n)"
proof -
  from assms have "n \<in> set [0..<16]" by simp
  then show ?thesis
    by (simp add: upt_rec hex_digits_def lower_hex_value_def Let_def) auto
qed

lemma byte_of_nibbles: "push_bit 4 (drop_bit 4 b) OR (b AND 15) = b" for b :: u8
proof (rule bit_word_eqI)
  fix n assume n: "n < LENGTH(8)"
  have "bit (15 :: u8) n \<longleftrightarrow> n < 4"
    using n bit_mask_iff [where 'a = u8, of 4 n] by (simp add: mask_eq_exp_minus_1)
  with n show "bit (push_bit 4 (drop_bit 4 b) OR (b AND 15)) n = bit b n"
    by (auto simp: bit_or_iff bit_and_iff bit_push_bit_iff bit_drop_bit_eq)
qed

lemma nibble_bounds: "unat (drop_bit 4 b) < 16" "unat (b AND 15) < 16" for b :: u8
proof -
  have "unat b < 256" using unat_bound [of b] by simp
  then show "unat (drop_bit 4 b) < 16" 
    unfolding unat_drop_bit_eq by (simp add: drop_bit_eq_div)
  have "(15 :: u8) = mask 4" by (simp add: mask_eq_exp_minus_1)
  then have "unat (b AND 15) = take_bit 4 (unat b)"
    by (simp only: flip: take_bit_eq_mask unsigned_take_bit_eq)
  then show "unat (b AND 15) < 16" by (simp add: take_bit_eq_mod)
qed

lemma decode_encode_pairs: "decode_pairs (encode_lower_hex bs) = Some bs"
  by (induction bs) (simp_all add: hex_nibble nibble_bounds byte_of_nibbles)

lemma length_encode [simp]: "length (encode_lower_hex bs) = 2 * length bs"
  by (induction bs) simp_all

lemma decode_encode_hex [simp]:
  "length bs = 32 \<Longrightarrow> decode_lower_hex_32 (encode_lower_hex bs) = Some bs"
  by (simp add: decode_lower_hex_32_def decode_encode_pairs)

lemma encode_hex_inj: "encode_lower_hex a = encode_lower_hex b \<longleftrightarrow> a = b"
  by (metis decode_encode_pairs option.inject)

lemma decode_pairs_length: "decode_pairs v = Some bs \<Longrightarrow> even (length v) \<Longrightarrow> length v = 2 * length bs"
  by (induction v arbitrary: bs rule: decode_pairs.induct) (auto split: option.splits)

lemma decode_hex_length: "decode_lower_hex_32 v = Some bs \<Longrightarrow> length bs = 32"
  using decode_pairs_length [of v bs] by (auto simp: decode_lower_hex_32_def split: if_splits)

lemma digit_value_digit [simp]: "d < 10 \<Longrightarrow> digit_value (digit_char d) = Some d"
  by (simp add: digit_value_def digit_char_def)

lemma parse_digits_append:
  "parse_digits acc (xs @ ys) = Option.bind (parse_digits acc xs) (\<lambda>a. parse_digits a ys)"
  by (induction acc xs rule: parse_digits.induct) (auto split: option.splits)

lemma parse_show_nat: "parse_digits 0 (show_nat n) = Some n"
proof (induction n rule: show_nat.induct)
  case (1 n)
  show ?case
  proof (cases "n < 10")
    case True
    then show ?thesis by (simp add: show_nat.simps [of n])
  next
    case False
    with "1.IH" show ?thesis
      by (simp add: show_nat.simps [of n] parse_digits_append)
  qed
qed

lemma show_nat_digits: "\<forall>c \<in> set (show_nat n). \<exists>d < 10. c = digit_char d"
proof (induction n rule: show_nat.induct)
  case (1 n)
  have "\<exists>d < 10. digit_char (n mod 10) = digit_char d"
    by (rule exI [of _ "n mod 10"]) simp
  with 1 show ?case by (cases "n < 10") (auto simp: show_nat.simps [of n])
qed

lemma digit_char_code [simp]: "d < 10 \<Longrightarrow> (of_char (digit_char d) :: nat) = 48 + d"
  by (simp add: digit_char_def)

lemma digit_char_neq: "d < 10 \<Longrightarrow> (of_char c :: nat) < 48 \<Longrightarrow> digit_char d \<noteq> c"
  by (metis digit_char_code not_add_less1)

lemma show_nat_not_Nil [simp]: "show_nat n \<noteq> []"
  by (simp add: show_nat.simps [of n])

lemma parse_show_u64 [simp]: "parse_u64 (show_u64 w) = Some w"
proof -
  have "show_nat (unat w) = c # cs \<Longrightarrow> c \<noteq> CHR ''+''" for c cs
    using show_nat_digits [of "unat w"] by (auto dest: digit_char_neq [of _ "CHR ''+''"])
  moreover have "unat w < 2 ^ 64" using unat_bound [of w] by simp
  ultimately show ?thesis
    using parse_show_nat [of "unat w"]
    by (auto simp: parse_u64_def show_u64_def split: list.splits)
qed

lemma show_u64_inj [simp]: "show_u64 a = show_u64 b \<longleftrightarrow> a = b"
  by (metis option.inject parse_show_u64)

lemma newline_not_in_show: "CHR 0x0A \<notin> set (show_u64 w)"
proof
  assume "CHR 0x0A \<in> set (show_u64 w)"
  then obtain d where "d < 10" "CHR 0x0A = digit_char d"
    using show_nat_digits [of "unat w"] unfolding show_u64_def by blast
  moreover have "(of_char (CHR 0x0A) :: nat) < 48" by simp
  ultimately show False by (metis digit_char_neq)
qed

lemma from_to_be_bytes [simp]: "from_be_bytes (to_be_bytes w) = w"
proof (rule bit_word_eqI)
  fix n assume n: "n < LENGTH(32)"
  then consider "n < 8" | "8 \<le> n" "n < 16" | "16 \<le> n" "n < 24" | "24 \<le> n" by linarith
  then show "bit (from_be_bytes (to_be_bytes w)) n = bit w n"
    using n by cases
      (auto simp: to_be_bytes_def bit_or_iff bit_push_bit_iff bit_ucast_iff bit_drop_bit_eq)
qed

lemma length_to_be_bytes [simp]: "length (to_be_bytes w) = 4"
  by (simp add: to_be_bytes_def)

section \<open>White space\<close>

text \<open>\<open>str::trim().is_empty()\<close> on UTF-8 text: every character is Unicode white space.\<close>

definition white_space_2 :: "nat \<Rightarrow> nat \<Rightarrow> bool" where
  "white_space_2 b c \<longleftrightarrow> b = 194 \<and> (c = 133 \<or> c = 160)"

definition white_space_3 :: "nat \<Rightarrow> nat \<Rightarrow> nat \<Rightarrow> bool" where
  "white_space_3 b c d \<longleftrightarrow>
     b = 225 \<and> c = 154 \<and> d = 128
     \<or> b = 226 \<and> c = 128 \<and> (128 \<le> d \<and> d \<le> 138 \<or> d = 168 \<or> d = 169 \<or> d = 175)
     \<or> b = 226 \<and> c = 129 \<and> d = 159
     \<or> b = 227 \<and> c = 128 \<and> d = 128"

fun blank_utf8 :: "nat list \<Rightarrow> bool" where
  "blank_utf8 [] = True"
| "blank_utf8 (b # bs) =
     (if b = 32 \<or> 9 \<le> b \<and> b \<le> 13 then blank_utf8 bs
      else case bs of
        c # cs \<Rightarrow>
          if white_space_2 b c then blank_utf8 cs
          else (case cs of d # ds \<Rightarrow> white_space_3 b c d \<and> blank_utf8 ds | [] \<Rightarrow> False)
      | [] \<Rightarrow> False)"

end
