(* ===== verification/Process_Control.thy ===== *)
theory Process_Control
  imports Text_Codec Runtime_World
begin

unbundle bit_operations_syntax

text \<open>
  Identity and control of child processes, \<open>src/cluster/process.rs\<close>: the identity of a
  process, its verification before every signal, the two ways to stop a process that is not a
  child of this process (\<open>stop_recovered_owned\<close>, \<open>force_stop_approved\<close>), the stop of a
  managed child and the wait for its HTTP readiness, the slot of a supervisor, and the
  standalone supervisor (\<open>src/cluster/process/standalone.rs\<close>).

  SHA-256 is the argument \<open>sha256\<close>. The operating system is the argument \<open>os\<close>: what an
  observation returns at a given time, whether a signal can be sent, the exit status of the
  child, the answers of its HTTP endpoint, and by how much a sleep overruns. It is an arbitrary
  function of time, so that a process may end, and its number may be taken by another process,
  at any moment. Times and durations are milliseconds.
\<close>

section \<open>Identity\<close>

record observed_process =
  ob_pid :: u32
  ob_executable :: bytes
  ob_argv :: "bytes list"
  ob_start_micros :: u64

record process_identity =
  id_pid :: u32
  id_executable :: bytes
  id_argv_sha256 :: bytes
  id_start_micros :: u64

record child_identity = process_identity +
  ci_profile_id :: string
  ci_generation :: u64
  ci_spawned_at_millis :: u64

definition to_be_bytes_64 :: "u64 \<Rightarrow> bytes" where
  "to_be_bytes_64 w = map (\<lambda>k. ucast (drop_bit (8 * k) w)) [7, 6, 5, 4, 3, 2, 1, 0]"

definition update_os_string :: "bytes \<Rightarrow> bytes" where
  "update_os_string v = to_be_bytes_64 (of_nat (length v)) @ v"

definition argv_message :: "bytes \<Rightarrow> bytes list \<Rightarrow> bytes" where
  "argv_message executable argv = concat (map update_os_string (executable # argv))"

definition argv_sha256 :: "(bytes \<Rightarrow> bytes) \<Rightarrow> bytes \<Rightarrow> bytes list \<Rightarrow> bytes" where
  "argv_sha256 sha256 executable argv = sha256 (argv_message executable argv)"

definition from_observed :: "(bytes \<Rightarrow> bytes) \<Rightarrow> observed_process \<Rightarrow> process_identity" where
  "from_observed sha256 p =
     \<lparr>id_pid = ob_pid p, id_executable = ob_executable p,
      id_argv_sha256 = argv_sha256 sha256 (ob_executable p) (ob_argv p),
      id_start_micros = ob_start_micros p\<rparr>"

definition identity_matches :: "(bytes \<Rightarrow> bytes) \<Rightarrow> 'a process_identity_scheme \<Rightarrow> observed_process \<Rightarrow> bool" where
  "identity_matches sha256 i p \<longleftrightarrow>
     id_pid i = ob_pid p \<and> id_executable i = ob_executable p
     \<and> id_argv_sha256 i = argv_sha256 sha256 (ob_executable p) (ob_argv p)
     \<and> id_start_micros i = ob_start_micros p"

section \<open>The operating system\<close>

datatype process_signal = Terminate | Kill

datatype process_control_error =
  PcNotRunning | PcIdentityMismatch | PcMissingPid | PcStopTimeout | PcSigkillNotAllowed
| PcEarlyExit int | PcReadinessTimeout | PcDsparkActivationTimeout | PcInvalidReadinessTiming | PcIo

text \<open>An I/O error is \<open>None\<close>. An HTTP attempt has a duration and, if it is not cut off
  before, an outcome.\<close>

record os =
  os_observe :: "nat \<Rightarrow> u32 \<Rightarrow> observed_process option option"
  os_signal :: "nat \<Rightarrow> process_signal \<Rightarrow> bool"
  os_exit :: "nat \<Rightarrow> int option option"
  os_http :: "nat \<Rightarrow> nat \<times> bool"
  os_overrun :: "nat \<Rightarrow> nat"

text \<open>A signal that was sent: when, to the process group or to the process alone, to whom.\<close>

record sent_signal =
  sg_time :: nat
  sg_group :: bool
  sg_pid :: u32
  sg_signal :: process_signal

record control_world =
  cw_now :: nat
  cw_sent :: "sent_signal list"

type_synonym 'a pact = "(control_world, process_control_error, 'a) sact"

definition get_now :: "(control_world, 'e, nat) sact" where
  "get_now w = (Inr (cw_now w), w)"

definition set_now :: "nat \<Rightarrow> (control_world, 'e, unit) sact" where
  "set_now t = modify_act (\<lambda>w. w\<lparr>cw_now := t\<rparr>)"

definition after_sleep :: "os \<Rightarrow> nat \<Rightarrow> nat \<Rightarrow> nat" where
  "after_sleep os now d = now + d + os_overrun os now"

lemma sleep_progress:
  "\<lbrakk>now \<le> t; t < deadline; 0 < d\<rbrakk> \<Longrightarrow> deadline - after_sleep os t (min (deadline - t) d) < deadline - now"
  unfolding after_sleep_def by (cases "deadline - t \<le> d") auto

section \<open>The controller\<close>

definition verify_at ::
  "(bytes \<Rightarrow> bytes) \<Rightarrow> os \<Rightarrow> 'a process_identity_scheme \<Rightarrow> nat \<Rightarrow> process_control_error + unit" where
  "verify_at sha256 os i now =
     (case os_observe os now (id_pid i) of
        None \<Rightarrow> Inl PcIo
      | Some None \<Rightarrow> Inl PcNotRunning
      | Some (Some p) \<Rightarrow> if identity_matches sha256 i p then Inr () else Inl PcIdentityMismatch)"

definition send_signal :: "os \<Rightarrow> bool \<Rightarrow> u32 \<Rightarrow> process_signal \<Rightarrow> unit pact" where
  "send_signal os grp pid s w =
     (if os_signal os (cw_now w) s
      then (Inr (), w\<lparr>cw_sent := cw_sent w @
             [\<lparr>sg_time = cw_now w, sg_group = grp, sg_pid = pid, sg_signal = s\<rparr>]\<rparr>)
      else (Inl PcIo, w))"

definition verified_signal ::
  "(bytes \<Rightarrow> bytes) \<Rightarrow> os \<Rightarrow> bool \<Rightarrow> 'a process_identity_scheme \<Rightarrow> process_signal \<Rightarrow> unit pact" where
  "verified_signal sha256 os grp i s =
     seq get_now (\<lambda>now. case verify_at sha256 os i now of
        Inl e \<Rightarrow> fail_act e | Inr _ \<Rightarrow> send_signal os grp (id_pid i) s)"

definition signal_owned ::
  "(bytes \<Rightarrow> bytes) \<Rightarrow> os \<Rightarrow> 'a process_identity_scheme \<Rightarrow> process_signal \<Rightarrow> unit pact" where
  "signal_owned sha256 os i s = verified_signal sha256 os True i s"

definition signal_approved_process ::
  "(bytes \<Rightarrow> bytes) \<Rightarrow> os \<Rightarrow> 'a process_identity_scheme \<Rightarrow> process_signal \<Rightarrow> unit pact" where
  "signal_approved_process sha256 os i s = verified_signal sha256 os False i s"

text \<open>The loop after a signal: sleep for the poll interval or until the deadline, then verify.
  \<open>Inr True\<close>: the process is gone; \<open>Inr False\<close>: it is alive at the deadline. The callers
  refuse a poll interval of zero, with which the loop would spin until the deadline.\<close>

function await_gone ::
  "(bytes \<Rightarrow> bytes) \<Rightarrow> os \<Rightarrow> 'a process_identity_scheme \<Rightarrow> nat \<Rightarrow> nat \<Rightarrow> nat \<Rightarrow> nat \<times> (process_control_error + bool)" where
  "await_gone sha256 os i poll deadline now =
     (let t = after_sleep os now (min poll (deadline - now)) in
      case verify_at sha256 os i t of
        Inl PcNotRunning \<Rightarrow> (t, Inr True)
      | Inl e \<Rightarrow> (t, Inl e)
      | Inr _ \<Rightarrow> if t < deadline \<and> 0 < poll then await_gone sha256 os i poll deadline t else (t, Inr False))"
  by pat_completeness auto
termination
  by (relation "measure (\<lambda>(_, _, _, _, deadline, now). deadline - now)") (auto simp: after_sleep_def)

declare await_gone.simps [simp del]

definition wait_gone ::
  "(bytes \<Rightarrow> bytes) \<Rightarrow> os \<Rightarrow> 'a process_identity_scheme \<Rightarrow> nat \<Rightarrow> nat \<Rightarrow> bool pact" where
  "wait_gone sha256 os i poll timeout w =
     (case await_gone sha256 os i poll (cw_now w + timeout) (cw_now w) of (t, r) \<Rightarrow> (r, w\<lparr>cw_now := t\<rparr>))"

text \<open>The end of both stop functions, after the grace period: SIGKILL and a second wait.\<close>

definition kill_and_wait ::
  "(bytes \<Rightarrow> bytes) \<Rightarrow> os \<Rightarrow> bool \<Rightarrow> 'a process_identity_scheme \<Rightarrow> nat \<Rightarrow> nat \<Rightarrow> unit pact" where
  "kill_and_wait sha256 os grp i timeout poll =
     seq (verified_signal sha256 os grp i Kill) (\<lambda>_.
     seq (wait_gone sha256 os i poll timeout) (\<lambda>gone.
     require_ok gone PcStopTimeout))"

definition stop_recovered_owned ::
  "(bytes \<Rightarrow> bytes) \<Rightarrow> os \<Rightarrow> 'a process_identity_scheme \<Rightarrow> nat \<Rightarrow> nat \<Rightarrow> bool \<Rightarrow> unit pact" where
  "stop_recovered_owned sha256 os i timeout poll allow_sigkill =
     (if timeout = 0 \<or> poll = 0 then fail_act PcInvalidReadinessTiming
      else on_result (signal_owned sha256 os i Terminate)
        (\<lambda>_. seq (wait_gone sha256 os i poll timeout) (\<lambda>gone.
           if gone then return_act ()
           else if \<not> allow_sigkill then fail_act PcSigkillNotAllowed
           else kill_and_wait sha256 os True i timeout poll))
        (\<lambda>e. if e = PcNotRunning then return_act () else fail_act e))"

definition force_stop_approved ::
  "(bytes \<Rightarrow> bytes) \<Rightarrow> os \<Rightarrow> 'a process_identity_scheme \<Rightarrow> nat \<Rightarrow> nat \<Rightarrow> unit pact" where
  "force_stop_approved sha256 os i timeout poll =
     (if timeout = 0 \<or> poll = 0 then fail_act PcInvalidReadinessTiming
      else on_result (signal_approved_process sha256 os i Terminate)
        (\<lambda>_. seq (wait_gone sha256 os i poll timeout) (\<lambda>gone.
           if gone then return_act () else kill_and_wait sha256 os False i timeout poll))
        (\<lambda>e. if e = PcNotRunning then return_act () else fail_act e))"

section \<open>Managed children\<close>

definition sigkill_reap_window :: "nat \<Rightarrow> nat" where
  "sigkill_reap_window stop_timeout = min stop_timeout 5000"

definition try_wait :: "os \<Rightarrow> (int option) pact" where
  "try_wait os w = (case os_exit os (cw_now w) of None \<Rightarrow> (Inl PcIo, w) | Some st \<Rightarrow> (Inr st, w))"

function wait_child_exit_until :: "os \<Rightarrow> nat \<Rightarrow> nat \<Rightarrow> nat \<times> (process_control_error + int option)" where
  "wait_child_exit_until os deadline now =
     (case os_exit os now of
        None \<Rightarrow> (now, Inl PcIo)
      | Some (Some status) \<Rightarrow> (now, Inr (Some status))
      | Some None \<Rightarrow>
          let remaining = deadline - now in
          if remaining = 0 then (now, Inr None)
          else wait_child_exit_until os deadline (after_sleep os now (min remaining 50)))"
  by pat_completeness auto
termination
  by (relation "measure (\<lambda>(_, deadline, now). deadline - now)") (auto simp: after_sleep_def)

declare wait_child_exit_until.simps [simp del]

definition wait_exit :: "os \<Rightarrow> nat \<Rightarrow> (int option) pact" where
  "wait_exit os timeout w =
     (case wait_child_exit_until os (cw_now w + timeout) (cw_now w) of (t, r) \<Rightarrow> (r, w\<lparr>cw_now := t\<rparr>))"

definition unless_gone :: "unit pact \<Rightarrow> unit pact" where
  "unless_gone m = on_result m return_act (\<lambda>e. if e = PcNotRunning then return_act () else fail_act e)"

definition managed_stop ::
  "(bytes \<Rightarrow> bytes) \<Rightarrow> os \<Rightarrow> 'a process_identity_scheme \<Rightarrow> nat \<Rightarrow> bool \<Rightarrow> int pact" where
  "managed_stop sha256 os i timeout allow_sigkill =
     seq (try_wait os) (\<lambda>exited. case exited of Some status \<Rightarrow> return_act status | None \<Rightarrow>
     seq (unless_gone (signal_owned sha256 os i Terminate)) (\<lambda>_.
     seq (wait_exit os timeout) (\<lambda>exited. case exited of Some status \<Rightarrow> return_act status | None \<Rightarrow>
     if \<not> allow_sigkill then fail_act PcSigkillNotAllowed else
     seq (unless_gone (signal_owned sha256 os i Kill)) (\<lambda>_.
     seq (wait_exit os (sigkill_reap_window timeout)) (\<lambda>exited. case exited of
        Some status \<Rightarrow> return_act status | None \<Rightarrow> fail_act PcStopTimeout)))))"

text \<open>One iteration of \<open>wait_for_http_readiness\<close> per call; the caller refuses a poll
  interval of zero.\<close>

function await_ready :: "os \<Rightarrow> nat \<Rightarrow> nat \<Rightarrow> nat \<Rightarrow> nat \<times> (process_control_error + unit)" where
  "await_ready os poll deadline now =
     (case os_exit os now of
        None \<Rightarrow> (now, Inl PcIo)
      | Some (Some status) \<Rightarrow> (now, Inl (PcEarlyExit status))
      | Some None \<Rightarrow>
          if deadline \<le> now then (now, Inl PcReadinessTimeout)
          else
            let limit = min (deadline - now) poll; (d, success) = os_http os now; t = now + min d limit in
            if success \<and> d \<le> limit then
              (case os_exit os t of
                 None \<Rightarrow> (t, Inl PcIo)
               | Some (Some status) \<Rightarrow> (t, Inl (PcEarlyExit status))
               | Some None \<Rightarrow> (t, Inr ()))
            else if deadline \<le> t \<or> poll = 0 then (t, Inl PcReadinessTimeout)
            else await_ready os poll deadline (after_sleep os t (min (deadline - t) poll)))"
  by pat_completeness auto
termination
  by (relation "measure (\<lambda>(_, _, deadline, now). deadline - now)") (auto intro!: sleep_progress)

declare await_ready.simps [simp del]

definition wait_for_http_readiness :: "os \<Rightarrow> nat \<Rightarrow> nat \<Rightarrow> unit pact" where
  "wait_for_http_readiness os startup_timeout poll w =
     (if startup_timeout = 0 \<or> poll = 0 then (Inl PcInvalidReadinessTiming, w)
      else case await_ready os poll (cw_now w + startup_timeout) (cw_now w) of
        (t, r) \<Rightarrow> (r, w\<lparr>cw_now := t\<rparr>))"

text \<open>A command, and what the system makes of spawning it: the canonical path of its executable,
  whether it could be started, its process number, the wall clock.\<close>

record child_command =
  cc_argv :: "bytes list"
  cc_profile_id :: string
  cc_dspark :: bool

record spawn_outcome =
  so_canonical :: "bytes option"
  so_started :: bool
  so_pid :: "u32 option"
  so_wall_millis :: u64

definition managed_spawn ::
  "(bytes \<Rightarrow> bytes) \<Rightarrow> os \<Rightarrow> child_command \<Rightarrow> spawn_outcome \<Rightarrow> u64 \<Rightarrow> child_identity pact" where
  "managed_spawn sha256 os c out generation =
     (case so_canonical out of
        None \<Rightarrow> fail_act PcIo
      | Some executable \<Rightarrow>
          if \<not> so_started out then fail_act PcIo
          else case so_pid out of
            None \<Rightarrow> fail_act PcMissingPid
          | Some pid \<Rightarrow>
              seq get_now (\<lambda>now. case os_observe os now pid of
                None \<Rightarrow> fail_act PcIo
              | Some None \<Rightarrow> fail_act PcNotRunning
              | Some (Some p) \<Rightarrow>
                  let i = \<lparr>id_pid = pid, id_executable = executable,
                           id_argv_sha256 = argv_sha256 sha256 executable (cc_argv c),
                           id_start_micros = ob_start_micros p, ci_profile_id = cc_profile_id c,
                           ci_generation = generation, ci_spawned_at_millis = so_wall_millis out\<rparr>
                  in case verify_at sha256 os i now of Inl e \<Rightarrow> fail_act e | Inr _ \<Rightarrow> return_act i))"

section \<open>Supervisors\<close>

text \<open>The slot of a supervisor with the world it acts in; the running flag is that of a dry run.\<close>

record supervised =
  su_world :: control_world
  su_child :: "child_identity option"
  su_running :: bool

type_synonym 'a svact = "(supervised, process_control_error, 'a) sact"

definition on_process :: "'a pact \<Rightarrow> 'a svact" where
  "on_process m s = (case m (su_world s) of (r, w) \<Rightarrow> (r, s\<lparr>su_world := w\<rparr>))"

definition get_state :: "('s, 'e, 's) sact" where
  "get_state s = (Inr s, s)"

definition slot_is_running :: "os \<Rightarrow> bool svact" where
  "slot_is_running os =
     seq get_state (\<lambda>s. case su_child s of
        None \<Rightarrow> return_act False
      | Some _ \<Rightarrow> seq (on_process (try_wait os)) (\<lambda>st. return_act (st = None)))"

definition slot_stop :: "(bytes \<Rightarrow> bytes) \<Rightarrow> os \<Rightarrow> nat \<Rightarrow> bool \<Rightarrow> unit svact" where
  "slot_stop sha256 os timeout allow_sigkill =
     seq get_state (\<lambda>s. case su_child s of
        None \<Rightarrow> return_act ()
      | Some i \<Rightarrow>
          on_result (on_process (managed_stop sha256 os i timeout allow_sigkill))
            (\<lambda>_. modify_act (\<lambda>s. s\<lparr>su_child := None\<rparr>))
            (\<lambda>e. seq (modify_act (\<lambda>s. s\<lparr>su_child := Some i\<rparr>)) (\<lambda>_. fail_act e)))"

text \<open>\<open>begin_start\<close>: false if a child is already running.\<close>

definition slot_begin_start :: "os \<Rightarrow> bool svact" where
  "slot_begin_start os =
     seq (slot_is_running os) (\<lambda>running.
     if running then return_act False
     else seq (modify_act (\<lambda>s. s\<lparr>su_child := None\<rparr>)) (\<lambda>_. return_act True))"

record supervisor =
  sc_command :: child_command
  sc_startup_timeout :: nat
  sc_poll_interval :: nat
  sc_stop_timeout :: nat
  sc_allow_sigkill :: bool
  sc_dry_run :: bool

text \<open>A failed start stops the child it spawned and ignores the result of that.\<close>

definition abandon_child ::
  "(bytes \<Rightarrow> bytes) \<Rightarrow> os \<Rightarrow> supervisor \<Rightarrow> child_identity \<Rightarrow> process_control_error \<Rightarrow> 'a svact" where
  "abandon_child sha256 os c i e =
     on_result (on_process (managed_stop sha256 os i (sc_stop_timeout c) (sc_allow_sigkill c)))
       (\<lambda>_. fail_act e) (\<lambda>_. fail_act e)"

text \<open>The wait for the activation of DSpark, which the log may report at some time.\<close>

definition dspark_activated :: "nat option \<Rightarrow> nat \<Rightarrow> bool pact" where
  "dspark_activated activation deadline w =
     (case activation of
        Some t \<Rightarrow> if t \<le> max (cw_now w) deadline then (Inr True, w\<lparr>cw_now := max (cw_now w) t\<rparr>)
                  else (Inr False, w\<lparr>cw_now := max (cw_now w) deadline\<rparr>)
      | None \<Rightarrow> (Inr False, w\<lparr>cw_now := max (cw_now w) deadline\<rparr>))"

definition start_inner ::
  "(bytes \<Rightarrow> bytes) \<Rightarrow> os \<Rightarrow> supervisor \<Rightarrow> spawn_outcome \<Rightarrow> nat option \<Rightarrow> u64 \<Rightarrow> unit svact" where
  "start_inner sha256 os c out activation generation =
     (if sc_dry_run c then modify_act (\<lambda>s. s\<lparr>su_running := True\<rparr>)
      else
        seq (slot_begin_start os) (\<lambda>free. if \<not> free then return_act () else
        seq (on_process get_now) (\<lambda>started.
        seq (on_process (managed_spawn sha256 os (sc_command c) out generation)) (\<lambda>i.
        on_result (on_process (wait_for_http_readiness os (sc_startup_timeout c) (sc_poll_interval c)))
          (\<lambda>_. seq (if cc_dspark (sc_command c)
                     then on_process (dspark_activated activation (started + sc_startup_timeout c))
                     else return_act True) (\<lambda>activated.
                if activated then modify_act (\<lambda>s. s\<lparr>su_child := Some i\<rparr>)
                else abandon_child sha256 os c i PcDsparkActivationTimeout))
          (abandon_child sha256 os c i)))))"

definition stop_inner :: "(bytes \<Rightarrow> bytes) \<Rightarrow> os \<Rightarrow> supervisor \<Rightarrow> unit svact" where
  "stop_inner sha256 os c =
     (if sc_dry_run c then modify_act (\<lambda>s. s\<lparr>su_running := False\<rparr>)
      else slot_stop sha256 os (sc_stop_timeout c) (sc_allow_sigkill c))"

definition is_running_inner :: "os \<Rightarrow> supervisor \<Rightarrow> bool svact" where
  "is_running_inner os c =
     (if sc_dry_run c then seq get_state (\<lambda>s. return_act (su_running s)) else slot_is_running os)"

definition supervisor_identity :: "supervisor \<Rightarrow> supervised \<Rightarrow> child_identity option" where
  "supervisor_identity c s = (if sc_dry_run c then None else su_child s)"

section \<open>Startup cleanup\<close>

text \<open>\<open>Path::file_name\<close>: the last component, if it is a name.\<close>

fun split_on :: "'a \<Rightarrow> 'a list \<Rightarrow> 'a list list" where
  "split_on c [] = [[]]"
| "split_on c (x # xs) =
     (if x = c then [] # split_on c xs
      else case split_on c xs of [] \<Rightarrow> [[x]] | y # ys \<Rightarrow> (x # y) # ys)"

definition file_name :: "bytes \<Rightarrow> bytes option" where
  "file_name path =
     (let parts = filter (\<lambda>p. p \<noteq> [] \<and> p \<noteq> str_bytes ''.'') (split_on 47 path)
      in if parts = [] \<or> last parts = str_bytes ''..'' then None else Some (last parts))"

datatype startup_process_kind = Siderostat | Ds4

record startup_candidate =
  cn_kind :: startup_process_kind
  cn_observed :: observed_process

definition candidate_kind :: "bytes \<Rightarrow> observed_process \<Rightarrow> startup_process_kind option" where
  "candidate_kind configured p =
     (let name = file_name (ob_executable p) in
      if name = Some (str_bytes ''siderostat'') then Some Siderostat
      else if name = Some (str_bytes ''ds4-server'')
        \<or> file_name configured \<noteq> None \<and> name = file_name configured then Some Ds4
      else None)"

definition discover_startup_processes :: "u32 \<Rightarrow> bytes \<Rightarrow> observed_process list \<Rightarrow> startup_candidate list" where
  "discover_startup_processes current_pid configured processes =
     List.map_filter (\<lambda>p. map_option (\<lambda>k. \<lparr>cn_kind = k, cn_observed = p\<rparr>) (candidate_kind configured p))
       (filter (\<lambda>p. ob_pid p \<noteq> current_pid) processes)"

datatype cleanup_outcome = NoCandidates | Approved nat | Declined nat

fun stop_candidates :: "(bytes \<Rightarrow> bytes) \<Rightarrow> os \<Rightarrow> nat \<Rightarrow> startup_candidate list \<Rightarrow> unit pact" where
  "stop_candidates sha256 os timeout [] = return_act ()"
| "stop_candidates sha256 os timeout (c # cs) =
     seq (force_stop_approved sha256 os (from_observed sha256 (cn_observed c)) timeout 20) (\<lambda>_.
     stop_candidates sha256 os timeout cs)"

text \<open>The listing of the processes is an I/O result; a declined cleanup sends nothing, an
  approved one waits for the announced countdown.\<close>

definition cleanup_startup_processes ::
  "(bytes \<Rightarrow> bytes) \<Rightarrow> os \<Rightarrow> u32 \<Rightarrow> bytes \<Rightarrow> observed_process list option \<Rightarrow> nat \<Rightarrow> bool \<Rightarrow> bool \<Rightarrow> cleanup_outcome pact" where
  "cleanup_startup_processes sha256 os current_pid configured processes timeout decline auto_restart =
     (case processes of
        None \<Rightarrow> fail_act PcIo
      | Some ps \<Rightarrow>
          let candidates = discover_startup_processes current_pid configured ps in
          if candidates = [] then return_act NoCandidates
          else if decline \<or> \<not> auto_restart then return_act (Declined (length candidates))
          else
            seq get_now (\<lambda>now.
            seq (set_now (after_sleep os now 5000)) (\<lambda>_.
            seq (stop_candidates sha256 os timeout candidates) (\<lambda>_.
            return_act (Approved (length candidates))))))"

section \<open>Command lines are identified\<close>

lemma to_be_bytes_64_inj [simp]: "to_be_bytes_64 v = to_be_bytes_64 w \<longleftrightarrow> v = w"
proof
  assume eq: "to_be_bytes_64 v = to_be_bytes_64 w"
  have byte: "(ucast (drop_bit (8 * k) v) :: u8) = ucast (drop_bit (8 * k) w)" if "k < 8" for k
  proof -
    from that have "k \<in> set [7, 6, 5, 4, 3, 2, 1, 0]" by auto
    with eq show ?thesis unfolding to_be_bytes_64_def map_eq_conv by (rule bspec)
  qed
  show "v = w"
  proof (rule bit_word_eqI)
    fix n assume "n < LENGTH(64)"
    then have "n div 8 < 8" by auto
    from arg_cong [OF byte [OF this], of "\<lambda>b. bit b (n mod 8)"]
    show "bit v n \<longleftrightarrow> bit w n" by (simp add: bit_simps)
  qed
qed simp

lemma to_be_bytes_64_length [simp]: "length (to_be_bytes_64 w) = 8"
  by (simp add: to_be_bytes_64_def)

lemma update_os_string_nonempty [simp]: "update_os_string v \<noteq> []"
  by (simp add: update_os_string_def to_be_bytes_64_def)

lemma update_os_string_split:
  assumes "update_os_string v @ xs = update_os_string w @ ys" "length v < 2 ^ 64" "length w < 2 ^ 64"
  shows "v = w \<and> xs = ys"
proof -
  from assms(1) have parts: "to_be_bytes_64 (of_nat (length v)) = to_be_bytes_64 (of_nat (length w))" "v @ xs = w @ ys"
    by (simp_all add: update_os_string_def)
  then have "unat (of_nat (length v) :: u64) = unat (of_nat (length w) :: u64)" by simp
  with assms(2,3) have "length v = length w" by (simp add: unat_of_nat)
  with parts(2) show ?thesis by simp
qed

lemma frames_inj:
  assumes "concat (map update_os_string vs) = concat (map update_os_string ws)"
    and "list_all (\<lambda>v. length v < 2 ^ 64) vs" "list_all (\<lambda>w. length w < 2 ^ 64) ws"
  shows "vs = ws"
  using assms
proof (induction vs arbitrary: ws)
  case Nil
  then show ?case by (cases ws) simp_all
next
  case (Cons v vs)
  from Cons.prems(1) obtain w us where ws: "ws = w # us" by (cases ws) simp_all
  with Cons.prems have "v = w \<and> concat (map update_os_string vs) = concat (map update_os_string us)"
    by (intro update_os_string_split) simp_all
  with Cons.IH [of us] Cons.prems ws show ?case by simp
qed

lemma argv_message_inj:
  assumes "list_all (\<lambda>v. length v < 2 ^ 64) (e # vs)" "list_all (\<lambda>v. length v < 2 ^ 64) (f # ws)"
  shows "argv_message e vs = argv_message f ws \<longleftrightarrow> e = f \<and> vs = ws"
  using frames_inj [of "e # vs" "f # ws"] assms unfolding argv_message_def by auto

section \<open>Signals go to the process they are meant for\<close>

text \<open>At the time of the signal, the process with that number had the identity.\<close>

definition sent_to :: "(bytes \<Rightarrow> bytes) \<Rightarrow> os \<Rightarrow> 'a process_identity_scheme \<Rightarrow> sent_signal \<Rightarrow> bool" where
  "sent_to sha256 os i g \<longleftrightarrow> sg_pid g = id_pid i \<and> verify_at sha256 os i (sg_time g) = Inr ()"

definition punctual :: "os \<Rightarrow> bool" where
  "punctual os \<longleftrightarrow> os_overrun os = (\<lambda>_. 0)"

lemma verify_at_ok:
  "verify_at sha256 os i t = Inr () \<longleftrightarrow>
     (\<exists>p. os_observe os t (id_pid i) = Some (Some p) \<and> identity_matches sha256 i p)"
  by (auto simp: verify_at_def split: option.splits)

lemma verify_at_gone: "verify_at sha256 os i t = Inl PcNotRunning \<longleftrightarrow> os_observe os t (id_pid i) = Some None"
  by (auto simp: verify_at_def split: option.splits)

lemma await_gone_result:
  "case await_gone sha256 os i poll deadline now of (t, r) \<Rightarrow>
     now \<le> t \<and> (r = Inr True \<longrightarrow> os_observe os t (id_pid i) = Some None) \<and> r \<noteq> Inl PcNotRunning
     \<and> (r = Inr False \<longrightarrow> 0 < poll \<longrightarrow> deadline \<le> t) \<and> (punctual os \<longrightarrow> t \<le> max now deadline)"
proof (induction sha256 os i poll deadline now rule: await_gone.induct)
  case (1 sha256 os i poll deadline now)
  let ?t = "after_sleep os now (min poll (deadline - now))"
  have t: "now \<le> ?t" "punctual os \<Longrightarrow> ?t \<le> max now deadline"
    by (auto simp: after_sleep_def punctual_def)
  show ?case
  proof (cases "verify_at sha256 os i ?t = Inr () \<and> ?t < deadline \<and> 0 < poll")
    case True
    then have "await_gone sha256 os i poll deadline now = await_gone sha256 os i poll deadline ?t"
      by (subst await_gone.simps) (simp add: Let_def)
    with 1 [OF refl _ ] True t show ?thesis by (fastforce split: prod.splits)
  next
    case False
    with t show ?thesis
      by (subst await_gone.simps)
        (auto simp: Let_def verify_at_gone split: sum.split process_control_error.split)
  qed
qed

lemma wp_wait_gone:
  assumes "\<And>t. \<lbrakk>cw_now w \<le> t; punctual os \<Longrightarrow> t \<le> cw_now w + timeout\<rbrakk> \<Longrightarrow>
      (os_observe os t (id_pid i) = Some None \<longrightarrow> Q True (w\<lparr>cw_now := t\<rparr>))
      \<and> (cw_now w + timeout \<le> t \<longrightarrow> Q False (w\<lparr>cw_now := t\<rparr>)) \<and> (\<forall>e. e \<noteq> PcNotRunning \<longrightarrow> E e (w\<lparr>cw_now := t\<rparr>))"
    and "0 < poll"
  shows "wp (wait_gone sha256 os i poll timeout) Q E w"
proof -
  obtain t r where run: "await_gone sha256 os i poll (cw_now w + timeout) (cw_now w) = (t, r)" by fastforce
  with await_gone_result [where ?sha256.0 = sha256 and os = os and i = i and poll = poll and deadline = "cw_now w + timeout" and now = "cw_now w"] assms(1) [of t] assms(2)
  show ?thesis unfolding wp_def wait_gone_def by (cases r; cases "projr r") auto
qed

lemma wp_verified_signal:
  "wp (verified_signal sha256 os grp i s) Q E w \<longleftrightarrow>
     (case verify_at sha256 os i (cw_now w) of
        Inl e \<Rightarrow> E e w
      | Inr _ \<Rightarrow>
          if os_signal os (cw_now w) s
          then Q () (w\<lparr>cw_sent := cw_sent w @ [\<lparr>sg_time = cw_now w, sg_group = grp, sg_pid = id_pid i, sg_signal = s\<rparr>]\<rparr>)
          else E PcIo w)"
  by (auto simp: verified_signal_def get_now_def send_signal_def seq_def fail_act_def wp_def split: sum.split)

text \<open>The signals of one attempt to stop a process: none, SIGTERM, or SIGTERM and, once the
  grace period is over, SIGKILL.\<close>

definition stop_signals ::
  "(bytes \<Rightarrow> bytes) \<Rightarrow> os \<Rightarrow> 'a process_identity_scheme \<Rightarrow> nat \<Rightarrow> bool \<Rightarrow> sent_signal list \<Rightarrow> bool" where
  "stop_signals sha256 os i timeout allow_sigkill gs \<longleftrightarrow>
     list_all (sent_to sha256 os i) gs
     \<and> (case gs of
          [] \<Rightarrow> True
        | [g] \<Rightarrow> sg_signal g = Terminate
        | [g, k] \<Rightarrow> sg_signal g = Terminate \<and> sg_signal k = Kill \<and> allow_sigkill
                      \<and> sg_time g + timeout \<le> sg_time k
        | _ \<Rightarrow> False)"

definition stopped_within ::
  "(bytes \<Rightarrow> bytes) \<Rightarrow> os \<Rightarrow> 'a process_identity_scheme \<Rightarrow> nat \<Rightarrow> nat \<Rightarrow> bool \<Rightarrow> control_world \<Rightarrow> control_world \<Rightarrow> bool" where
  "stopped_within sha256 os i timeout limit allow_sigkill w w' \<longleftrightarrow>
     (\<exists>gs. cw_sent w' = cw_sent w @ gs \<and> stop_signals sha256 os i timeout allow_sigkill gs)
     \<and> cw_now w \<le> cw_now w' \<and> (punctual os \<longrightarrow> cw_now w' \<le> cw_now w + limit)"

lemma stopped_within_start [simp]: "stopped_within sha256 os i timeout limit allow w w"
  by (auto simp: stopped_within_def stop_signals_def)

abbreviation gone_now :: "os \<Rightarrow> 'a process_identity_scheme \<Rightarrow> control_world \<Rightarrow> bool" where
  "gone_now os i w \<equiv> os_observe os (cw_now w) (id_pid i) = Some None"

text \<open>A state after SIGTERM, at some later time.\<close>

definition terminated ::
  "(bytes \<Rightarrow> bytes) \<Rightarrow> os \<Rightarrow> 'a process_identity_scheme \<Rightarrow> bool \<Rightarrow> nat \<Rightarrow> control_world \<Rightarrow> control_world \<Rightarrow> bool" where
  "terminated sha256 os i grp timeout w v \<longleftrightarrow>
     cw_sent v = cw_sent w @ [\<lparr>sg_time = cw_now w, sg_group = grp, sg_pid = id_pid i, sg_signal = Terminate\<rparr>]
     \<and> verify_at sha256 os i (cw_now w) = Inr ()
     \<and> cw_now w \<le> cw_now v \<and> (punctual os \<longrightarrow> cw_now v \<le> cw_now w + timeout)"

lemma terminated_stopped:
  "terminated sha256 os i grp timeout w v \<Longrightarrow> timeout \<le> limit \<Longrightarrow> stopped_within sha256 os i timeout limit allow w v"
  by (auto simp: terminated_def stopped_within_def stop_signals_def sent_to_def)

lemma kill_and_wait_rule:
  assumes "terminated sha256 os i grp timeout w v" "cw_now w + timeout \<le> cw_now v" "0 < poll"
  shows "wp (kill_and_wait sha256 os grp i timeout poll)
    (\<lambda>_ u. stopped_within sha256 os i timeout (2 * timeout) True w u \<and> gone_now os i u)
    (\<lambda>e u. stopped_within sha256 os i timeout (2 * timeout) True w u \<and> (e = PcNotRunning \<longrightarrow> gone_now os i u)) v"
proof -
  have two: "timeout \<le> 2 * timeout" by simp
  note early = terminated_stopped [OF assms(1) two]
  show ?thesis
    unfolding kill_and_wait_def wp_seq wp_verified_signal wp_require_ok
    using early assms
    by (auto intro!: wp_wait_gone split: sum.split
        simp: verify_at_gone stopped_within_def terminated_def stop_signals_def sent_to_def)
qed

lemma stop_rule:
  assumes "0 < timeout" "0 < poll"
  shows "wp (on_result (verified_signal sha256 os grp i Terminate)
      (\<lambda>_. seq (wait_gone sha256 os i poll timeout) (\<lambda>gone.
         if gone then return_act ()
         else if \<not> allow then fail_act PcSigkillNotAllowed
         else kill_and_wait sha256 os grp i timeout poll))
      (\<lambda>e. if e = PcNotRunning then return_act () else fail_act e))
    (\<lambda>_ u. stopped_within sha256 os i timeout (2 * timeout) allow w u \<and> gone_now os i u)
    (\<lambda>e u. stopped_within sha256 os i timeout (2 * timeout) allow w u \<and> (e = PcNotRunning \<longrightarrow> gone_now os i u)) w"
proof -
  let ?G = "\<lparr>sg_time = cw_now w, sg_group = grp, sg_pid = id_pid i, sg_signal = Terminate\<rparr>"
  note kill = kill_and_wait_rule [where w = w and poll = poll, OF _ _ assms(2)]
  have late: "stopped_within sha256 os i timeout (2 * timeout) a w v"
    if "terminated sha256 os i grp timeout w v" for v a
    using that by (rule terminated_stopped) simp
  have termd: "terminated sha256 os i grp timeout w (w\<lparr>cw_sent := cw_sent w @ [?G], cw_now := t\<rparr>)"
    if "verify_at sha256 os i (cw_now w) = Inr ()" "cw_now w \<le> t" "punctual os \<Longrightarrow> t \<le> cw_now w + timeout" for t
    using that by (auto simp: terminated_def)
  show ?thesis
    unfolding wp_on_result wp_seq wp_verified_signal
    by (auto simp: wp_return wp_fail verify_at_gone assms split: sum.split
        intro!: wp_wait_gone kill late termd)
qed

lemma stop_recovered_owned_rule:
  "wp (stop_recovered_owned sha256 os i timeout poll allow)
     (\<lambda>_ u. stopped_within sha256 os i timeout (2 * timeout) allow w u \<and> gone_now os i u)
     (\<lambda>e u. stopped_within sha256 os i timeout (2 * timeout) allow w u \<and> (e = PcNotRunning \<longrightarrow> gone_now os i u)) w"
  using stop_rule [of timeout poll sha256 os True i allow w]
  by (simp add: stop_recovered_owned_def signal_owned_def wp_fail)

lemma force_stop_approved_rule:
  "wp (force_stop_approved sha256 os i timeout poll)
     (\<lambda>_ u. stopped_within sha256 os i timeout (2 * timeout) True w u \<and> gone_now os i u)
     (\<lambda>e u. stopped_within sha256 os i timeout (2 * timeout) True w u \<and> (e = PcNotRunning \<longrightarrow> gone_now os i u)) w"
  using stop_rule [of timeout poll sha256 os False i True w]
  unfolding not_True_eq_False if_False
  by (simp add: force_stop_approved_def signal_approved_process_def wp_fail)

text \<open>An operation that only appends verified signals for the identities of a set.\<close>

definition signals_only ::
  "(sent_signal \<Rightarrow> bool) \<Rightarrow> control_world \<Rightarrow> control_world \<Rightarrow> bool" where
  "signals_only P w w' \<longleftrightarrow> (\<exists>gs. cw_sent w' = cw_sent w @ gs \<and> list_all P gs) \<and> cw_now w \<le> cw_now w'"

lemma signals_only_refl [simp]: "signals_only P w w"
  by (simp add: signals_only_def)

lemma signals_only_trans: "signals_only P u v \<Longrightarrow> signals_only P v w \<Longrightarrow> signals_only P u w"
  by (fastforce simp: signals_only_def)

lemma signals_only_time: "signals_only P u v \<Longrightarrow> cw_now v \<le> t \<Longrightarrow> signals_only P u (v\<lparr>cw_now := t\<rparr>)"
  by (auto simp: signals_only_def)

lemma signals_only_mono: "signals_only P u v \<Longrightarrow> (\<And>g. P g \<Longrightarrow> Q g) \<Longrightarrow> signals_only Q u v"
  by (auto simp: signals_only_def elim!: list.pred_mono_strong)

lemma stopped_within_only: "stopped_within sha256 os i timeout limit allow w w' \<Longrightarrow> signals_only (sent_to sha256 os i) w w'"
  by (auto simp: stopped_within_def stop_signals_def signals_only_def)

section \<open>Managed children end\<close>

lemma wait_child_exit_result:
  "case wait_child_exit_until os deadline now of (t, r) \<Rightarrow>
     now \<le> t \<and> (\<forall>status. r = Inr (Some status) \<longrightarrow> os_exit os t = Some (Some status))
     \<and> (r = Inr None \<longrightarrow> deadline \<le> t) \<and> (punctual os \<longrightarrow> t \<le> max now deadline)"
proof (induction os deadline now rule: wait_child_exit_until.induct)
  case (1 os deadline now)
  let ?t = "after_sleep os now (min (deadline - now) 50)"
  have t: "now \<le> ?t" "punctual os \<Longrightarrow> ?t \<le> max now deadline"
    by (auto simp: after_sleep_def punctual_def)
  show ?case
  proof (cases "os_exit os now = Some None \<and> now < deadline")
    case True
    then have "wait_child_exit_until os deadline now = wait_child_exit_until os deadline ?t"
      by (subst wait_child_exit_until.simps) (simp add: Let_def)
    with 1 True t show ?thesis by (fastforce split: prod.splits)
  next
    case False
    then show ?thesis
      by (subst wait_child_exit_until.simps) (auto simp: Let_def split: option.split)
  qed
qed

lemma wp_wait_exit:
  assumes "\<And>t. \<lbrakk>cw_now w \<le> t; punctual os \<Longrightarrow> t \<le> cw_now w + timeout\<rbrakk> \<Longrightarrow>
      (\<forall>status. os_exit os t = Some (Some status) \<longrightarrow> Q (Some status) (w\<lparr>cw_now := t\<rparr>))
      \<and> (cw_now w + timeout \<le> t \<longrightarrow> Q None (w\<lparr>cw_now := t\<rparr>)) \<and> (\<forall>e. E e (w\<lparr>cw_now := t\<rparr>))"
  shows "wp (wait_exit os timeout) Q E w"
proof -
  obtain t r where run: "wait_child_exit_until os (cw_now w + timeout) (cw_now w) = (t, r)" by fastforce
  with wait_child_exit_result [where os = os and deadline = "cw_now w + timeout" and now = "cw_now w"] assms [of t]
  show ?thesis unfolding wp_def wait_exit_def by (cases r; cases "projr r") auto
qed

lemma wp_unless_gone:
  "wp (unless_gone m) Q E w = wp m Q (\<lambda>e u. if e = PcNotRunning then Q () u else E e u) w"
  unfolding unless_gone_def wp_on_result if_distrib [of "\<lambda>a. wp a Q E _"] wp_return wp_fail
  by (simp add: if_distrib [of "\<lambda>a. wp a Q E"] wp_def return_act_def fail_act_def split: prod.split sum.split)

text \<open>The state of an attempt to stop a managed child, up to the end of a given window.\<close>

definition stopping ::
  "(bytes \<Rightarrow> bytes) \<Rightarrow> os \<Rightarrow> 'a process_identity_scheme \<Rightarrow> bool \<Rightarrow> nat \<Rightarrow> control_world \<Rightarrow> control_world \<Rightarrow> bool" where
  "stopping sha256 os i allow_sigkill window w v \<longleftrightarrow>
     signals_only (\<lambda>g. sent_to sha256 os i g \<and> (sg_signal g = Kill \<longrightarrow> allow_sigkill)) w v
     \<and> (punctual os \<longrightarrow> cw_now v \<le> cw_now w + window)"

lemma stopping_later:
  "\<lbrakk>stopping sha256 os i allow n w v; cw_now v \<le> t; punctual os \<Longrightarrow> t \<le> cw_now v + m\<rbrakk> \<Longrightarrow>
   stopping sha256 os i allow (n + m) w (v\<lparr>cw_now := t\<rparr>)"
  by (fastforce simp: stopping_def intro: signals_only_time)

lemma stopping_mono: "stopping sha256 os i allow n w v \<Longrightarrow> n \<le> m \<Longrightarrow> stopping sha256 os i allow m w v"
  by (auto simp: stopping_def)

lemma stopping_signal:
  assumes "stopping sha256 os i allow n w v" "s = Kill \<Longrightarrow> allow"
    and "\<And>u. stopping sha256 os i allow n w u \<Longrightarrow> cw_now u = cw_now v \<Longrightarrow> Q () u \<and> (\<forall>e. E e u)"
  shows "wp (unless_gone (signal_owned sha256 os i s)) Q E v"
proof -
  have "signals_only (\<lambda>g. sent_to sha256 os i g \<and> (sg_signal g = Kill \<longrightarrow> allow)) w
     (v\<lparr>cw_sent := cw_sent v @ [\<lparr>sg_time = cw_now v, sg_group = True, sg_pid = id_pid i, sg_signal = s\<rparr>]\<rparr>)"
    if "verify_at sha256 os i (cw_now v) = Inr ()"
    using assms(1,2) that by (auto simp: stopping_def signals_only_def sent_to_def)
  with assms show ?thesis
    by (auto simp: wp_unless_gone signal_owned_def wp_verified_signal stopping_def split: sum.split)
qed

lemma managed_stop_rule:
  "wp (managed_stop sha256 os i timeout allow)
     (\<lambda>status u. stopping sha256 os i allow (timeout + min timeout 5000) w u \<and> os_exit os (cw_now u) = Some (Some status))
     (\<lambda>_. stopping sha256 os i allow (timeout + min timeout 5000) w) w"
  (is "wp _ ?Q ?E w")
proof -
  let ?S = "\<lambda>n. stopping sha256 os i allow n w"
  have whole: "?E e v" if "?S n v" "n \<le> timeout + min timeout 5000" for e n v
    using that by (rule stopping_mono)
  let ?reap = "seq (wait_exit os (sigkill_reap_window timeout)) (\<lambda>exited. case exited of
    Some status \<Rightarrow> return_act status | None \<Rightarrow> fail_act PcStopTimeout)"
  let ?kill = "seq (unless_gone (signal_owned sha256 os i Kill)) (\<lambda>_. ?reap)"
  let ?wait = "seq (wait_exit os timeout) (\<lambda>exited. case exited of Some status \<Rightarrow> return_act status | None \<Rightarrow>
    if \<not> allow then fail_act PcSigkillNotAllowed else ?kill)"
  have reap: "wp ?reap ?Q ?E v" if "?S timeout v" for v
    unfolding wp_seq using stopping_later [OF that, of _ "min timeout 5000"]
    by (intro wp_wait_exit) (auto simp: sigkill_reap_window_def wp_return wp_fail)
  have kill: "wp ?kill ?Q ?E v" if "?S timeout v" allow for v
    unfolding wp_seq [of "unless_gone _"] by (rule stopping_signal [OF that(1)]) (use that(2) reap whole in auto)
  have grace: "?S timeout (v\<lparr>cw_now := t\<rparr>)" if "?S 0 v" "cw_now v \<le> t" "punctual os \<Longrightarrow> t \<le> cw_now v + timeout" for v t
    using stopping_later [OF that] by simp
  have wait: "wp ?wait ?Q ?E v" if "?S 0 v" for v
    unfolding wp_seq [of "wait_exit os timeout"]
  proof (rule wp_wait_exit, goal_cases)
    case (1 t)
    with that have "?S timeout (v\<lparr>cw_now := t\<rparr>)" by (intro grace)
    with kill [OF this] whole [OF this] show ?case by (auto simp: wp_return wp_fail)
  qed
  have start: "?S 0 w" by (simp add: stopping_def)
  have "wp (seq (unless_gone (signal_owned sha256 os i Terminate)) (\<lambda>_. ?wait)) ?Q ?E w"
    unfolding wp_seq [of "unless_gone _"] by (rule stopping_signal [OF start]) (use wait whole in auto)
  with whole [OF start] show ?thesis
    by (simp add: managed_stop_def wp_seq [of "try_wait os"] wp_def [of "try_wait os"] try_wait_def wp_return
        split: option.split split del: if_split)
qed

section \<open>Supervisors own what they start\<close>

lemma wp_on_process:
  "wp (on_process m) Q E s =
     wp m (\<lambda>a w. Q a (s\<lparr>su_world := w\<rparr>)) (\<lambda>e w. E e (s\<lparr>su_world := w\<rparr>)) (su_world s)"
  by (simp add: wp_def on_process_def split: prod.splits sum.splits)

lemma wp_get_state: "wp get_state Q E s = Q s s"
  by (simp add: wp_def get_state_def)

lemma slot_stop_rule:
  assumes "su_child s = Some i"
  shows "wp (slot_stop sha256 os timeout allow)
    (\<lambda>_ s'. su_child s' = None \<and> stopping sha256 os i allow (timeout + min timeout 5000) (su_world s) (su_world s')
       \<and> (\<exists>status. os_exit os (cw_now (su_world s')) = Some (Some status)))
    (\<lambda>_ s'. su_child s' = Some i \<and> stopping sha256 os i allow (timeout + min timeout 5000) (su_world s) (su_world s')) s"
  unfolding slot_stop_def wp_seq [of get_state] wp_get_state
  by (simp add: assms wp_on_result wp_seq wp_modify wp_fail wp_on_process)
    (rule wp_mono [OF managed_stop_rule], auto)

lemma await_ready_result:
  "await_ready os poll deadline now = (t, Inr ()) \<Longrightarrow> now \<le> t \<and> os_exit os t = Some None"
proof (induction os poll deadline now arbitrary: t rule: await_ready.induct)
  case (1 os poll deadline now)
  obtain d success where http: "os_http os now = (d, success)" by fastforce
  let ?limit = "min (deadline - now) poll"
  let ?t = "now + min d ?limit"
  have running: "os_exit os now = Some None" "now < deadline"
    using "1.prems" by (subst (asm) await_ready.simps, auto split: option.splits if_splits)+
  show ?case
  proof (cases "success \<and> d \<le> ?limit")
    case True
    with "1.prems" running http show ?thesis
      by (subst (asm) await_ready.simps) (auto simp: Let_def split: option.splits)
  next
    case False
    then have more: "\<not> (deadline \<le> ?t \<or> poll = 0)"
      and rest: "await_ready os poll deadline (after_sleep os ?t (min (deadline - ?t) poll)) = (t, Inr ())"
      using "1.prems" running http by (subst (asm) await_ready.simps; force simp: Let_def split: if_splits)+
    from "1.IH" [OF running(1) refl _ refl http [symmetric] refl refl False more rest] running(2)
    show ?thesis by (simp add: after_sleep_def)
  qed
qed

lemma wp_readiness:
  assumes "\<And>t. cw_now w \<le> t \<Longrightarrow> os_exit os t = Some None \<Longrightarrow> Q () (w\<lparr>cw_now := t\<rparr>)"
    and "\<And>e t. E e (w\<lparr>cw_now := t\<rparr>)" "\<And>e. E e w"
  shows "wp (wait_for_http_readiness os startup poll) Q E w"
proof -
  obtain t r where run: "await_ready os poll (cw_now w + startup) (cw_now w) = (t, r)" by fastforce
  with await_ready_result assms show ?thesis
    unfolding wp_def wait_for_http_readiness_def by (cases r) auto
qed

lemma wp_managed_spawn:
  assumes "\<And>i. \<lbrakk>ci_generation i = generation; ci_profile_id i = cc_profile_id c;
      verify_at sha256 os i (cw_now w) = Inr ()\<rbrakk> \<Longrightarrow> Q i w"
    and "\<And>e. E e w"
  shows "wp (managed_spawn sha256 os c out generation) Q E w"
  using assms
  by (auto simp: managed_spawn_def wp_fail wp_return wp_seq wp_def [of get_now] get_now_def Let_def
      split: option.split sum.split)

text \<open>What a start leaves in the slot: on success a child, the one that was running before or a
  new one of the requested generation; on failure no child of this start.\<close>

definition slot_filled :: "os \<Rightarrow> supervisor \<Rightarrow> u64 \<Rightarrow> supervised \<Rightarrow> supervised \<Rightarrow> bool" where
  "slot_filled os c generation s s' \<longleftrightarrow>
     (case su_child s' of
        None \<Rightarrow> False
      | Some i \<Rightarrow> (su_child s = Some i \<or> ci_generation i = generation \<and> ci_profile_id i = cc_profile_id (sc_command c))
          \<and> (cc_dspark (sc_command c) \<or> os_exit os (cw_now (su_world s')) = Some None))"

lemma abandon_rule:
  "(\<And>w e. E e (s\<lparr>su_world := w\<rparr>)) \<Longrightarrow> wp (abandon_child sha256 os c i e) Q E s"
  unfolding abandon_child_def wp_on_result wp_fail wp_on_process
  by (rule wp_mono [OF managed_stop_rule]) auto

lemma start_inner_rule:
  assumes "\<not> sc_dry_run c"
  shows "wp (start_inner sha256 os c out activation generation)
    (\<lambda>_. slot_filled os c generation s)
    (\<lambda>_ s'. su_child s' = None \<or> su_child s' = su_child s) s"
    (is "wp _ ?Q ?E s")
proof -
  let ?ready = "\<lambda>i started. on_result (on_process (wait_for_http_readiness os (sc_startup_timeout c) (sc_poll_interval c)))
      (\<lambda>_. seq (if cc_dspark (sc_command c)
                 then on_process (dspark_activated activation (started + sc_startup_timeout c))
                 else return_act True) (\<lambda>activated.
            if activated then modify_act (\<lambda>s. s\<lparr>su_child := Some i\<rparr>)
            else abandon_child sha256 os c i PcDsparkActivationTimeout))
      (abandon_child sha256 os c i)"
  have ready: "wp (?ready i started) ?Q ?E v"
    if "su_child v = None" "ci_generation i = generation" "ci_profile_id i = cc_profile_id (sc_command c)" for i started v
    unfolding wp_on_result wp_on_process
    by (rule wp_readiness)
      (auto simp: that wp_seq wp_return wp_on_process wp_modify slot_filled_def dspark_activated_def wp_def [of "dspark_activated _ _"]
        intro!: abandon_rule split: option.split)
  have spawn: "wp (seq (on_process (managed_spawn sha256 os (sc_command c) out generation)) (\<lambda>i. ?ready i started)) ?Q ?E v"
    if "su_child v = None" for started v
    unfolding wp_seq [of "on_process _"] wp_on_process [of "managed_spawn _ _ _ _ _"]
    by (rule wp_managed_spawn, rule ready) (simp_all add: that)
  show ?thesis
    using assms spawn
    by (auto simp: start_inner_def slot_begin_start_def slot_is_running_def wp_seq [of get_state] wp_get_state
        wp_seq [of "on_process get_now"] wp_on_process [of get_now] wp_def [of get_now] get_now_def
        wp_seq [of "slot_begin_start os"] wp_seq [of "slot_is_running os"] wp_seq [of "seq _ _"] wp_return wp_modify
        wp_seq [of "on_process (try_wait os)"] wp_on_process [of "try_wait os"] wp_def [of "try_wait os"] try_wait_def
        wp_seq [of "modify_act _"] slot_filled_def wp_seq [of "return_act _"]
        split: option.split)
qed

section \<open>Properties\<close>

text \<open>A process that has the sample identity for thirty milliseconds and whose number another
  process has after a second.\<close>

definition sample_process :: observed_process where
  "sample_process = \<lparr>ob_pid = 7, ob_executable = str_bytes ''/ds4'', ob_argv = [str_bytes ''-m''], ob_start_micros = 5\<rparr>"

definition sample_os :: os where
  "sample_os = \<lparr>os_observe = \<lambda>t pid. Some (
       if pid = 7 \<and> t < 30 then Some sample_process
       else if pid = 7 \<and> 1000 \<le> t then Some (sample_process\<lparr>ob_start_micros := 900\<rparr>) else None),
     os_signal = \<lambda>t s. True, os_exit = \<lambda>t. Some (if t < 30 then None else Some 0),
     os_http = \<lambda>t. (1, True), os_overrun = \<lambda>t. 0\<rparr>"

definition sample_identity :: child_identity where
  "sample_identity = process_identity.extend (from_observed (\<lambda>b. b) sample_process)
     \<lparr>ci_profile_id = ''q2'', ci_generation = 3, ci_spawned_at_millis = 0\<rparr>"

text \<open>C11. Stopping a recovered process. Whatever the process table does meanwhile, every signal
  goes to a process that had the recorded identity (number, executable, command line, start time)
  when it was sent. SIGTERM comes first; SIGKILL follows only if it is allowed and only when the
  whole grace period has passed. A stop that reports success ends with the process gone, and
  without overruns of the sleeps it ends within twice the timeout.\<close>

theorem recovered_stop_owned:
  assumes "stop_recovered_owned sha256 os i timeout poll allow w = (r, w')"
  shows "(\<exists>gs. cw_sent w' = cw_sent w @ gs \<and> stop_signals sha256 os i timeout allow gs)
    \<and> (r = Inr () \<longrightarrow> os_observe os (cw_now w') (id_pid i) = Some None)
    \<and> (punctual os \<longrightarrow> cw_now w' \<le> cw_now w + 2 * timeout)"
  using stop_recovered_owned_rule [of sha256 os i timeout poll allow w] assms
  by (auto simp: wp_def stopped_within_def split: sum.splits)

theorem recovered_stop_owned_witness:
  "(\<exists>gs. [\<lparr>sg_time = 0, sg_group = True, sg_pid = 7, sg_signal = Terminate\<rparr>] = [] @ gs
       \<and> stop_signals (\<lambda>b. b) sample_os sample_identity 100 True gs)
   \<and> os_observe sample_os 40 7 = Some None \<and> (40::nat) \<le> 0 + 2 * 100"
proof -
  have run: "stop_recovered_owned (\<lambda>b. b) sample_os sample_identity 100 20 True \<lparr>cw_now = 0, cw_sent = []\<rparr> =
      (Inr (), \<lparr>cw_now = 40, cw_sent = [\<lparr>sg_time = 0, sg_group = True, sg_pid = 7, sg_signal = Terminate\<rparr>]\<rparr>)"
    by code_simp
  have "punctual sample_os" "id_pid sample_identity = 7"
    by (simp_all add: punctual_def sample_os_def sample_identity_def from_observed_def sample_process_def process_identity.defs child_identity.defs)
  with recovered_stop_owned [OF run] show ?thesis by simp
qed

text \<open>C13. Stopping a supervised child. The supervisor gives the child up only when its exit
  status has been collected; if the stop fails, whatever the reason, the child stays in the slot.
  Every signal was sent to the child, SIGKILL only if allowed, and without overruns the stop ends
  within the grace period and the reaping window of at most five seconds.\<close>

theorem supervised_stop_keeps_child:
  assumes "slot_stop sha256 os timeout allow s = (r, s')" "su_child s = Some i"
  shows "(case r of
       Inr _ \<Rightarrow> su_child s' = None \<and> (\<exists>status. os_exit os (cw_now (su_world s')) = Some (Some status))
     | Inl _ \<Rightarrow> su_child s' = Some i)
    \<and> (\<exists>gs. cw_sent (su_world s') = cw_sent (su_world s) @ gs
         \<and> list_all (\<lambda>g. sent_to sha256 os i g \<and> (sg_signal g = Kill \<longrightarrow> allow)) gs)
    \<and> (punctual os \<longrightarrow> cw_now (su_world s') \<le> cw_now (su_world s) + timeout + min timeout 5000)"
  using slot_stop_rule [OF assms(2), of sha256 os timeout allow] assms(1)
  by (auto simp: wp_def stopping_def signals_only_def split: sum.splits)

theorem supervised_stop_keeps_child_witness:
  "let s = \<lparr>su_world = \<lparr>cw_now = 0, cw_sent = []\<rparr>, su_child = Some sample_identity, su_running = False\<rparr>;
       s' = snd (slot_stop (\<lambda>b. b) sample_os 20 False s)
   in fst (slot_stop (\<lambda>b. b) sample_os 20 False s) = Inl PcSigkillNotAllowed
      \<and> su_child s' = Some sample_identity \<and> cw_now (su_world s') \<le> 0 + 20 + min 20 5000"
proof -
  let ?s = "\<lparr>su_world = \<lparr>cw_now = 0, cw_sent = []\<rparr>, su_child = Some sample_identity, su_running = False\<rparr>"
  have "punctual sample_os" by (simp add: punctual_def sample_os_def)
  moreover have "fst (slot_stop (\<lambda>b. b) sample_os 20 False ?s) = Inl PcSigkillNotAllowed" by code_simp
  ultimately show ?thesis
    using supervised_stop_keeps_child [of "\<lambda>b. b" sample_os 20 False ?s, OF prod.collapse [symmetric]]
    by (simp add: Let_def)
qed

definition sent_to_one :: "(bytes \<Rightarrow> bytes) \<Rightarrow> os \<Rightarrow> startup_candidate list \<Rightarrow> sent_signal \<Rightarrow> bool" where
  "sent_to_one sha256 os cs g \<longleftrightarrow> list_ex (\<lambda>c. sent_to sha256 os (from_observed sha256 (cn_observed c)) g) cs"

lemma stop_candidates_rule:
  "wp (stop_candidates sha256 os timeout cs)
     (\<lambda>_. signals_only (sent_to_one sha256 os cs) w) (\<lambda>_. signals_only (sent_to_one sha256 os cs) w) w"
proof (induction cs arbitrary: w)
  case Nil
  show ?case by (simp add: wp_return)
next
  case (Cons c cs)
  let ?P = "sent_to_one sha256 os (c # cs)"
  have one: "signals_only ?P w v" if "stopped_within sha256 os (from_observed sha256 (cn_observed c)) timeout n a w v" for n a v
    using stopped_within_only [OF that] by (rule signals_only_mono) (simp add: sent_to_one_def)
  have rest: "signals_only ?P w u" if "signals_only ?P w v" "signals_only (sent_to_one sha256 os cs) v u" for u v
    using that(1) signals_only_mono [OF that(2)] by (rule signals_only_trans) (simp add: sent_to_one_def)
  show ?case
    unfolding stop_candidates.simps wp_seq
    by (rule wp_mono [OF force_stop_approved_rule])
      (auto dest!: one intro: rest intro!: wp_mono [OF Cons.IH])
qed

lemma candidate_not_self:
  "c \<in> set (discover_startup_processes current_pid configured ps) \<Longrightarrow>
   ob_pid (cn_observed c) \<noteq> current_pid \<and> cn_observed c \<in> set ps \<and> candidate_kind configured (cn_observed c) = Some (cn_kind c)"
  by (auto simp: discover_startup_processes_def List.map_filter_def)

text \<open>C14. Startup cleanup. The processes it signals were listed, are siderostat or ds4
  processes by the name of their executable, are not the process itself, and at the time of the
  signal still had the identity they were listed with. A cleanup that is declined signals
  nobody.\<close>

theorem startup_cleanup_spares_others:
  assumes "cleanup_startup_processes sha256 os current_pid configured (Some ps) timeout decline auto w = (r, w')"
  shows "\<exists>gs. cw_sent w' = cw_sent w @ gs
    \<and> (decline \<or> \<not> auto \<longrightarrow> gs = [])
    \<and> list_all (\<lambda>g. sg_pid g \<noteq> current_pid
        \<and> (\<exists>p\<in>set ps. candidate_kind configured p \<noteq> None \<and> sent_to sha256 os (from_observed sha256 p) g)) gs"
proof -
  let ?cs = "discover_startup_processes current_pid configured ps"
  let ?Q = "\<lambda>g. sg_pid g \<noteq> current_pid
      \<and> (\<exists>p\<in>set ps. candidate_kind configured p \<noteq> None \<and> sent_to sha256 os (from_observed sha256 p) g)"
  have pids: "?Q g" if "sent_to_one sha256 os ?cs g" for g
    using that candidate_not_self [of _ current_pid configured ps]
    by (fastforce simp: sent_to_one_def sent_to_def from_observed_def list_ex_iff)
  let ?v = "w\<lparr>cw_now := after_sleep os (cw_now w) 5000\<rparr>"
  obtain r1 v1 where run: "stop_candidates sha256 os timeout ?cs ?v = (r1, v1)" by fastforce
  with stop_candidates_rule [of sha256 os timeout ?cs ?v]
  have "signals_only (sent_to_one sha256 os ?cs) ?v v1"
    by (auto simp: wp_def split: sum.splits)
  then have "signals_only ?Q ?v v1" by (rule signals_only_mono) (rule pids)
  moreover have "w' = (if ?cs = [] \<or> decline \<or> \<not> auto then w else v1)"
    using assms run
    by (auto simp: cleanup_startup_processes_def Let_def seq_def get_now_def set_now_def modify_act_def return_act_def
        split: if_splits prod.splits sum.splits)
  ultimately show ?thesis by (auto simp: signals_only_def)
qed

theorem startup_cleanup_spares_others_witness:
  "let ps = [sample_process, sample_process\<lparr>ob_pid := 9, ob_executable := str_bytes ''/bin/sh''\<rparr>,
             sample_process\<lparr>ob_pid := 1\<rparr>];
       os = sample_os\<lparr>os_observe := \<lambda>t pid. Some (if pid = 7 \<and> t < 5010 then Some sample_process else None)\<rparr>;
       run = cleanup_startup_processes (\<lambda>b. b) os 1 (str_bytes ''/opt/ds4'') (Some ps) 100 False True
               \<lparr>cw_now = 0, cw_sent = []\<rparr>
   in fst run = Inr (Approved 1) \<and> map sg_pid (cw_sent (snd run)) = [7]
      \<and> list_all (\<lambda>g. sg_pid g \<noteq> 1) (cw_sent (snd run))"
proof -
  let ?ps = "[sample_process, sample_process\<lparr>ob_pid := 9, ob_executable := str_bytes ''/bin/sh''\<rparr>,
             sample_process\<lparr>ob_pid := 1\<rparr>]"
  let ?os = "sample_os\<lparr>os_observe := \<lambda>t pid. Some (if pid = 7 \<and> t < 5010 then Some sample_process else None)\<rparr>"
  let ?run = "cleanup_startup_processes (\<lambda>b. b) ?os 1 (str_bytes ''/opt/ds4'') (Some ?ps) 100 False True
    \<lparr>cw_now = 0, cw_sent = []\<rparr>"
  have found: "discover_startup_processes 1 (str_bytes ''/opt/ds4'') ?ps = [\<lparr>cn_kind = Ds4, cn_observed = sample_process\<rparr>]"
    by code_simp
  have present: "identity_matches (\<lambda>b. b) (from_observed (\<lambda>b. b) sample_process) sample_process"
    by (simp add: identity_matches_def from_observed_def)
  have pid: "id_pid (from_observed (\<lambda>b. b) sample_process) = 7"
    by (simp add: from_observed_def sample_process_def)
  have run: "?run = (Inr (Approved 1), \<lparr>cw_now = 5020,
      cw_sent = [\<lparr>sg_time = 5000, sg_group = False, sg_pid = 7, sg_signal = Terminate\<rparr>]\<rparr>)"
    unfolding cleanup_startup_processes_def option.case found using present
    by (simp add: pid Let_def force_stop_approved_def signal_approved_process_def
        verified_signal_def send_signal_def wait_gone_def await_gone.simps verify_at_def after_sleep_def sample_os_def
        seq_def on_result_def get_now_def set_now_def modify_act_def return_act_def)
  from startup_cleanup_spares_others [OF run] have "list_all (\<lambda>g. sg_pid g \<noteq> 1) (cw_sent (snd ?run))"
    unfolding run list_all_iff by auto
  with run show ?thesis by (simp add: Let_def)
qed

end
