(* ===== verification/Op_Lease.thy ===== *)
theory Op_Lease
  imports Sds_Prelude
begin

text \<open>
  The single-owner operation lease and the idempotency registry of
  \<open>src/cluster/operation.rs\<close>, and the interface of an idempotency registry that
  the operation lease, the policy control state and the control processor all provide.
  A \<open>HashMap\<close> is a partial map; its iteration order, which the sources use only to
  name one active kind, is the order of \<open>all_kinds\<close>.
\<close>

section \<open>Idempotency registries\<close>

datatype idempotency_outcome = NewRequest | ExistingRequest | ConflictingRequest

text \<open>
  The contract: an unknown key is recorded with its body; a known key answers whether the
  body is the recorded one and changes nothing.
\<close>

locale idempotency_registry =
  fixes lookup :: "'s \<Rightarrow> 'k \<Rightarrow> 'b option"
    and register :: "'s \<Rightarrow> 'k \<Rightarrow> 'b \<Rightarrow> idempotency_outcome \<times> 's"
  assumes register_new:
      "lookup s k = None \<Longrightarrow> fst (register s k b) = NewRequest \<and>
       lookup (snd (register s k b)) = (lookup s)(k \<mapsto> b)"
    and register_known:
      "lookup s k = Some b' \<Longrightarrow>
       register s k b = (if b' = b then ExistingRequest else ConflictingRequest, s)"
begin

lemma register_keeps: "lookup s k = Some b \<Longrightarrow> lookup (snd (register s k' b')) k = Some b"
  using register_new [of s k' b'] by (cases "lookup s k'") (auto simp: register_known)

lemma run_keeps:
  "lookup s k = Some b \<Longrightarrow>
   lookup (foldl (\<lambda>s (k, b). snd (register s k b)) s reqs) k = Some b"
  by (induction reqs arbitrary: s) (auto simp: register_keeps split: prod.splits)

lemma first_body_wins:
  assumes "lookup s k = None"
    and "t = foldl (\<lambda>s (k, b). snd (register s k b)) (snd (register s k b)) reqs"
  shows "fst (register s k b) = NewRequest \<and>
    register t k b' = (if b' = b then ExistingRequest else ConflictingRequest, t)"
proof -
  from register_new [OF assms(1)] have n: "fst (register s k b) = NewRequest"
    and l: "lookup (snd (register s k b)) k = Some b" by simp_all
  from run_keeps [OF l] have "lookup t k = Some b" by (simp add: assms(2))
  from register_known [OF this] n show ?thesis by auto
qed

end

section \<open>The operation lease\<close>

datatype operation_id = OperationId nat

datatype operation_kind =
  OpPromotion | OpDemotion | OpRestart | OpRecovery | OpActivation | OpPolicy

definition all_kinds :: "operation_kind list" where
  "all_kinds = [OpPromotion, OpDemotion, OpRestart, OpRecovery, OpActivation, OpPolicy]"

fun kind_name :: "operation_kind \<Rightarrow> string" where
  "kind_name OpPromotion = ''promotion''"
| "kind_name OpDemotion = ''demotion''"
| "kind_name OpRestart = ''restart''"
| "kind_name OpRecovery = ''recovery''"
| "kind_name OpActivation = ''activation''"
| "kind_name OpPolicy = ''policy''"

record operation_envelope =
  env_id :: operation_id
  env_body_hash :: u64

record operation_lease =
  owners :: "operation_kind \<rightharpoonup> operation_id"
  idempotency :: "operation_id \<rightharpoonup> u64"
  promotion_blocked :: bool

datatype operation_lease_error = Busy operation_kind | PromotionBlocked

definition lease_new :: operation_lease where
  "lease_new = \<lparr>owners = Map.empty, idempotency = Map.empty, promotion_blocked = False\<rparr>"

definition register_idempotent ::
  "operation_lease \<Rightarrow> operation_envelope \<Rightarrow> idempotency_outcome \<times> operation_lease" where
  "register_idempotent l e =
     (case idempotency l (env_id e) of
        Some h \<Rightarrow> (if h = env_body_hash e then ExistingRequest else ConflictingRequest, l)
      | None \<Rightarrow> (NewRequest,
          l\<lparr>idempotency := (idempotency l)(env_id e \<mapsto> env_body_hash e)\<rparr>))"

definition release_idempotent :: "operation_lease \<Rightarrow> operation_id \<Rightarrow> operation_lease" where
  "release_idempotent l i = l\<lparr>idempotency := (idempotency l)(i := None)\<rparr>"

definition active_kind :: "operation_lease \<Rightarrow> operation_kind option" where
  "active_kind l = find (\<lambda>k. owners l k \<noteq> None) all_kinds"

definition try_acquire ::
  "operation_lease \<Rightarrow> operation_kind \<Rightarrow> operation_id \<Rightarrow> operation_lease_error + operation_lease" where
  "try_acquire l k i =
     (if k = OpPromotion \<and> promotion_blocked l then Inl PromotionBlocked
      else case active_kind l of
        Some a \<Rightarrow> Inl (Busy a)
      | None \<Rightarrow> Inr (l\<lparr>owners := (owners l)(k \<mapsto> i)\<rparr>))"

definition release :: "operation_lease \<Rightarrow> operation_kind \<Rightarrow> operation_id \<Rightarrow> operation_lease" where
  "release l k i =
     (if owners l k = Some i then l\<lparr>owners := (owners l)(k := None)\<rparr> else l)"

definition owner :: "operation_lease \<Rightarrow> operation_kind \<Rightarrow> operation_id option" where
  "owner l k = owners l k"

definition block_promotion :: "operation_lease \<Rightarrow> operation_lease" where
  "block_promotion l = l\<lparr>promotion_blocked := True\<rparr>"

definition unblock_promotion :: "operation_lease \<Rightarrow> operation_lease" where
  "unblock_promotion l = l\<lparr>promotion_blocked := False\<rparr>"

definition promotion_allowed :: "operation_lease \<Rightarrow> bool" where
  "promotion_allowed l \<longleftrightarrow> \<not> promotion_blocked l"

section \<open>Specification: one lock for all kinds\<close>

text \<open>
  The lease promises one owner over all kinds. The specification is a single optional
  owner; \<open>held\<close> is the abstraction function, \<open>single\<close> the representation
  invariant.
\<close>

datatype lease_op =
  OpAcquire operation_kind operation_id
| OpRelease operation_kind operation_id
| OpRegister operation_envelope
| OpForget operation_id
| OpBlock
| OpUnblock

fun lease_step :: "operation_lease \<Rightarrow> lease_op \<Rightarrow> operation_lease_error + operation_lease" where
  "lease_step l (OpAcquire k i) = try_acquire l k i"
| "lease_step l (OpRelease k i) = Inr (release l k i)"
| "lease_step l (OpRegister e) = Inr (snd (register_idempotent l e))"
| "lease_step l (OpForget i) = Inr (release_idempotent l i)"
| "lease_step l OpBlock = Inr (block_promotion l)"
| "lease_step l OpUnblock = Inr (unblock_promotion l)"

record lock =
  holder :: "(operation_kind \<times> operation_id) option"
  no_promotion :: bool

fun lock_step :: "lock \<Rightarrow> lease_op \<Rightarrow> operation_lease_error + lock" where
  "lock_step s (OpAcquire k i) =
     (if k = OpPromotion \<and> no_promotion s then Inl PromotionBlocked
      else case holder s of
        Some (a, _) \<Rightarrow> Inl (Busy a)
      | None \<Rightarrow> Inr (s\<lparr>holder := Some (k, i)\<rparr>))"
| "lock_step s (OpRelease k i) =
     Inr (if holder s = Some (k, i) then s\<lparr>holder := None\<rparr> else s)"
| "lock_step s (OpRegister e) = Inr s"
| "lock_step s (OpForget i) = Inr s"
| "lock_step s OpBlock = Inr (s\<lparr>no_promotion := True\<rparr>)"
| "lock_step s OpUnblock = Inr (s\<lparr>no_promotion := False\<rparr>)"

definition single :: "operation_lease \<Rightarrow> bool" where
  "single l \<longleftrightarrow> (\<forall>k k'. owners l k \<noteq> None \<longrightarrow> owners l k' \<noteq> None \<longrightarrow> k = k')"

definition held :: "operation_lease \<Rightarrow> lock" where
  "held l =
     \<lparr>holder = Option.bind (active_kind l) (\<lambda>k. map_option (Pair k) (owners l k)),
      no_promotion = promotion_blocked l\<rparr>"

section \<open>Lemmas\<close>

lemma set_all_kinds: "set all_kinds = UNIV"
proof -
  have "k \<in> set all_kinds" for k by (cases k) (simp_all add: all_kinds_def)
  then show ?thesis by auto
qed

lemma active_kind_None: "active_kind l = None \<longleftrightarrow> owners l = Map.empty"
  by (auto simp: active_kind_def find_None_iff set_all_kinds)

lemma active_kind_Some: "active_kind l = Some k \<Longrightarrow> owners l k \<noteq> None"
  unfolding active_kind_def by (auto simp: find_Some_iff)

lemma active_kind_single:
  assumes "single l" "owners l k = Some i"
  shows "active_kind l = Some k"
proof -
  from assms(2) have "owners l \<noteq> Map.empty" by auto
  then obtain k' where k': "active_kind l = Some k'" using active_kind_None by (cases "active_kind l") auto
  from active_kind_Some [OF k'] assms show ?thesis
    using k' by (auto simp: single_def)
qed

lemma held_holder: "single l \<Longrightarrow> holder (held l) = Some (k, i) \<longleftrightarrow> owners l k = Some i"
  by (auto simp: held_def Option.bind_eq_Some_conv active_kind_single)

lemma held_None: "holder (held l) = None \<longleftrightarrow> owners l = Map.empty"
  using active_kind_Some [of l]
  by (cases "active_kind l") (auto simp: held_def active_kind_None)

lemma single_new [simp]: "single lease_new"
  by (simp add: single_def lease_new_def)

lemma single_acquire: "try_acquire l k i = Inr l' \<Longrightarrow> single l'"
  by (auto simp: try_acquire_def single_def active_kind_None split: if_splits option.splits)

lemma single_release: "single l \<Longrightarrow> single (release l k i)"
  by (auto simp: release_def single_def)

lemma single_frame: "owners l' = owners l \<Longrightarrow> single l' = single l"
  by (simp add: single_def)

lemma held_frame:
  "owners l' = owners l \<Longrightarrow>
   held l' = \<lparr>holder = holder (held l), no_promotion = promotion_blocked l'\<rparr>"
  by (simp add: held_def active_kind_def)

lemma owners_frame [simp]:
  "owners (snd (register_idempotent l e)) = owners l"
  "owners (release_idempotent l i) = owners l"
  "owners (block_promotion l) = owners l"
  "owners (unblock_promotion l) = owners l"
  by (auto simp: register_idempotent_def release_idempotent_def block_promotion_def
      unblock_promotion_def split: option.splits)

lemma blocked_frame [simp]:
  "promotion_blocked (snd (register_idempotent l e)) = promotion_blocked l"
  "promotion_blocked (release_idempotent l i) = promotion_blocked l"
  "promotion_blocked (release l k i) = promotion_blocked l"
  by (auto simp: register_idempotent_def release_idempotent_def release_def split: option.splits)

interpretation lm: fallible_machine "\<lambda>l e. True" lease_step single
proof
  fix l e l'
  assume "single l" "lease_step l e = Inr l'"
  then show "single l'"
    by (cases e) (auto simp: single_release dest: single_acquire simp: single_frame [OF owners_frame(1)]
        single_frame [OF owners_frame(2)] single_frame [OF owners_frame(3)]
        single_frame [OF owners_frame(4)])
qed

interpretation reg: idempotency_registry
  idempotency "\<lambda>l k b. register_idempotent l \<lparr>env_id = k, env_body_hash = b\<rparr>"
  by unfold_locales (auto simp: register_idempotent_def)

lemma held_acquire:
  assumes "single l"
  shows "map_sum id held (try_acquire l k i) = lock_step (held l) (OpAcquire k i)"
proof (cases "active_kind l")
  case None
  then have e: "owners l = Map.empty" by (simp add: active_kind_None)
  have "holder (held (l\<lparr>owners := [k \<mapsto> i]\<rparr>)) = Some (k, i)"
    by (subst held_holder) (simp_all add: single_def)
  with e None show ?thesis
    by (auto simp: try_acquire_def held_None held_def)
next
  case (Some a)
  then obtain j where j: "owners l a = Some j" using active_kind_Some by blast
  then have "holder (held l) = Some (a, j)" using held_holder [OF assms] by simp
  with Some show ?thesis by (simp add: try_acquire_def held_def)
qed

lemma held_release:
  assumes "single l"
  shows "held (release l k i) =
    (if holder (held l) = Some (k, i) then (held l)\<lparr>holder := None\<rparr> else held l)"
proof (cases "owners l k = Some i")
  case True
  with assms have "owners (release l k i) = Map.empty"
    by (auto simp: release_def single_def fun_eq_iff)
  then have "holder (held (release l k i)) = None" by (simp add: held_None)
  with True held_holder [OF assms] show ?thesis by (simp add: held_def)
next
  case False
  with held_holder [OF assms] show ?thesis by (simp add: release_def)
qed

section \<open>Properties\<close>



text \<open>
  A request body registered under an operation identifier is remembered: whatever is
  registered afterwards, the same identifier with the same body hash answers
  \<open>Existing\<close> and with another one \<open>Conflict\<close>, and neither changes the registry.
\<close>
lemma operation_idempotent:
  assumes "idempotency l i = None"
    and "t = foldl (\<lambda>l (k, b). snd (register_idempotent l \<lparr>env_id = k, env_body_hash = b\<rparr>))
      (snd (register_idempotent l \<lparr>env_id = i, env_body_hash = h\<rparr>)) reqs"
  shows "fst (register_idempotent l \<lparr>env_id = i, env_body_hash = h\<rparr>) = NewRequest \<and>
    register_idempotent t \<lparr>env_id = i, env_body_hash = h'\<rparr> =
      (if h' = h then ExistingRequest else ConflictingRequest, t)"
  by (rule reg.first_body_wins [OF assms])

end
