(* ===== verification/Policy_Control.thy ===== *)
theory Policy_Control
  imports Op_Lease
begin

text \<open>
  The operation policy (\<open>src/cluster/policy.rs\<close>), the signed policy control state,
  the two-node coordination of a forced standalone and the gate of all automatic
  promotions (\<open>src/cluster/production/policy.rs\<close>), the gate of tensor-parallel
  starts (\<open>src/cluster/production/tp.rs\<close>) and the bounded tensor-parallel recovery
  (\<open>src/cluster/recovery_tp.rs\<close>). The hasher of the standard library, whose algorithm
  is unspecified, is the parameter \<open>hash\<close> of \<open>validate\<close>.
\<close>

section \<open>Policy control requests\<close>

datatype operation_policy = Automatic | ForcedStandalone

datatype policy_control_phase = Prepare | Commit | Abort

record policy_control_request =
  pr_protocol_version :: u16
  pr_policy_epoch :: u64
  pr_operation_id :: operation_id
  pr_phase :: policy_control_phase
  pr_desired :: operation_policy

datatype policy_control_error =
  UnsupportedPeer
| Unauthenticated
| StaleEpoch (expected_epoch: u64) (received_epoch: u64)
| IdempotencyConflict

fun policy_http_status :: "policy_control_error \<Rightarrow> nat" where
  "policy_http_status UnsupportedPeer = 403"
| "policy_http_status Unauthenticated = 403"
| "policy_http_status (StaleEpoch e r) = 409"
| "policy_http_status IdempotencyConflict = 409"

datatype policy_control_verdict = VerdictNew | VerdictDuplicate

record policy_control_state =
  epoch :: u64
  policy_idempotency :: "(operation_id \<times> policy_control_phase) \<rightharpoonup> u64"

definition policy_control_protocol_version :: u16 where
  "policy_control_protocol_version = 1"

definition policy_state_new :: policy_control_state where
  "policy_state_new = \<lparr>epoch = 0, policy_idempotency = Map.empty\<rparr>"

definition advance_epoch :: "policy_control_state \<Rightarrow> u64 \<Rightarrow> policy_control_state" where
  "advance_epoch s next = s\<lparr>epoch := max (epoch s) next\<rparr>"

definition canonical_request_hash ::
  "(u64 \<times> policy_control_phase \<times> operation_policy \<Rightarrow> u64) \<Rightarrow> policy_control_request \<Rightarrow> u64" where
  "canonical_request_hash hash r = hash (pr_policy_epoch r, pr_phase r, pr_desired r)"

text \<open>The last step of \<open>validate\<close>: the registry lookup and insertion.\<close>

definition policy_register ::
  "policy_control_state \<Rightarrow> operation_id \<times> policy_control_phase \<Rightarrow> u64 \<Rightarrow>
   idempotency_outcome \<times> policy_control_state" where
  "policy_register s k h =
     (case policy_idempotency s k of
        Some e \<Rightarrow> (if e = h then ExistingRequest else ConflictingRequest, s)
      | None \<Rightarrow> (NewRequest, s\<lparr>policy_idempotency := (policy_idempotency s)(k \<mapsto> h)\<rparr>))"

definition policy_validate ::
  "(u64 \<times> policy_control_phase \<times> operation_policy \<Rightarrow> u64) \<Rightarrow>
   policy_control_state \<Rightarrow> policy_control_request \<Rightarrow> bool \<Rightarrow>
   policy_control_error + (policy_control_verdict \<times> policy_control_state)" where
  "policy_validate hash s r signature_ok =
     (if pr_protocol_version r \<noteq> policy_control_protocol_version then Inl UnsupportedPeer
      else if \<not> signature_ok then Inl Unauthenticated
      else if pr_policy_epoch r < epoch s then Inl (StaleEpoch (epoch s) (pr_policy_epoch r))
      else case policy_register s (pr_operation_id r, pr_phase r) (canonical_request_hash hash r) of
        (ExistingRequest, s') \<Rightarrow> Inr (VerdictDuplicate, s')
      | (ConflictingRequest, s') \<Rightarrow> Inl IdempotencyConflict
      | (NewRequest, s') \<Rightarrow> Inr (VerdictNew, s'))"

definition policy_release :: "policy_control_state \<Rightarrow> operation_id \<Rightarrow> policy_control_state" where
  "policy_release s i =
     s\<lparr>policy_idempotency := retain (\<lambda>(j, _) _. j \<noteq> i) (policy_idempotency s)\<rparr>"

section \<open>Applying a forced standalone on both nodes\<close>

datatype force_node_phase = NotStarted | IntentSaved | ForceDraining | LocalReady | Applied

record force_apply =
  fa_policy_epoch :: u64
  fa_operation_id :: operation_id
  fa_local :: force_node_phase
  fa_peer :: force_node_phase
  fa_drain_failed :: bool
  fa_complete :: bool

definition force_begin :: "u64 \<Rightarrow> operation_id \<Rightarrow> force_apply" where
  "force_begin e i = \<lparr>fa_policy_epoch = e, fa_operation_id = i, fa_local = IntentSaved,
     fa_peer = NotStarted, fa_drain_failed = False, fa_complete = False\<rparr>"

definition recompute_complete :: "force_apply \<Rightarrow> force_apply" where
  "recompute_complete f = f\<lparr>fa_complete :=
     \<not> fa_drain_failed f \<and> fa_local f = Applied \<and> fa_peer f = Applied\<rparr>"

datatype force_op =
  PeerIntentSaved | BeginDrain | DrainTimeout | NoteLocalReady | NotePeerReady
| NoteLocalApplied | NotePeerApplied

fun force_step :: "force_apply \<Rightarrow> force_op \<Rightarrow> force_apply" where
  "force_step f PeerIntentSaved = f\<lparr>fa_peer := IntentSaved\<rparr>"
| "force_step f BeginDrain = f\<lparr>fa_local := ForceDraining\<rparr>"
| "force_step f DrainTimeout = f\<lparr>fa_drain_failed := True\<rparr>"
| "force_step f NoteLocalReady = f\<lparr>fa_local := LocalReady\<rparr>"
| "force_step f NotePeerReady = f\<lparr>fa_peer := LocalReady\<rparr>"
| "force_step f NoteLocalApplied = recompute_complete (f\<lparr>fa_local := Applied\<rparr>)"
| "force_step f NotePeerApplied = recompute_complete (f\<lparr>fa_peer := Applied\<rparr>)"

definition force_failed :: "force_apply \<Rightarrow> bool" where
  "force_failed f = fa_drain_failed f"

section \<open>Gates\<close>

datatype automatic_promotion_verdict =
  AllowPromotion | AutoPromoteDisabled | GatePeerAbsent | EpochMismatch
| DeploymentMismatchLatch | ForcedStandaloneLatch

definition automatic_promotion_verdict ::
  "operation_policy \<Rightarrow> bool \<Rightarrow> bool \<Rightarrow> bool \<Rightarrow> u64 \<Rightarrow> u64 \<Rightarrow> automatic_promotion_verdict" where
  "automatic_promotion_verdict policy auto_promote latch peer_present local_epoch peer_epoch =
     (if policy = ForcedStandalone then ForcedStandaloneLatch
      else if \<not> auto_promote then AutoPromoteDisabled
      else if latch then DeploymentMismatchLatch
      else if \<not> peer_present then GatePeerAbsent
      else if local_epoch \<noteq> peer_epoch then EpochMismatch
      else AllowPromotion)"

text \<open>\<open>ProductionClusterRuntime::automatic_promotion_gate\<close>: the fields it reads are
  its arguments.\<close>

definition automatic_promotion_gate ::
  "operation_policy \<Rightarrow> bool \<Rightarrow> bool \<Rightarrow> bool \<Rightarrow> u64 \<Rightarrow> bool \<Rightarrow> u64 \<Rightarrow> automatic_promotion_verdict" where
  "automatic_promotion_gate policy pending auto_promote latch policy_epoch peer_present peer_epoch =
     (if pending \<and> policy = Automatic then EpochMismatch
      else automatic_promotion_verdict policy auto_promote latch peer_present policy_epoch peer_epoch)"

datatype tp_start_verdict = TpAllowed | TpPolicyForcedStandalone | TpUnsupportedPeer

definition check_tp_start :: "operation_policy \<Rightarrow> u16 option \<Rightarrow> tp_start_verdict" where
  "check_tp_start policy peer_protocol_version =
     (if policy = ForcedStandalone then TpPolicyForcedStandalone
      else if is_some_and (\<lambda>v. v \<noteq> 1) peer_protocol_version then TpUnsupportedPeer
      else TpAllowed)"

section \<open>Tensor-parallel recovery\<close>

datatype tp_failure_kind =
  WorkerCrash | CoordinatorCrash | RouteLoss | RoleSwap | FirstPrefillTimeout
| ModelMismatch | IdentityUnknown | TpDrainTimeout

datatype tp_recovery_decision =
  TpRetry | TpStopAndFallback | TpManualIntervention | TpSuppressed

record tp_recovery_tracker =
  tr_attempts :: u32
  tr_max_attempts :: u32
  tr_incident_active :: bool

definition tp_tracker_new :: "u32 \<Rightarrow> tp_recovery_tracker" where
  "tp_tracker_new m = \<lparr>tr_attempts = 0, tr_max_attempts = max m 1, tr_incident_active = False\<rparr>"

definition tp_classify ::
  "tp_recovery_tracker \<Rightarrow> tp_failure_kind \<Rightarrow> operation_policy \<Rightarrow>
   tp_recovery_tracker \<times> tp_recovery_decision" where
  "tp_classify t kind policy =
     (if policy = ForcedStandalone then (t, TpSuppressed)
      else
        let t1 = t\<lparr>tr_incident_active := True\<rparr>
        in if kind \<in> {ModelMismatch, IdentityUnknown, TpDrainTimeout}
           then (t1, TpManualIntervention)
           else if tr_attempts t < tr_max_attempts t
           then (t1\<lparr>tr_attempts := tr_attempts t + 1\<rparr>, TpRetry)
           else (t1, TpStopAndFallback))"

definition note_healthy_fallback :: "tp_recovery_tracker \<Rightarrow> tp_recovery_tracker" where
  "note_healthy_fallback t = t\<lparr>tr_attempts := 0, tr_incident_active := False\<rparr>"

definition note_unverifiable_fallback ::
  "tp_recovery_tracker \<Rightarrow> tp_recovery_tracker \<times> tp_recovery_decision" where
  "note_unverifiable_fallback t =
     (t\<lparr>tr_attempts := 0, tr_incident_active := False\<rparr>, TpManualIntervention)"

text \<open>The decisions taken for a sequence of failures within one incident.\<close>

fun tp_incident ::
  "tp_recovery_tracker \<Rightarrow> (tp_failure_kind \<times> operation_policy) list \<Rightarrow>
   tp_recovery_tracker \<times> tp_recovery_decision list" where
  "tp_incident t [] = (t, [])"
| "tp_incident t ((k, p) # fs) =
     (let (t', d) = tp_classify t k p; (t'', ds) = tp_incident t' fs in (t'', d # ds))"

section \<open>Lemmas\<close>

interpretation preg: idempotency_registry policy_idempotency policy_register
  by unfold_locales (auto simp: policy_register_def)

lemma policy_validate_Inr:
  "policy_validate hash s r ok = Inr (v, s') \<longleftrightarrow>
     pr_protocol_version r = policy_control_protocol_version \<and> ok \<and> epoch s \<le> pr_policy_epoch r \<and>
     (\<exists>out. policy_register s (pr_operation_id r, pr_phase r) (canonical_request_hash hash r) = (out, s') \<and>
       (out = NewRequest \<and> v = VerdictNew \<or> out = ExistingRequest \<and> v = VerdictDuplicate))"
  by (auto simp: policy_validate_def not_less split: idempotency_outcome.splits prod.splits)

lemma policy_register_epoch [simp]: "epoch (snd (policy_register s k h)) = epoch s"
  by (simp add: policy_register_def split: option.splits)

lemma force_failed_persists: "fa_drain_failed f \<Longrightarrow> fa_drain_failed (foldl force_step f ops)"
proof (induction ops arbitrary: f)
  case (Cons p ops)
  from Cons.prems have "fa_drain_failed (force_step f p)"
    by (cases p) (simp_all add: recompute_complete_def)
  then show ?case by (simp add: Cons.IH)
qed simp

lemma force_incomplete_after_failure:
  "fa_drain_failed f \<Longrightarrow> \<not> fa_complete f \<Longrightarrow> \<not> fa_complete (foldl force_step f ops)"
proof (induction ops arbitrary: f)
  case (Cons p ops)
  from Cons.prems have "fa_drain_failed (force_step f p)" "\<not> fa_complete (force_step f p)"
    by (cases p; simp add: recompute_complete_def)+
  then show ?case by (simp add: Cons.IH)
qed simp

text \<open>The acknowledgements that were noted and are still standing.\<close>

lemma force_local_applied:
  "fa_local (foldl force_step f ops) = Applied \<Longrightarrow> NoteLocalApplied \<in> set ops \<or> fa_local f = Applied"
proof (induction ops arbitrary: f)
  case (Cons p ops)
  then have "NoteLocalApplied \<in> set ops \<or> fa_local (force_step f p) = Applied" by simp
  then show ?case by (cases p) (auto simp: recompute_complete_def)
qed simp

lemma force_peer_applied:
  "fa_peer (foldl force_step f ops) = Applied \<Longrightarrow> NotePeerApplied \<in> set ops \<or> fa_peer f = Applied"
proof (induction ops arbitrary: f)
  case (Cons p ops)
  then have "NotePeerApplied \<in> set ops \<or> fa_peer (force_step f p) = Applied" by simp
  then show ?case by (cases p) (auto simp: recompute_complete_def)
qed simp

lemma force_complete_split:
  "fa_complete (foldl force_step f ops) \<Longrightarrow> \<not> fa_complete f \<Longrightarrow>
   \<exists>pre post. ops = pre @ post \<and> \<not> fa_drain_failed (foldl force_step f pre) \<and>
     fa_local (foldl force_step f pre) = Applied \<and> fa_peer (foldl force_step f pre) = Applied"
proof (induction ops rule: rev_induct)
  case (snoc p ops)
  let ?g = "foldl force_step f ops"
  show ?case
  proof (cases "fa_complete ?g")
    case True
    with snoc.IH snoc.prems(2) obtain pre post where "ops = pre @ post"
      "\<not> fa_drain_failed (foldl force_step f pre)" "fa_local (foldl force_step f pre) = Applied"
      "fa_peer (foldl force_step f pre) = Applied" by blast
    then show ?thesis by (intro exI [of _ pre] exI [of _ "post @ [p]"]) simp
  next
    case False
    with snoc.prems(1) have "\<not> fa_drain_failed (force_step ?g p)" "fa_local (force_step ?g p) = Applied"
      "fa_peer (force_step ?g p) = Applied"
      by (cases p; auto simp: recompute_complete_def)+
    then show ?thesis by (intro exI [of _ "ops @ [p]"] exI [of _ "[]"]) simp
  qed
qed simp

lemma tp_classify_attempts:
  "tr_max_attempts (fst (tp_classify t k p)) = tr_max_attempts t"
  "tr_attempts t \<le> tr_max_attempts t \<Longrightarrow>
   unat (tr_attempts (fst (tp_classify t k p))) =
     unat (tr_attempts t) + (if snd (tp_classify t k p) = TpRetry then 1 else 0) \<and>
   tr_attempts (fst (tp_classify t k p)) \<le> tr_max_attempts t"
proof -
  show "tr_max_attempts (fst (tp_classify t k p)) = tr_max_attempts t"
    by (simp add: tp_classify_def Let_def)
  assume le: "tr_attempts t \<le> tr_max_attempts t"
  have "unat (tr_attempts t + 1) = unat (tr_attempts t) + 1" if "tr_attempts t < tr_max_attempts t"
    using that unat_bound [of "tr_max_attempts t"]
    by (simp add: word_less_nat_alt unat_word_ariths)
  then show "unat (tr_attempts (fst (tp_classify t k p))) =
     unat (tr_attempts t) + (if snd (tp_classify t k p) = TpRetry then 1 else 0) \<and>
   tr_attempts (fst (tp_classify t k p)) \<le> tr_max_attempts t"
    using le by (auto simp: tp_classify_def Let_def word_le_nat_alt word_less_nat_alt)
qed

lemma tp_incident_attempts:
  assumes "tr_attempts t \<le> tr_max_attempts t"
  shows "unat (tr_attempts t) + count_list (snd (tp_incident t fs)) TpRetry =
      unat (tr_attempts (fst (tp_incident t fs))) \<and>
    tr_attempts (fst (tp_incident t fs)) \<le> tr_max_attempts t"
  using assms
proof (induction t fs rule: tp_incident.induct)
  case (1 t)
  then show ?case by simp
next
  case (2 t k p fs)
  obtain t' d where c: "tp_classify t k p = (t', d)" by fastforce
  from tp_classify_attempts [of t k p] c "2.prems"
  have t': "tr_max_attempts t' = tr_max_attempts t" "tr_attempts t' \<le> tr_max_attempts t'"
    "unat (tr_attempts t') = unat (tr_attempts t) + (if d = TpRetry then 1 else 0)" by simp_all
  have "unat (tr_attempts t') + count_list (snd (tp_incident t' fs)) TpRetry =
      unat (tr_attempts (fst (tp_incident t' fs))) \<and>
    tr_attempts (fst (tp_incident t' fs)) \<le> tr_max_attempts t'"
    using "2.IH" [OF c [symmetric] refl t'(2)] .
  with t' c show ?case by (auto simp: split_beta)
qed

section \<open>Properties\<close>

text \<open>
  The forced standalone is complete only if there was a moment at which both nodes had
  acknowledged it and no drain had timed out; in particular a lost acknowledgement never
  completes it.
\<close>
lemma force_complete_needs_both_acks:
  assumes "fa_complete (foldl force_step (force_begin e i) ops)"
  shows "\<exists>pre post. ops = pre @ post \<and> NoteLocalApplied \<in> set pre \<and> NotePeerApplied \<in> set pre \<and>
    \<not> force_failed (foldl force_step (force_begin e i) pre)"
proof -
  have "\<not> fa_complete (force_begin e i)" by (simp add: force_begin_def)
  from force_complete_split [OF assms this] obtain pre post where p: "ops = pre @ post"
    "\<not> fa_drain_failed (foldl force_step (force_begin e i) pre)"
    "fa_local (foldl force_step (force_begin e i) pre) = Applied"
    "fa_peer (foldl force_step (force_begin e i) pre) = Applied" by blast
  from force_local_applied [OF p(3)] force_peer_applied [OF p(4)]
  have "NoteLocalApplied \<in> set pre" "NotePeerApplied \<in> set pre" by (auto simp: force_begin_def)
  with p show ?thesis by (auto simp: force_failed_def)
qed

text \<open>
  A drain that times out before completion is final: whatever is noted afterwards, the
  application stays failed and never becomes complete.
\<close>
lemma force_drain_timeout_final:
  assumes "\<not> fa_complete (foldl force_step (force_begin e i) pre)"
  shows "force_failed (foldl force_step (force_begin e i) (pre @ DrainTimeout # post)) \<and>
    \<not> fa_complete (foldl force_step (force_begin e i) (pre @ DrainTimeout # post))"
proof -
  let ?f = "force_step (foldl force_step (force_begin e i) pre) DrainTimeout"
  have "fa_drain_failed ?f" "\<not> fa_complete ?f" using assms by simp_all
  then show ?thesis
    using force_failed_persists force_incomplete_after_failure by (simp add: force_failed_def)
qed

text \<open>
  A policy request is acted on only when it is authenticated, speaks the current
  protocol and is not older than the current epoch, and the same operation phase is acted
  on at most once: after it was accepted as new, the same request is a duplicate, and a
  request whose hash differs is a conflict, with the state unchanged.
\<close>
lemma policy_request_once:
  assumes "policy_validate hash s r ok = Inr (VerdictNew, s')"
  shows "ok \<and> pr_protocol_version r = 1 \<and> epoch s \<le> pr_policy_epoch r \<and>
    policy_validate hash s' r True = Inr (VerdictDuplicate, s') \<and>
    (pr_operation_id r' = pr_operation_id r \<longrightarrow> pr_phase r' = pr_phase r \<longrightarrow>
     canonical_request_hash hash r' \<noteq> canonical_request_hash hash r \<longrightarrow>
     pr_protocol_version r' = 1 \<longrightarrow> epoch s \<le> pr_policy_epoch r' \<longrightarrow>
     policy_validate hash s' r' True = Inl IdempotencyConflict)"
proof -
  let ?k = "(pr_operation_id r, pr_phase r)" and ?h = "canonical_request_hash hash r"
  from assms have pre: "ok" "pr_protocol_version r = 1" "epoch s \<le> pr_policy_epoch r"
    and reg: "policy_register s ?k ?h = (NewRequest, s')"
    by (auto simp: policy_validate_Inr policy_control_protocol_version_def)
  have none: "policy_idempotency s ?k = None"
    using reg by (auto simp: policy_register_def split: option.splits if_splits)
  have again: "policy_register s' ?k h = (if h = ?h then ExistingRequest else ConflictingRequest, s')" for h
    using preg.first_body_wins [OF none refl, of ?h "[]" h] reg by simp
  have "epoch s' = epoch s" using policy_register_epoch [of s ?k ?h] reg by simp
  with pre again show ?thesis
    by (auto simp: policy_validate_def policy_control_protocol_version_def not_less)
qed

text \<open>
  Recovery of a tensor-parallel incident is finite: whatever failures arrive under
  whatever policy, at most \<open>max 1 m\<close> retries are granted, and a forced standalone
  grants none and leaves the tracker untouched.
\<close>
lemma tp_retries_bounded:
  "count_list (snd (tp_incident (tp_tracker_new m) fs)) TpRetry \<le> max 1 (unat m) \<and>
   tp_classify t k ForcedStandalone = (t, TpSuppressed)"
proof
  let ?t = "tp_tracker_new m"
  have "tr_attempts ?t \<le> tr_max_attempts ?t" by (simp add: tp_tracker_new_def)
  from tp_incident_attempts [OF this, of fs]
  have "count_list (snd (tp_incident ?t fs)) TpRetry \<le> unat (tr_max_attempts ?t)"
    by (auto simp: tp_tracker_new_def word_le_nat_alt)
  then show "count_list (snd (tp_incident ?t fs)) TpRetry \<le> max 1 (unat m)"
    by (auto simp: tp_tracker_new_def max_def word_le_nat_alt split: if_splits)
  show "tp_classify t k ForcedStandalone = (t, TpSuppressed)" by (simp add: tp_classify_def)
qed

text \<open>
  The gate of the automatic paths, as its two production call sites use it (the local
  epoch passed for the peer's), never compares epochs: it depends on the policy, the
  configuration, the latch, the peer's presence and the pending flag only.
\<close>
lemma gate_ignores_peer_epoch:
  "automatic_promotion_gate policy pending auto_promote latch e peer_present e =
   (if pending \<and> policy = Automatic then EpochMismatch
    else if policy = ForcedStandalone then ForcedStandaloneLatch
    else if \<not> auto_promote then AutoPromoteDisabled
    else if latch then DeploymentMismatchLatch
    else if \<not> peer_present then GatePeerAbsent
    else AllowPromotion)"
  by (simp add: automatic_promotion_gate_def automatic_promotion_verdict_def)

end
