(* ===== verification/State_Store.thy ===== *)
theory State_Store
  imports Process_Control Policy_Control
begin

text \<open>
  The persistent state of a node (\<open>src/cluster/state_store.rs\<close>), the policy journal kept in
  it (\<open>src/cluster/policy_journal.rs\<close>), the re-save of the runtime state
  (\<open>persist_runtime_state\<close> in \<open>src/app.rs\<close>), and what a restart makes of it: the
  tolerant load (\<open>load_persisted_state\<close>), the restored policy and the reconciliation with a
  child left behind (\<open>src/cluster/restart.rs\<close>).

  The JSON codec of \<open>serde_json\<close> is a parameter: a record of an encoder, which fails on a
  path that is not UTF-8, and a decoder, which gives the error's text. The theorems assume of it
  that decoding an encoded state gives that state (\<open>codec_ok\<close>). The outcome of every system
  call is an input, so that a crash between two calls is the prefix that the later failure
  leaves behind.
\<close>

section \<open>Persistent state\<close>

datatype persistent_mode =
  PersistSoloStandalone | PersistPairedStandalone | PersistLayerParallel | PersistTensorParallel

datatype persistent_proxy_target = PersistLocal | PersistCoordinator | PersistUnavailable

datatype persistent_failure_code =
  FailChildStart | FailChildExit | FailChildIdentity | FailDrainTimeout | FailPeerLost
| FailRouteLost | FailStateCorrupt

record persistent_child =
  pc_pid :: u32
  pc_executable :: bytes
  pc_argv_sha256 :: string
  pc_spawned_at_millis :: u64
  pc_process_start_micros :: u64

datatype operation_phase =
  OpIntentSaved | OpPeerPrepared | OpDraining | OpStartingLocal | OpApplied | OpFailed

record pending_operation =
  po_id :: operation_id
  po_kind :: string
  po_phase :: operation_phase
  po_desired :: operation_policy
  po_peer_ack :: bool
  po_last_failure :: "string option"

record persistent_tp =
  pt_identity :: string
  pt_last_session :: u64
  pt_failed_attempts :: u32
  pt_last_failed_session :: u64

record persistent_state =
  ps_tp :: "persistent_tp option"
  ps_schema_version :: u32
  ps_generation :: u64
  ps_control_session :: u64
  ps_desired_mode :: persistent_mode
  ps_last_stable_mode :: persistent_mode
  ps_cluster_state :: string
  ps_proxy_target :: persistent_proxy_target
  ps_active_profile :: "string option"
  ps_child :: "persistent_child option"
  ps_last_failure :: "persistent_failure_code option"
  ps_operator_policy :: operation_policy
  ps_applied_policy :: operation_policy
  ps_policy_epoch :: u64
  ps_pending :: "pending_operation option"

datatype store_error =
  SsLocked
| SsUnsupportedSchema u32
| SsInvalidState string
| SsStaleGeneration u64 u64
| SsCorruptPreserved string
| SsIo
| SsJson

fun store_error_text :: "store_error \<Rightarrow> string" where
  "store_error_text (SsUnsupportedSchema v) = ''unsupported persistent state schema version '' @ show_nat (unat v)"
| "store_error_text (SsInvalidState m) = ''invalid persistent state: '' @ m"
| "store_error_text _ = ''''"

definition blank :: "string \<Rightarrow> bool" where
  "blank s = blank_utf8 (map of_char s)"

definition ascii_hexdigit :: "char \<Rightarrow> bool" where
  "ascii_hexdigit c =
     (let n = (of_char c :: nat) in 48 \<le> n \<and> n \<le> 57 \<or> 65 \<le> n \<and> n \<le> 70 \<or> 97 \<le> n \<and> n \<le> 102)"

definition is_absolute :: "bytes \<Rightarrow> bool" where
  "is_absolute p \<longleftrightarrow> (case p of b # _ \<Rightarrow> b = 47 | [] \<Rightarrow> False)"

definition schema_version :: u32 where
  "schema_version = 2"

definition schema_version_v1 :: u32 where
  "schema_version_v1 = 1"

definition state_validate :: "persistent_state \<Rightarrow> store_error option" where
  "state_validate s =
     (if ps_schema_version s \<noteq> schema_version then Some (SsUnsupportedSchema (ps_schema_version s))
      else if blank (ps_cluster_state s) \<or> is_some_and blank (ps_active_profile s)
      then Some (SsInvalidState ''cluster_state and present active_profile must be non-empty'')
      else case ps_child s of
        None \<Rightarrow> None
      | Some c \<Rightarrow>
          if \<not> is_absolute (pc_executable c) then Some (SsInvalidState ''child executable must be absolute'')
          else if length (pc_argv_sha256 c) \<noteq> 64 \<or> \<not> list_all ascii_hexdigit (pc_argv_sha256 c)
          then Some (SsInvalidState ''child argv_sha256 must contain 64 hexadecimal characters'')
          else None)"

section \<open>The store\<close>

record 'b state_codec =
  to_json :: "persistent_state \<Rightarrow> 'b option"
  from_json :: "'b \<Rightarrow> string + persistent_state"

definition codec_ok :: "'b state_codec \<Rightarrow> bool" where
  "codec_ok c \<longleftrightarrow> (\<forall>s b. to_json c s = Some b \<longrightarrow> from_json c b = Inr s)"

text \<open>The state file, its temporary sibling, the files that corrupt states were moved to, the
  backups of version 1 states, and the highest generation known to the process.\<close>

record 'b state_store =
  ss_file :: "'b option"
  ss_temporary :: "'b option"
  ss_corrupt :: "'b list"
  ss_backups :: "'b list"
  ss_last_generation :: "u64 option"

type_synonym ('b, 'a) stact = "('b state_store, store_error, 'a) sact"

text \<open>The system calls of a save: writing and syncing the temporary file, which may leave
  anything in it, the rename over the state file, the sync of the directory.\<close>

datatype 'b save_io = TemporaryFails "'b option" | RenameFails | ParentSyncFails | SaveDone

definition store_put :: "'b save_io \<Rightarrow> 'b \<Rightarrow> u64 \<Rightarrow> ('b, unit) stact" where
  "store_put io b generation st =
     (case io of
        TemporaryFails rest \<Rightarrow> (Inl SsIo, st\<lparr>ss_temporary := rest\<rparr>)
      | RenameFails \<Rightarrow> (Inl SsIo, st\<lparr>ss_temporary := Some b\<rparr>)
      | ParentSyncFails \<Rightarrow> (Inl SsIo, st\<lparr>ss_file := Some b, ss_temporary := None\<rparr>)
      | SaveDone \<Rightarrow>
          (Inr (), st\<lparr>ss_file := Some b, ss_temporary := None, ss_last_generation := Some generation\<rparr>))"

definition store_save :: "'b state_codec \<Rightarrow> 'b save_io \<Rightarrow> persistent_state \<Rightarrow> ('b, unit) stact" where
  "store_save c io s =
     (case state_validate s of
        Some e \<Rightarrow> fail_act e
      | None \<Rightarrow>
          seq get_state (\<lambda>st. case ss_last_generation st of
            Some known \<Rightarrow>
              if ps_generation s < known then fail_act (SsStaleGeneration (ps_generation s) known)
              else (case to_json c s of None \<Rightarrow> fail_act SsJson | Some b \<Rightarrow> store_put io b (ps_generation s))
          | None \<Rightarrow>
              (case to_json c s of None \<Rightarrow> fail_act SsJson | Some b \<Rightarrow> store_put io b (ps_generation s))))"

text \<open>The system calls of a load: the read, the rename and the directory sync that preserve a
  corrupt file, the backup of a version 1 file, the save of the migrated state.\<close>

record 'b load_io =
  li_read :: bool
  li_preserve_rename :: bool
  li_preserve_sync :: bool
  li_backup :: bool
  li_migration :: "'b save_io"

definition preserve_corrupt :: "'b load_io \<Rightarrow> 'b \<Rightarrow> string \<Rightarrow> ('b, 'a) stact" where
  "preserve_corrupt io b reason =
     (if \<not> li_preserve_rename io then fail_act SsIo
      else
        seq (modify_act (\<lambda>st. st\<lparr>ss_file := None, ss_corrupt := ss_corrupt st @ [b]\<rparr>)) (\<lambda>_.
        if li_preserve_sync io then fail_act (SsCorruptPreserved reason) else fail_act SsIo))"

definition preserve_v1_backup :: "'b load_io \<Rightarrow> 'b \<Rightarrow> ('b, unit) stact" where
  "preserve_v1_backup io b =
     (if li_backup io then modify_act (\<lambda>st. st\<lparr>ss_backups := ss_backups st @ [b]\<rparr>) else fail_act SsIo)"

definition migrate_v1 :: "persistent_state \<Rightarrow> persistent_state" where
  "migrate_v1 s = s\<lparr>ps_schema_version := schema_version, ps_operator_policy := Automatic,
     ps_applied_policy := Automatic, ps_policy_epoch := 0, ps_pending := None\<rparr>"

definition normalise_session :: "persistent_state \<Rightarrow> persistent_state" where
  "normalise_session s = s\<lparr>ps_control_session := max (ps_control_session s) (ps_generation s)\<rparr>"

text \<open>The end of \<open>load\<close>, for a state of the current version.\<close>

definition load_current :: "'b load_io \<Rightarrow> 'b \<Rightarrow> persistent_state \<Rightarrow> ('b, persistent_state option) stact" where
  "load_current io b s =
     (case state_validate s of
        Some e \<Rightarrow> preserve_corrupt io b (store_error_text e)
      | None \<Rightarrow>
          seq (modify_act (\<lambda>st. st\<lparr>ss_last_generation := Some (ps_generation s)\<rparr>)) (\<lambda>_.
          return_act (Some (normalise_session s))))"

definition store_load :: "'b state_codec \<Rightarrow> 'b load_io \<Rightarrow> ('b, persistent_state option) stact" where
  "store_load c io =
     (if \<not> li_read io then fail_act SsIo
      else seq get_state (\<lambda>st. case ss_file st of
        None \<Rightarrow> return_act None
      | Some b \<Rightarrow> (case from_json c b of
          Inl e \<Rightarrow> preserve_corrupt io b e
        | Inr s \<Rightarrow>
            if ps_schema_version s = schema_version_v1
            then (case state_validate (migrate_v1 s) of
                Some e \<Rightarrow> preserve_corrupt io b (store_error_text e)
              | None \<Rightarrow>
                  seq (preserve_v1_backup io b) (\<lambda>_.
                  seq (store_save c (li_migration io) (migrate_v1 s)) (\<lambda>_.
                  load_current io b (migrate_v1 s))))
            else load_current io b s)))"

text \<open>A new process: \<open>StateStore::acquire\<close> on the same path. The file is there, the known
  generation is not. The lock of another instance makes it fail.\<close>

definition store_acquire :: "bool \<Rightarrow> ('b, unit) stact" where
  "store_acquire locked =
     (if locked then fail_act SsLocked else modify_act (\<lambda>st. st\<lparr>ss_last_generation := None\<rparr>))"

section \<open>The policy journal\<close>

record 'b journal_io =
  ji_load :: "'b load_io"
  ji_save :: "'b save_io"

definition default_for_save :: persistent_state where
  "default_for_save = \<lparr>ps_tp = None, ps_schema_version = schema_version, ps_generation = 0,
     ps_control_session = 0, ps_desired_mode = PersistSoloStandalone,
     ps_last_stable_mode = PersistSoloStandalone, ps_cluster_state = ''booting'',
     ps_proxy_target = PersistUnavailable, ps_active_profile = None, ps_child = None,
     ps_last_failure = None, ps_operator_policy = Automatic, ps_applied_policy = Automatic,
     ps_policy_epoch = 0, ps_pending = None\<rparr>"

definition unwrap_or_default_for_save :: "persistent_state option \<Rightarrow> persistent_state" where
  "unwrap_or_default_for_save s = (case s of Some s \<Rightarrow> s | None \<Rightarrow> default_for_save)"

record policy_journal_view =
  jv_operator_policy :: operation_policy
  jv_applied_policy :: operation_policy
  jv_policy_epoch :: u64
  jv_pending :: "pending_operation option"

definition journal_view :: "persistent_state option \<Rightarrow> policy_journal_view" where
  "journal_view s = (case s of
       None \<Rightarrow> \<lparr>jv_operator_policy = Automatic, jv_applied_policy = Automatic, jv_policy_epoch = 0, jv_pending = None\<rparr>
     | Some s \<Rightarrow> \<lparr>jv_operator_policy = ps_operator_policy s, jv_applied_policy = ps_applied_policy s,
                  jv_policy_epoch = ps_policy_epoch s, jv_pending = ps_pending s\<rparr>)"

definition journal_load :: "'b state_codec \<Rightarrow> 'b load_io \<Rightarrow> ('b, policy_journal_view) stact" where
  "journal_load c io = seq (store_load c io) (\<lambda>s. return_act (journal_view s))"

definition restored_safety_latch :: "'b state_codec \<Rightarrow> 'b load_io \<Rightarrow> ('b, pending_operation option) stact" where
  "restored_safety_latch c io = seq (journal_load c io) (\<lambda>v. return_act (jv_pending v))"

text \<open>Every write of the journal loads the state, changes it and saves it.\<close>

definition journal_update ::
  "'b state_codec \<Rightarrow> 'b journal_io \<Rightarrow> (persistent_state \<Rightarrow> persistent_state) \<Rightarrow> ('b, persistent_state) stact" where
  "journal_update c io f =
     seq (store_load c (ji_load io)) (\<lambda>s.
     let s' = f (unwrap_or_default_for_save s) in
     seq (store_save c (ji_save io) s') (\<lambda>_. return_act s'))"

definition intent_of :: "operation_id \<Rightarrow> string \<Rightarrow> operation_policy \<Rightarrow> pending_operation" where
  "intent_of op kind desired = \<lparr>po_id = op, po_kind = kind, po_phase = OpIntentSaved, po_desired = desired,
     po_peer_ack = False, po_last_failure = None\<rparr>"

definition mark_applied :: "pending_operation \<Rightarrow> pending_operation" where
  "mark_applied p = p\<lparr>po_phase := OpApplied, po_peer_ack := True\<rparr>"

definition persist_force_intent ::
  "'b state_codec \<Rightarrow> 'b journal_io \<Rightarrow> u64 \<Rightarrow> operation_id \<Rightarrow> ('b, persistent_state) stact" where
  "persist_force_intent c io ep op = journal_update c io (\<lambda>s.
     s\<lparr>ps_operator_policy := ForcedStandalone, ps_policy_epoch := ep,
       ps_pending := Some (intent_of op ''force-standalone'' ForcedStandalone)\<rparr>)"

definition record_force_applied :: "'b state_codec \<Rightarrow> 'b journal_io \<Rightarrow> u64 \<Rightarrow> ('b, persistent_state) stact" where
  "record_force_applied c io ep = journal_update c io (\<lambda>s.
     s\<lparr>ps_applied_policy := ForcedStandalone, ps_policy_epoch := ep,
       ps_pending := map_option mark_applied (ps_pending s)\<rparr>)"

definition record_automatic_applied :: "'b state_codec \<Rightarrow> 'b journal_io \<Rightarrow> u64 \<Rightarrow> ('b, persistent_state) stact" where
  "record_automatic_applied c io ep = journal_update c io (\<lambda>s.
     s\<lparr>ps_applied_policy := Automatic, ps_policy_epoch := ep,
       ps_pending := map_option mark_applied (ps_pending s)\<rparr>)"

text \<open>The identifier of an automatic intent is a fresh one.\<close>

definition persist_automatic_intent ::
  "'b state_codec \<Rightarrow> 'b journal_io \<Rightarrow> u64 \<Rightarrow> operation_id \<Rightarrow> ('b, persistent_state) stact" where
  "persist_automatic_intent c io ep fresh = journal_update c io (\<lambda>s.
     s\<lparr>ps_operator_policy := Automatic, ps_policy_epoch := ep,
       ps_pending := Some (intent_of fresh ''automatic'' Automatic)\<rparr>)"

section \<open>The runtime state\<close>

fun persistent_mode_of :: "stable_mode \<Rightarrow> persistent_mode" where
  "persistent_mode_of SoloStandalone = PersistSoloStandalone"
| "persistent_mode_of PairedStandalone = PersistPairedStandalone"
| "persistent_mode_of DistributedLayerParallel = PersistLayerParallel"
| "persistent_mode_of DistributedTensorParallel = PersistTensorParallel"

fun persistent_target :: "proxy_target \<Rightarrow> persistent_proxy_target" where
  "persistent_target LocalStandalone = PersistLocal"
| "persistent_target ToCoordinator = PersistCoordinator"
| "persistent_target (Unavailable _) = PersistUnavailable"

definition persistent_child_of :: "child_identity \<Rightarrow> persistent_child" where
  "persistent_child_of i = \<lparr>pc_pid = id_pid i, pc_executable = id_executable i,
     pc_argv_sha256 = encode_lower_hex (id_argv_sha256 i),
     pc_spawned_at_millis = ci_spawned_at_millis i, pc_process_start_micros = id_start_micros i\<rparr>"

text \<open>What \<open>persist_runtime_state\<close> reads: the snapshot, the identities of the distributed and
  the standalone child, the control session of the cluster runtime if there is one, and the
  profile of the standalone child.\<close>

record runtime_view =
  rv_snapshot :: cluster_snapshot
  rv_distributed :: "child_identity option"
  rv_standalone :: "child_identity option"
  rv_control_session :: "u64 option"
  rv_profile :: string

definition distributed_mode :: "stable_mode \<Rightarrow> bool" where
  "distributed_mode m \<longleftrightarrow> m = DistributedLayerParallel \<or> m = DistributedTensorParallel"

definition runtime_child :: "runtime_view \<Rightarrow> child_identity option" where
  "runtime_child v =
     (case (if distributed_mode (cs_mode (rv_snapshot v)) then rv_distributed v else None) of
        Some i \<Rightarrow> Some i | None \<Rightarrow> rv_standalone v)"

definition runtime_state :: "runtime_view \<Rightarrow> persistent_state option \<Rightarrow> persistent_state" where
  "runtime_state v prior =
     (let snap = rv_snapshot v; j = journal_view prior in
      \<lparr>ps_tp = (case prior of Some s \<Rightarrow> ps_tp s | None \<Rightarrow> None), ps_schema_version = schema_version,
       ps_generation = cs_generation snap,
       ps_control_session = (case rv_control_session v of Some g \<Rightarrow> g | None \<Rightarrow> cs_generation snap),
       ps_desired_mode = persistent_mode_of (cs_mode snap), ps_last_stable_mode = persistent_mode_of (cs_mode snap),
       ps_cluster_state = state_name (cs_state snap), ps_proxy_target = persistent_target (cs_target snap),
       ps_active_profile = Some (if distributed_mode (cs_mode snap) then mode_name (cs_mode snap) else rv_profile v),
       ps_child = map_option persistent_child_of (runtime_child v), ps_last_failure = None,
       ps_operator_policy = jv_operator_policy j, ps_applied_policy = jv_applied_policy j,
       ps_policy_epoch = jv_policy_epoch j, ps_pending = jv_pending j\<rparr>)"

definition persist_runtime_state :: "'b state_codec \<Rightarrow> 'b journal_io \<Rightarrow> runtime_view \<Rightarrow> ('b, unit) stact" where
  "persist_runtime_state c io v =
     seq (store_load c (ji_load io)) (\<lambda>prior. store_save c (ji_save io) (runtime_state v prior))"

section \<open>Restart\<close>

text \<open>A corrupt state counts as none.\<close>

definition load_persisted_state :: "'b state_codec \<Rightarrow> 'b load_io \<Rightarrow> ('b, persistent_state option) stact" where
  "load_persisted_state c io =
     on_result (store_load c io) return_act
       (\<lambda>e. case e of SsCorruptPreserved _ \<Rightarrow> return_act None | _ \<Rightarrow> fail_act e)"

text \<open>\<open>u8::from_str_radix(_, 16)\<close> on two characters, which may be a plus sign and a digit.\<close>

definition radix_16_digit :: "char \<Rightarrow> nat option" where
  "radix_16_digit c =
     (let n = (of_char c :: nat) in
      if 48 \<le> n \<and> n \<le> 57 then Some (n - 48)
      else if 65 \<le> n \<and> n \<le> 70 then Some (n - 55)
      else if 97 \<le> n \<and> n \<le> 102 then Some (n - 87) else None)"

definition radix_16_pair :: "char \<Rightarrow> char \<Rightarrow> nat option" where
  "radix_16_pair h l =
     (if h = CHR ''+'' then radix_16_digit l
      else case radix_16_digit h of
        None \<Rightarrow> None | Some a \<Rightarrow> map_option (\<lambda>b. 16 * a + b) (radix_16_digit l))"

fun decode_hash_pairs :: "string \<Rightarrow> bytes option" where
  "decode_hash_pairs (h # l # cs) =
     (case radix_16_pair h l of
        None \<Rightarrow> None | Some v \<Rightarrow> map_option ((#) (of_nat v)) (decode_hash_pairs cs))"
| "decode_hash_pairs _ = Some []"

definition decode_hash :: "string \<Rightarrow> bytes option" where
  "decode_hash v = (if length v \<noteq> 64 then None else decode_hash_pairs v)"

datatype restart_manual_reason =
  PersistedChildIdentityMismatch | PersistedChildStopFailed | RequiredPortOccupied | RequiredAddressUnavailable

datatype restart_decision = StartSolo u64 | RestartManual u64 restart_manual_reason

datatype restart_error = InvalidChildHash

definition recovered_identity :: "persistent_state \<Rightarrow> persistent_child \<Rightarrow> string \<Rightarrow> bytes \<Rightarrow> child_identity" where
  "recovered_identity s c profile hash = \<lparr>id_pid = pc_pid c, id_executable = pc_executable c, id_argv_sha256 = hash,
     id_start_micros = pc_process_start_micros c, ci_profile_id = profile, ci_generation = ps_generation s,
     ci_spawned_at_millis = pc_spawned_at_millis c\<rparr>"

text \<open>The result of the port probe is an input; an error of the probe is \<open>None\<close>.\<close>

definition restart_port :: "u64 \<Rightarrow> bool option \<Rightarrow> restart_decision" where
  "restart_port baseline port =
     (case port of
        Some True \<Rightarrow> StartSolo baseline
      | Some False \<Rightarrow> RestartManual baseline RequiredPortOccupied
      | None \<Rightarrow> RestartManual baseline RequiredAddressUnavailable)"

definition stop_left_behind ::
  "(bytes \<Rightarrow> bytes) \<Rightarrow> os \<Rightarrow> nat \<Rightarrow> bool \<Rightarrow> bool option \<Rightarrow> u64 \<Rightarrow> child_identity \<Rightarrow>
   (control_world, restart_error, restart_decision) sact" where
  "stop_left_behind sha256 os timeout allow_sigkill port baseline i =
     on_result (stop_recovered_owned sha256 os i timeout 20 allow_sigkill)
       (\<lambda>_. return_act (restart_port baseline port))
       (\<lambda>e. return_act (
          if e = PcNotRunning then restart_port baseline port
          else if e = PcIdentityMismatch then RestartManual baseline PersistedChildIdentityMismatch
          else RestartManual baseline PersistedChildStopFailed))"

definition reconcile_restart ::
  "(bytes \<Rightarrow> bytes) \<Rightarrow> os \<Rightarrow> nat \<Rightarrow> bool \<Rightarrow> bool option \<Rightarrow> persistent_state option \<Rightarrow>
   (control_world, restart_error, restart_decision) sact" where
  "reconcile_restart sha256 os timeout allow_sigkill port state =
     (case state of
        None \<Rightarrow> return_act (restart_port 0 port)
      | Some s \<Rightarrow> (case ps_child s of
          None \<Rightarrow> return_act (restart_port (ps_generation s) port)
        | Some c \<Rightarrow> (case ps_active_profile s of
            None \<Rightarrow> return_act (RestartManual (ps_generation s) PersistedChildIdentityMismatch)
          | Some profile \<Rightarrow> (case decode_hash (pc_argv_sha256 c) of
              None \<Rightarrow> fail_act InvalidChildHash
            | Some hash \<Rightarrow>
                stop_left_behind sha256 os timeout allow_sigkill port (ps_generation s)
                  (recovered_identity s c profile hash)))))"

section \<open>The store is sound\<close>

text \<open>The state in the file, and the states of the store that its own operations lead to: the
  file holds a valid state whose generation is not below the known one.\<close>

definition stored :: "'b state_codec \<Rightarrow> 'b state_store \<Rightarrow> persistent_state option" where
  "stored c st = (case ss_file st of None \<Rightarrow> None
     | Some b \<Rightarrow> (case from_json c b of Inl _ \<Rightarrow> None | Inr s \<Rightarrow> Some s))"

definition store_ok :: "'b state_codec \<Rightarrow> 'b state_store \<Rightarrow> bool" where
  "store_ok c st \<longleftrightarrow>
     (case ss_file st of
        None \<Rightarrow> ss_last_generation st = None
      | Some b \<Rightarrow> (case from_json c b of
          Inl _ \<Rightarrow> False
        | Inr s \<Rightarrow> state_validate s = None \<and> is_none_or (\<lambda>g. g \<le> ps_generation s) (ss_last_generation st)))"

lemma store_okE:
  assumes "store_ok c st"
  obtains "ss_file st = None" "stored c st = None" "ss_last_generation st = None"
  | b s where "ss_file st = Some b" "from_json c b = Inr s" "stored c st = Some s" "state_validate s = None"
      "is_none_or (\<lambda>g. g \<le> ps_generation s) (ss_last_generation st)"
  using assms by (auto simp: store_ok_def stored_def split: option.splits sum.splits)

lemma validated_version: "state_validate s = None \<Longrightarrow> ps_schema_version s = 2"
  by (simp add: state_validate_def schema_version_def split: if_splits)

lemma store_load_ok:
  assumes "store_ok c st"
  shows "store_load c io st =
    (if \<not> li_read io then (Inl SsIo, st)
     else case stored c st of
       None \<Rightarrow> (Inr None, st)
     | Some s \<Rightarrow> (Inr (Some (normalise_session s)), st\<lparr>ss_last_generation := Some (ps_generation s)\<rparr>))"
  using assms
  by (cases rule: store_okE)
    (auto simp: store_load_def seq_def get_state_def return_act_def fail_act_def load_current_def modify_act_def
      schema_version_v1_def dest: validated_version)

lemma store_ok_loaded: "store_ok c st \<Longrightarrow> store_ok c (snd (store_load c io st))"
  by (subst store_load_ok, assumption, erule store_okE) (auto simp: store_ok_def)

text \<open>A save changes nothing in the file or replaces it as a whole.\<close>

lemma store_save_cases:
  assumes "codec_ok c" "store_save c io s st = (r, st')"
  obtains e where "r = Inl e" "ss_file st' = ss_file st" "ss_last_generation st' = ss_last_generation st"
  | b where "ss_file st' = Some b" "from_json c b = Inr s" "state_validate s = None"
      "is_none_or (\<lambda>g. g \<le> ps_generation s) (ss_last_generation st)"
      "r = Inr () \<and> ss_last_generation st' = Some (ps_generation s)
       \<or> r = Inl SsIo \<and> ss_last_generation st' = ss_last_generation st"
  using assms
  by (auto simp: store_save_def store_put_def seq_def get_state_def fail_act_def codec_ok_def not_less
      split: option.splits if_splits save_io.splits)

lemma store_save_ok:
  assumes "codec_ok c" "store_ok c st" "store_save c io s st = (r, st')"
  shows "store_ok c st'" "r = Inr () \<Longrightarrow> stored c st' = Some s" "stored c st' = stored c st \<or> stored c st' = Some s"
proof -
  have "store_ok c st' \<and> (r = Inr () \<longrightarrow> stored c st' = Some s) \<and> (stored c st' = stored c st \<or> stored c st' = Some s)"
    using assms(1,3)
  proof (cases rule: store_save_cases)
    case (1 e)
    with assms(2) show ?thesis by (simp add: store_ok_def stored_def split: option.splits sum.splits)
  next
    case (2 b)
    then show ?thesis by (auto simp: store_ok_def stored_def)
  qed
  then show "store_ok c st'" "r = Inr () \<Longrightarrow> stored c st' = Some s" "stored c st' = stored c st \<or> stored c st' = Some s"
    by simp_all
qed

text \<open>Load, change, save: the shape of every write.\<close>

lemma load_save_cases:
  assumes "codec_ok c" "store_ok c st"
    and run: "seq (store_load c lio) (\<lambda>p. store_save c sio (f p)) st = (r, st')"
  shows "store_ok c st'" "r = Inr () \<Longrightarrow> stored c st' = Some (f (map_option normalise_session (stored c st)))"
    "stored c st' = stored c st \<or> stored c st' = Some (f (map_option normalise_session (stored c st)))"
proof -
  let ?p = "map_option normalise_session (stored c st)" and ?st = "snd (store_load c lio st)"
  have "\<not> li_read lio \<and> r = Inl SsIo \<and> st' = st \<or> store_save c sio (f ?p) ?st = (r, st')"
    using run by (auto simp: seq_def store_load_ok [OF assms(2)] split: if_splits option.splits)
  moreover have same: "stored c ?st = stored c st"
    by (simp add: store_load_ok [OF assms(2)] stored_def split: option.split)
  moreover note store_save_ok [OF assms(1) store_ok_loaded [OF assms(2)], of sio "f ?p" lio r st']
  ultimately show "store_ok c st'" "r = Inr () \<Longrightarrow> stored c st' = Some (f ?p)"
    "stored c st' = stored c st \<or> stored c st' = Some (f ?p)"
    using assms(2) by auto
qed

lemma journal_update_run:
  "journal_update c io f st =
     (case seq (store_load c (ji_load io)) (\<lambda>p. store_save c (ji_save io) (f (unwrap_or_default_for_save p))) st of
        (Inl e, st') \<Rightarrow> (Inl e, st')
      | (Inr _, st') \<Rightarrow> (map_sum id (\<lambda>p. f (unwrap_or_default_for_save p)) (fst (store_load c (ji_load io) st)), st'))"
  by (simp add: journal_update_def seq_def return_act_def Let_def split: prod.split sum.split)

lemma journal_update_ok:
  assumes "codec_ok c" "store_ok c st" "journal_update c io f st = (r, st')"
  shows "store_ok c st'"
    "\<And>s. r = Inr s \<Longrightarrow> stored c st' = Some s \<and> s = f (unwrap_or_default_for_save (map_option normalise_session (stored c st)))"
    "stored c st' = stored c st
     \<or> stored c st' = Some (f (unwrap_or_default_for_save (map_option normalise_session (stored c st))))"
proof -
  obtain q where run: "seq (store_load c (ji_load io)) (\<lambda>p. store_save c (ji_save io) (f (unwrap_or_default_for_save p))) st = (q, st')"
    using assms(3) by (auto simp: journal_update_run split: prod.splits sum.splits)
  note ok = load_save_cases [OF assms(1,2) run]
  from ok show "store_ok c st'" "stored c st' = stored c st
     \<or> stored c st' = Some (f (unwrap_or_default_for_save (map_option normalise_session (stored c st))))" by auto
  fix s assume r: "r = Inr s"
  have "q = Inr ()" using assms(3) r run by (simp add: journal_update_run split: sum.splits)
  moreover from this run have "li_read (ji_load io)"
    by (auto simp: seq_def store_load_ok [OF assms(2)] split: if_splits)
  moreover have "s = projr (map_sum id (\<lambda>p. f (unwrap_or_default_for_save p)) (fst (store_load c (ji_load io) st)))"
    using assms(3) r run by (simp add: journal_update_run split: sum.splits)
  ultimately show "stored c st' = Some s \<and> s = f (unwrap_or_default_for_save (map_option normalise_session (stored c st)))"
    using ok(2) by (simp add: store_load_ok [OF assms(2)] split: option.splits)
qed

section \<open>The tensor-parallel journal\<close>

definition persistent_tp_default :: persistent_tp where
  "persistent_tp_default = \<lparr>pt_identity = [], pt_last_session = 0, pt_failed_attempts = 0, pt_last_failed_session = 0\<rparr>"

text \<open>A saved record of another deployment keeps its sessions and loses its failures.\<close>

definition restore_tp_state :: "'b state_codec \<Rightarrow> 'b load_io \<Rightarrow> string \<Rightarrow> ('b, persistent_tp) stact" where
  "restore_tp_state c io identity =
     seq (store_load c io) (\<lambda>p.
     let saved = (case p of Some s \<Rightarrow> (case ps_tp s of Some t \<Rightarrow> t | None \<Rightarrow> persistent_tp_default)
                          | None \<Rightarrow> persistent_tp_default)
     in return_act (if pt_identity saved \<noteq> identity
                    then saved\<lparr>pt_identity := identity, pt_failed_attempts := 0\<rparr> else saved))"

text \<open>Without a file the record is saved in a state that takes the policy of the runtime.\<close>

definition tp_journal_state ::
  "cluster_snapshot \<Rightarrow> operation_policy \<Rightarrow> operation_policy \<Rightarrow> u64 \<Rightarrow> persistent_tp \<Rightarrow> persistent_state option \<Rightarrow> persistent_state" where
  "tp_journal_state snap operator applied ep tp p =
     (case p of Some s \<Rightarrow> s | None \<Rightarrow>
        default_for_save\<lparr>ps_generation := cs_generation snap, ps_control_session := cs_generation snap,
          ps_cluster_state := state_name (cs_state snap), ps_operator_policy := operator,
          ps_applied_policy := applied, ps_policy_epoch := ep\<rparr>)\<lparr>ps_tp := Some tp\<rparr>"

definition persist_tp_journal ::
  "'b state_codec \<Rightarrow> 'b journal_io \<Rightarrow> cluster_snapshot \<Rightarrow> operation_policy \<Rightarrow> operation_policy \<Rightarrow> u64 \<Rightarrow> persistent_tp \<Rightarrow>
   ('b, unit) stact" where
  "persist_tp_journal c io snap operator applied ep tp =
     seq (store_load c (ji_load io)) (\<lambda>p. store_save c (ji_save io) (tp_journal_state snap operator applied ep tp p))"

section \<open>Histories of the store\<close>

datatype 'b store_op =
  StRuntime "'b journal_io" runtime_view
| StForceIntent "'b journal_io" u64 operation_id
| StForceApplied "'b journal_io" u64
| StAutomaticIntent "'b journal_io" u64 operation_id
| StAutomaticApplied "'b journal_io" u64
| StTpJournal "'b journal_io" cluster_snapshot operation_policy operation_policy u64 persistent_tp
| StLoad "'b load_io"
| StRestart bool

fun store_act :: "'b state_codec \<Rightarrow> 'b store_op \<Rightarrow> 'b state_store \<Rightarrow> 'b state_store" where
  "store_act c (StRuntime io v) st = snd (persist_runtime_state c io v st)"
| "store_act c (StForceIntent io ep op) st = snd (persist_force_intent c io ep op st)"
| "store_act c (StForceApplied io ep) st = snd (record_force_applied c io ep st)"
| "store_act c (StAutomaticIntent io ep op) st = snd (persist_automatic_intent c io ep op st)"
| "store_act c (StAutomaticApplied io ep) st = snd (record_automatic_applied c io ep st)"
| "store_act c (StTpJournal io snap operator applied ep tp) st = snd (persist_tp_journal c io snap operator applied ep tp st)"
| "store_act c (StLoad io) st = snd (store_load c io st)"
| "store_act c (StRestart locked) st = snd (store_acquire locked st)"

definition store_run :: "'b state_codec \<Rightarrow> 'b state_store \<Rightarrow> 'b store_op list \<Rightarrow> 'b state_store" where
  "store_run c = foldl (\<lambda>st op. store_act c op st)"

text \<open>What a write stores.\<close>

fun written :: "'b store_op \<Rightarrow> persistent_state option \<Rightarrow> persistent_state option" where
  "written (StRuntime io v) p = Some (runtime_state v p)"
| "written (StForceIntent io ep op) p = Some ((unwrap_or_default_for_save p)\<lparr>ps_operator_policy := ForcedStandalone,
     ps_policy_epoch := ep, ps_pending := Some (intent_of op ''force-standalone'' ForcedStandalone)\<rparr>)"
| "written (StForceApplied io ep) p = (let s = unwrap_or_default_for_save p in Some (s\<lparr>ps_applied_policy := ForcedStandalone,
     ps_policy_epoch := ep, ps_pending := map_option mark_applied (ps_pending s)\<rparr>))"
| "written (StAutomaticIntent io ep op) p = Some ((unwrap_or_default_for_save p)\<lparr>ps_operator_policy := Automatic,
     ps_policy_epoch := ep, ps_pending := Some (intent_of op ''automatic'' Automatic)\<rparr>)"
| "written (StAutomaticApplied io ep) p = (let s = unwrap_or_default_for_save p in Some (s\<lparr>ps_applied_policy := Automatic,
     ps_policy_epoch := ep, ps_pending := map_option mark_applied (ps_pending s)\<rparr>))"
| "written (StTpJournal io snap operator applied ep tp) p = Some (tp_journal_state snap operator applied ep tp p)"
| "written (StLoad io) p = None"
| "written (StRestart locked) p = None"

lemma store_act_cases:
  assumes "codec_ok c" "store_ok c st"
  shows "store_ok c (store_act c op st)
    \<and> (stored c (store_act c op st) = stored c st
       \<or> (\<exists>s. written op (map_option normalise_session (stored c st)) = Some s \<and> stored c (store_act c op st) = Some s))"
proof -
  have update: "store_ok c (snd (journal_update c io f st))
      \<and> (stored c (snd (journal_update c io f st)) = stored c st
         \<or> stored c (snd (journal_update c io f st)) = Some (f (unwrap_or_default_for_save (map_option normalise_session (stored c st)))))"
    for io f
    using journal_update_ok [OF assms prod.collapse [symmetric], of io f] by auto
  have saving: "store_ok c (snd (seq (store_load c lio) (\<lambda>p. store_save c sio (f p)) st))
      \<and> (stored c (snd (seq (store_load c lio) (\<lambda>p. store_save c sio (f p)) st)) = stored c st
         \<or> stored c (snd (seq (store_load c lio) (\<lambda>p. store_save c sio (f p)) st)) = Some (f (map_option normalise_session (stored c st))))"
    for lio sio f
    using load_save_cases [OF assms prod.collapse [symmetric], of lio sio f] by auto
  have same: "stored c (snd (store_load c io st)) = stored c st" for io
    by (simp add: store_load_ok [OF assms(2)] stored_def split: option.split)
  show ?thesis
  proof (cases op)
    case (StLoad io)
    with same store_ok_loaded [OF assms(2)] show ?thesis by simp
  next
    case (StRestart locked)
    with assms(2) show ?thesis
      by (auto simp: store_acquire_def fail_act_def modify_act_def stored_def store_ok_def split: option.splits sum.splits)
  qed (simp_all add: persist_runtime_state_def persist_tp_journal_def saving Let_def
      persist_force_intent_def record_force_applied_def persist_automatic_intent_def record_automatic_applied_def update,
      (rule update [THEN conjunct2])+)
qed

section \<open>Identities survive a restart\<close>

lemma radix_16_hex: "n < 16 \<Longrightarrow> radix_16_digit (hex_digits ! n) = Some n \<and> hex_digits ! n \<noteq> CHR ''+''"
proof -
  assume "n < 16"
  then have "n \<in> set [0..<16]" by simp
  then show ?thesis
    by (simp add: upt_rec hex_digits_def radix_16_digit_def Let_def) auto
qed

lemma unat_nibbles: "unat (drop_bit 4 b) = unat b div 16" "unat (b AND 15) = unat b mod 16" for b :: u8
proof -
  show "unat (drop_bit 4 b) = unat b div 16"
    unfolding unat_drop_bit_eq by (simp add: drop_bit_eq_div)
  have "(15 :: u8) = mask 4" by (simp add: mask_eq_exp_minus_1)
  then have "unat (b AND 15) = take_bit 4 (unat b)"
    by (simp only: flip: take_bit_eq_mask unsigned_take_bit_eq)
  then show "unat (b AND 15) = unat b mod 16" by (simp add: take_bit_eq_mod)
qed

lemma decode_hash_pairs_hex: "decode_hash_pairs (encode_lower_hex bs) = Some bs"
proof (induction bs)
  case (Cons b bs)
  have bound: "unat b < 256" using unat_bound [of b] by simp
  then have "radix_16_pair (hex_digits ! unat (drop_bit 4 b)) (hex_digits ! unat (b AND 15)) = Some (unat b)"
    using radix_16_hex [of "unat b div 16"] radix_16_hex [of "unat b mod 16"]
    by (simp add: radix_16_pair_def unat_nibbles)
  with Cons show ?case by simp
qed simp

lemma decode_hash_hex: "length h = 32 \<Longrightarrow> decode_hash (encode_lower_hex h) = Some h"
  by (simp add: decode_hash_def decode_hash_pairs_hex)

text \<open>The identity that a restart recovers from the saved record of a child is that of the child,
  with the profile and the generation of the saved state.\<close>

lemma recovered_identity_of_saved:
  assumes "length (id_argv_sha256 i) = 32"
  shows "\<exists>h. decode_hash (pc_argv_sha256 (persistent_child_of i)) = Some h
    \<and> recovered_identity s (persistent_child_of i) profile h
      = i\<lparr>ci_profile_id := profile, ci_generation := ps_generation s\<rparr>"
  using assms by (cases i) (auto simp: persistent_child_of_def decode_hash_hex recovered_identity_def)

section \<open>Properties\<close>

definition plain_codec :: "persistent_state state_codec" where
  "plain_codec = \<lparr>to_json = Some, from_json = Inr\<rparr>"

definition good_load :: "'b load_io" where
  "good_load = \<lparr>li_read = True, li_preserve_rename = True, li_preserve_sync = True, li_backup = True, li_migration = SaveDone\<rparr>"

definition empty_store :: "'b state_store" where
  "empty_store = \<lparr>ss_file = None, ss_temporary = None, ss_corrupt = [], ss_backups = [], ss_last_generation = None\<rparr>"

lemma plain_codec_ok: "codec_ok plain_codec"
  by (simp add: codec_ok_def plain_codec_def)

lemma empty_store_ok: "store_ok c empty_store"
  by (simp add: store_ok_def empty_store_def)

text \<open>C9. Saving is atomic. Whatever system call of a save fails, the next successful load gives
  the old state or the new one, and the new one if the save reported success; a state of an older
  generation than a known one never replaces it.\<close>

theorem save_atomic:
  assumes "codec_ok c" "store_ok c st" "store_save c io s st = (r, st')" "li_read lio"
  shows "store_ok c st'
    \<and> fst (store_load c lio st') =
        Inr (map_option normalise_session (if r = Inr () then Some s else stored c st'))
    \<and> (r \<noteq> Inr () \<longrightarrow> stored c st' = stored c st \<or> stored c st' = Some s)
    \<and> (r = Inr () \<longrightarrow> is_none_or (\<lambda>g. g \<le> ps_generation s) (ss_last_generation st))"
proof -
  note ok = store_save_ok [OF assms(1-3)]
  have "r = Inr () \<longrightarrow> is_none_or (\<lambda>g. g \<le> ps_generation s) (ss_last_generation st)"
    using assms(1,3) by (cases rule: store_save_cases) simp_all
  with ok assms(4) show ?thesis
    by (auto simp: store_load_ok [OF ok(1)] split: option.split)
qed

theorem save_atomic_witness:
  "let s = default_for_save; t = s\<lparr>ps_generation := 4\<rparr>;
       st = snd (store_save plain_codec SaveDone s empty_store);
       bad = snd (store_save plain_codec (TemporaryFails None) t st);
       good = snd (store_save plain_codec SaveDone t st)
   in fst (store_load plain_codec good_load bad) = Inr (Some s)
      \<and> fst (store_load plain_codec good_load good) = Inr (Some (normalise_session t))"
proof -
  let ?s = default_for_save and ?t = "default_for_save\<lparr>ps_generation := 4\<rparr>"
  let ?st = "snd (store_save plain_codec SaveDone ?s empty_store)"
  have ok: "store_ok plain_codec ?st" by code_simp
  have bad: "store_save plain_codec (TemporaryFails None) ?t ?st = (Inl SsIo, ?st)" by code_simp
  have good: "fst (store_save plain_codec SaveDone ?t ?st) = Inr ()" by code_simp
  have "stored plain_codec ?st = Some ?s" "normalise_session ?s = ?s" "li_read (good_load :: persistent_state load_io)"
    by code_simp+
  with save_atomic [OF plain_codec_ok ok bad, of good_load]
    save_atomic [OF plain_codec_ok ok prod.collapse [symmetric], of good_load SaveDone ?t] good bad
  show ?thesis by (simp add: Let_def)
qed

fun is_automatic_intent :: "'b store_op \<Rightarrow> bool" where
  "is_automatic_intent (StAutomaticIntent _ _ _) = True"
| "is_automatic_intent _ = False"

definition forced_stored :: "'b state_codec \<Rightarrow> 'b state_store \<Rightarrow> bool" where
  "forced_stored c st \<longleftrightarrow> store_ok c st \<and> is_some_and (\<lambda>s. ps_operator_policy s = ForcedStandalone) (stored c st)"

lemma forced_stored_act:
  assumes "codec_ok c" "forced_stored c st" "\<not> is_automatic_intent x"
  shows "forced_stored c (store_act c x st)"
proof -
  from assms(2) obtain s where s: "store_ok c st" "stored c st = Some s" "ps_operator_policy s = ForcedStandalone"
    by (auto simp: forced_stored_def is_some_and_iff)
  have "ps_operator_policy t = ForcedStandalone" if "written x (Some (normalise_session s)) = Some t" for t
    using that assms(3) s(3)
    by (cases x) (auto simp: unwrap_or_default_for_save_def normalise_session_def runtime_state_def journal_view_def
        tp_journal_state_def Let_def)
  with s store_act_cases [OF assms(1) s(1), of x] show ?thesis by (auto simp: forced_stored_def)
qed

lemma forced_stored_run:
  "\<lbrakk>codec_ok c; forced_stored c st; list_all (\<lambda>x. \<not> is_automatic_intent x) ops\<rbrakk> \<Longrightarrow> forced_stored c (store_run c st ops)"
  by (induction ops arbitrary: st) (simp_all add: store_run_def forced_stored_act)

text \<open>C10. A forced standalone survives. Once the intent has been saved, no sequence of re-saves of
  the runtime state, journal writes, loads, failures of any of their system calls and restarts,
  short of a saved intent to return to automatic operation, makes a restart come up with another
  policy: the load succeeds, the restored policy is the forced one, and with it no promotion and
  no tensor-parallel session starts.\<close>

theorem force_latch_survives:
  assumes "codec_ok c" "store_ok c st" "persist_force_intent c io ep op st = (Inr s0, st1)"
    and "list_all (\<lambda>x. \<not> is_automatic_intent x) ops" "li_read lio"
  shows "\<exists>s. fst (load_persisted_state c lio (store_run c st1 ops)) = Inr (Some s)
    \<and> ps_operator_policy s = ForcedStandalone
    \<and> automatic_promotion_gate (ps_operator_policy s) pending auto latch epoch' present peer = ForcedStandaloneLatch
    \<and> check_tp_start (ps_operator_policy s) version = TpPolicyForcedStandalone"
proof -
  have "forced_stored c st1"
    using journal_update_ok [OF assms(1,2) assms(3) [unfolded persist_force_intent_def]]
    by (auto simp: forced_stored_def)
  then have "forced_stored c (store_run c st1 ops)" using assms(1,4) by (intro forced_stored_run)
  then show ?thesis
    using assms(5)
    by (auto simp: forced_stored_def is_some_and_iff load_persisted_state_def on_result_def store_load_ok return_act_def normalise_session_def
        automatic_promotion_gate_def automatic_promotion_verdict_def check_tp_start_def)
qed

theorem force_latch_survives_witness:
  "let io = \<lparr>ji_load = good_load, ji_save = SaveDone\<rparr>; lost = \<lparr>ji_load = good_load, ji_save = RenameFails\<rparr>;
       st = snd (persist_force_intent plain_codec io 1 (OperationId 5) empty_store);
       after = store_run plain_codec st [StForceApplied lost 1, StRestart False, StAutomaticApplied io 2, StRestart False]
   in \<exists>s. fst (load_persisted_state plain_codec good_load after) = Inr (Some s)
        \<and> ps_operator_policy s = ForcedStandalone"
proof -
  let ?io = "\<lparr>ji_load = good_load, ji_save = SaveDone\<rparr>" and ?lost = "\<lparr>ji_load = good_load, ji_save = RenameFails\<rparr>"
  let ?run = "persist_force_intent plain_codec ?io 1 (OperationId 5) empty_store"
  have "\<not> isl (fst ?run)" by code_simp
  then obtain s0 where run: "?run = (Inr s0, snd ?run)" by (metis prod.collapse sum.collapse(2))
  have "list_all (\<lambda>x. \<not> is_automatic_intent x)
      [StForceApplied ?lost 1, StRestart False, StAutomaticApplied ?io 2, StRestart False]" by simp
  from force_latch_survives [OF plain_codec_ok empty_store_ok run this, of good_load False False False 0 False 0 None]
  show ?thesis by (auto simp: Let_def good_load_def)
qed

text \<open>A state of version 1 is backed up, replaced by its migration, and loaded with automatic
  policies; a second load reads the migrated file.\<close>

lemma v1_migration:
  assumes "codec_ok c" "ss_file st = Some b" "from_json c b = Inr s" "ps_schema_version s = schema_version_v1"
    and "state_validate (migrate_v1 s) = None" "to_json c (migrate_v1 s) = Some b'"
    and "is_none_or (\<lambda>g. g \<le> ps_generation s) (ss_last_generation st)"
    and "li_read io" "li_backup io" "li_migration io = SaveDone"
  shows "store_load c io st = (Inr (Some (normalise_session (migrate_v1 s))),
      st\<lparr>ss_file := Some b', ss_temporary := None, ss_backups := ss_backups st @ [b],
        ss_last_generation := Some (ps_generation s)\<rparr>)"
  using assms
  by (auto simp: store_load_def seq_def get_state_def preserve_v1_backup_def modify_act_def store_save_def store_put_def
      load_current_def return_act_def fail_act_def migrate_v1_def not_less split: option.split)

text \<open>A corrupt state is moved aside and the restart continues without it, with the automatic
  policy: the corruption of the file also loses a forced standalone.\<close>

lemma corrupt_state_starts_automatic:
  assumes "ss_file st = Some b" "from_json c b = Inl e" "li_read io" "li_preserve_rename io" "li_preserve_sync io"
  shows "load_persisted_state c io st = (Inr None, st\<lparr>ss_file := None, ss_corrupt := ss_corrupt st @ [b]\<rparr>)
    \<and> jv_operator_policy (journal_view None) = Automatic"
  using assms
  by (simp add: load_persisted_state_def on_result_def store_load_def seq_def get_state_def preserve_corrupt_def
      modify_act_def fail_act_def return_act_def journal_view_def)

lemma stop_left_behind_rule:
  "wp (stop_left_behind sha256 os timeout allow port g i)
     (\<lambda>d u. stopped_within sha256 os i timeout (2 * timeout) allow w u
        \<and> (\<forall>h. d = StartSolo h \<longrightarrow> h = g \<and> port = Some True \<and> gone_now os i u)) (\<lambda>_ _. False) w"
  unfolding stop_left_behind_def wp_on_result wp_return
  by (rule wp_mono [OF stop_recovered_owned_rule]) (auto simp: restart_port_def split: option.splits if_splits bool.splits)

text \<open>C12. A restart. A node starts in solo mode, with the saved generation as its baseline, only
  if the port is free and the child that the saved state names is gone. On the way there only a
  process with the saved identity is signalled; a process that merely has the saved number sends
  the node to manual intervention. A restart never fails for a state that a node has saved.\<close>

theorem restart_leaves_no_child:
  assumes "reconcile_restart sha256 os timeout allow port (Some s) w = (r, w')"
    and "ps_child s = Some (persistent_child_of i)" "length (id_argv_sha256 i) = 32" "ps_active_profile s = Some profile"
  shows "\<exists>d. r = Inr d
    \<and> (\<forall>g. d = StartSolo g \<longrightarrow> g = ps_generation s \<and> port = Some True
         \<and> os_observe os (cw_now w') (id_pid i) = Some None)
    \<and> (\<exists>gs. cw_sent w' = cw_sent w @ gs \<and> stop_signals sha256 os i timeout allow gs)"
proof -
  obtain h where h: "decode_hash (pc_argv_sha256 (persistent_child_of i)) = Some h"
    "recovered_identity s (persistent_child_of i) profile h = i\<lparr>ci_profile_id := profile, ci_generation := ps_generation s\<rparr>"
    using recovered_identity_of_saved [OF assms(3)] by blast
  let ?i = "i\<lparr>ci_profile_id := profile, ci_generation := ps_generation s\<rparr>"
  have "verify_at sha256 os ?i t = verify_at sha256 os i t" "id_pid ?i = id_pid i" for t
    by (simp_all add: verify_at_def identity_matches_def split: option.split)
  then have "stop_signals sha256 os ?i timeout allow gs = stop_signals sha256 os i timeout allow gs" for gs
    by (simp add: stop_signals_def sent_to_def [abs_def])
  moreover have "stop_left_behind sha256 os timeout allow port (ps_generation s) ?i w = (r, w')"
    using assms(1,2,4) h by (simp add: reconcile_restart_def)
  ultimately show ?thesis
    using stop_left_behind_rule [of sha256 os timeout allow port "ps_generation s" ?i w]
    by (auto simp: wp_def stopped_within_def split: sum.splits)
qed

theorem restart_leaves_no_child_witness:
  "let i = sample_identity\<lparr>id_argv_sha256 := replicate 32 1\<rparr>;
       s = default_for_save\<lparr>ps_generation := 9, ps_child := Some (persistent_child_of i), ps_active_profile := Some ''q2''\<rparr>;
       run = reconcile_restart (\<lambda>_. replicate 32 1) sample_os 100 False (Some True) (Some s) \<lparr>cw_now = 0, cw_sent = []\<rparr>
   in fst run = Inr (StartSolo 9) \<and> os_observe sample_os (cw_now (snd run)) (id_pid i) = Some None"
proof -
  let ?i = "sample_identity\<lparr>id_argv_sha256 := replicate 32 1\<rparr>"
  let ?s = "default_for_save\<lparr>ps_generation := 9, ps_child := Some (persistent_child_of ?i), ps_active_profile := Some ''q2''\<rparr>"
  let ?run = "reconcile_restart (\<lambda>_. replicate 32 1) sample_os 100 False (Some True) (Some ?s) \<lparr>cw_now = 0, cw_sent = []\<rparr>"
  have "fst ?run = Inr (StartSolo 9)" by code_simp
  with restart_leaves_no_child [OF prod.collapse [symmetric, of ?run], of ?i "''q2''"]
  show ?thesis by (auto simp: Let_def)
qed

end
