(* ===== verification/Tp_Runtime.thy ===== *)
theory Tp_Runtime
  imports Runtime_World State_Store
begin

text \<open>
  The orchestration of tensor parallelism on a node (\<open>src/cluster/production/tp_runtime.rs\<close> and
  \<open>tp_control.rs\<close>): pairing, promotion by the coordinator, the commands a worker handles, the
  fallback to the standalone child, demotion, reconciliation, and the stop for a restart. The
  operations hold one lock (\<open>effects\<close>) from their start to their result, so each is one action on the
  node. What children, peer, store, clock and other tasks answer is read from an environment at a
  counter that every question advances, so that every sequence of answers is possible.
\<close>

section \<open>The node\<close>

record tp_run =
  ts_id :: u64
  ts_operation :: nat
  ts_epoch :: u64

datatype tp_call =
  TpBegun u64
| TpChildStart u64 bool
| TpChildStop bool
| TpSoloStart bool
| TpSoloStop bool

text \<open>What the log of the child has shown (\<open>src/cluster/process/tp.rs\<close>).\<close>

record tp_log_readiness =
  lr_peer :: bool
  lr_bound :: bool
  lr_failed :: bool

definition log_readiness_default :: tp_log_readiness where
  "log_readiness_default = \<lparr>lr_peer = False, lr_bound = False, lr_failed = False\<rparr>"

definition starts_with :: "string \<Rightarrow> string \<Rightarrow> bool" where
  "starts_with line t \<longleftrightarrow> take (length t) line = t"

fun text_contains :: "string \<Rightarrow> string \<Rightarrow> bool" where
  "text_contains [] t \<longleftrightarrow> t = []"
| "text_contains (c # line) t \<longleftrightarrow> starts_with (c # line) t \<or> text_contains line t"

definition observe :: "tp_log_readiness \<Rightarrow> string \<Rightarrow> tp_log_readiness" where
  "observe lr line =
     (let lr1 = (if text_contains line ''TP gate exchange failed'' \<or> text_contains line ''tp hello exchange failed''
                  \<or> text_contains line ''tp: prefill synchronization failed''
                  \<or> text_contains line ''big gate payload exchange failed''
                then lr\<lparr>lr_failed := True\<rparr> else lr);
          lr2 = (if starts_with line ''ds4-tp: worker connected, transport=rdma ''
                  \<or> starts_with line ''ds4-tp: leader connected, transport=rdma ''
                then lr1\<lparr>lr_peer := True\<rparr> else lr1)
      in if list_ex (\<lambda>rank. text_contains line
              (''tensor parallelism bound: rank '' @ rank @ '', 50/50 expert ownership, rdma transport'')) [''0'', ''1'']
         then lr2\<lparr>lr_bound := True\<rparr> else lr2)"

definition log_connected :: "tp_log_readiness \<Rightarrow> bool" where
  "log_connected lr \<longleftrightarrow> lr_peer lr \<and> lr_bound lr \<and> \<not> lr_failed lr"

record tp_node =
  tn_world :: world
  tn_session :: "tp_run option"
  tn_completed :: "tp_run option"
  tn_journal :: persistent_tp
  tn_saved :: persistent_tp
  tn_retry_after :: u64
  tn_startup_deadline :: "nat option"
  tn_lease_expires_at :: u64
  tn_log :: "tp_call list"
  tn_observed :: u64
  tn_readiness :: tp_log_readiness
  tn_tick :: nat

record tp_status =
  tl_running :: bool
  tl_connected :: bool
  tl_http_ready :: bool

definition tp_status_default :: tp_status where
  "tp_status_default = \<lparr>tl_running = False, tl_connected = False, tl_http_ready = False\<rparr>"

datatype tp_command = TpcNode | TpcPair | TpcPrepare | TpcStatus | TpcReady | TpcStop

record tp_request =
  tr_version :: u16
  tr_deployment :: string
  tr_epoch :: u64
  tr_session :: u64
  tr_operation :: nat
  tr_coordinator_address :: nat
  tr_command :: tp_command

record tp_response =
  tx_version :: u16
  tx_deployment :: string
  tx_epoch :: u64
  tx_session :: u64
  tx_operation :: nat
  tx_address :: nat
  tx_status :: tp_status

text \<open>The configuration: the address and the deployment are missing if they cannot be parsed.\<close>

record tp_config =
  tc_role :: local_role
  tc_deployment :: "string option"
  tc_address :: "nat option"
  tc_auto_promote :: bool
  tc_auto_demote :: bool
  tc_promotion_backoff :: u64
  tc_complete_route :: nat
  tc_control_lease :: u64
  tc_store :: bool

record tp_policy_view =
  pv_planned_restart :: bool
  pv_operator_policy :: operation_policy
  pv_pending :: bool
  pv_epoch :: u64
  pv_route_scoped :: bool

datatype warmup_end = WarmupOk | WarmupFailed | WarmupTimeout

record tp_env =
  te_policy :: "nat \<Rightarrow> tp_policy_view"
  te_now :: "nat \<Rightarrow> u64"
  te_instant :: "nat \<Rightarrow> nat"
  te_uuid :: "nat \<Rightarrow> nat"
  te_reply :: "nat \<Rightarrow> tp_request \<Rightarrow> tp_response option"
  te_preflight :: "nat \<Rightarrow> bool"
  te_child_slot :: "nat \<Rightarrow> bool"
  te_child_start :: "nat \<Rightarrow> bool"
  te_child_lines :: "nat \<Rightarrow> string list"
  te_child_running :: "nat \<Rightarrow> bool option"
  te_child_http :: "nat \<Rightarrow> bool"
  te_child_stop :: "nat \<Rightarrow> bool"
  te_polls :: "nat \<Rightarrow> nat"
  te_warmup :: "nat \<Rightarrow> nat \<times> warmup_end"
  te_solo_start :: "nat \<Rightarrow> bool"
  te_solo_stop :: "nat \<Rightarrow> bool"
  te_solo_running :: "nat \<Rightarrow> bool option"
  te_persist :: "nat \<Rightarrow> bool"
  te_written :: "nat \<Rightarrow> bool"
  te_waiting :: "nat \<Rightarrow> gate_sys \<Rightarrow> gate_op list"
  te_between :: "nat \<Rightarrow> gate_sys \<Rightarrow> gate_op list"

datatype tp_error =
  TpAddressMissing | TpDeploymentUnknown | TpPlannedRestart | TpSuperseded | TpRouteUnverified
| TpTransition transition_error | TpPairingState | TpRole | TpPeerFailed | TpPreflight | TpPersist
| TpDrain drain_error | TpSoloStopFailed | TpSoloStartFailed | TpSoloNotRunning
| TpChildStartFailed | TpChildStatusFailed | TpChildStopFailed | TpWorkerExited | TpStalePrepare | TpOtherSession
| TpNoSession | TpStaleSession | TpStaleStop | TpHandshakeIncomplete | TpMismatch | TpDisabled | TpNotPaired
| TpBudget | TpBackoff | TpExhausted | TpNotPrepared | TpChildExited | TpHandshakeTimeout | TpAdmission
| TpWarmup | TpPeerLost | TpChildLost | TpStateWithoutSession

type_synonym 'a tp_act = "(tp_node, tp_error, 'a) sact"

section \<open>Steps\<close>

definition ask :: "(nat \<Rightarrow> 'a) \<Rightarrow> 'a tp_act" where
  "ask f s = (Inr (f (tn_tick s)), s\<lparr>tn_tick := Suc (tn_tick s)\<rparr>)"

definition reads :: "(tp_node \<Rightarrow> 'a) \<Rightarrow> 'a tp_act" where
  "reads f s = (Inr (f s), s)"

definition in_world :: "(tp_error, 'a) act \<Rightarrow> 'a tp_act" where
  "in_world m s = (case m (tn_world s) of (r, w) \<Rightarrow> (r, s\<lparr>tn_world := w\<rparr>))"

definition cluster_now :: "cluster_snapshot tp_act" where
  "cluster_now = reads (\<lambda>s. rw_cluster (tn_world s))"

definition tp_logs :: "tp_call \<Rightarrow> unit tp_act" where
  "tp_logs c = modify_act (\<lambda>s. s\<lparr>tn_log := tn_log s @ [c]\<rparr>)"

text \<open>A call of a lifecycle with its answer in the record of calls.\<close>

definition tp_calls :: "(bool \<Rightarrow> tp_call) \<Rightarrow> (nat \<Rightarrow> bool) \<Rightarrow> tp_error \<Rightarrow> unit tp_act" where
  "tp_calls c f e = seq (ask f) (\<lambda>ok. seq (tp_logs (c ok)) (\<lambda>_. require_ok ok e))"

text \<open>\<open>TpProcessSupervisor\<close>: a start that finds the slot free begins a new observation; a status
  counts the lines of the log that belong to its session, and asks whether the child runs; a stop
  invalidates the observation.\<close>

definition child_start :: "tp_env \<Rightarrow> u64 \<Rightarrow> unit tp_act" where
  "child_start env session =
     seq (ask (te_child_slot env)) (\<lambda>free.
     seq (if free then modify_act (\<lambda>s. s\<lparr>tn_observed := session, tn_readiness := log_readiness_default\<rparr>)
          else return_act ()) (\<lambda>_.
     tp_calls (TpChildStart session) (\<lambda>k. free \<and> te_child_start env k) TpChildStartFailed))"

definition child_status :: "tp_env \<Rightarrow> tp_config \<Rightarrow> u64 \<Rightarrow> tp_status tp_act" where
  "child_status env cfg session =
     seq (ask (te_child_lines env)) (\<lambda>lines.
     seq (modify_act (\<lambda>s. s\<lparr>tn_readiness := foldl observe (tn_readiness s) lines\<rparr>)) (\<lambda>_.
     seq (reads (\<lambda>s. tn_observed s = session \<and> log_connected (tn_readiness s))) (\<lambda>connected.
     seq (ask (te_child_running env)) (\<lambda>answer.
     case answer of
       None \<Rightarrow> fail_act TpChildStatusFailed
     | Some running \<Rightarrow>
         seq (if tc_role cfg = Coordinator \<and> running \<and> connected then ask (te_child_http env) else return_act False) (\<lambda>http.
         return_act \<lparr>tl_running = running, tl_connected = connected \<and> running, tl_http_ready = http\<rparr>)))))"

definition child_stop :: "tp_env \<Rightarrow> unit tp_act" where
  "child_stop env =
     seq (modify_act (\<lambda>s. s\<lparr>tn_readiness := (tn_readiness s)\<lparr>lr_failed := True\<rparr>\<rparr>)) (\<lambda>_.
     tp_calls TpChildStop (te_child_stop env) TpChildStopFailed)"

definition preflight :: "tp_env \<Rightarrow> unit tp_act" where
  "preflight env = seq (ask (te_preflight env)) (\<lambda>ok. require_ok ok TpPreflight)"

text \<open>\<open>persist_tp_journal\<close>. A save that fails may or may not have replaced the file.\<close>

definition persist_journal :: "tp_env \<Rightarrow> tp_config \<Rightarrow> unit tp_act" where
  "persist_journal env cfg =
     (if \<not> tc_store cfg then return_act ()
      else
        seq (ask (\<lambda>k. (te_persist env k, te_written env k))) (\<lambda>(ok, written).
        seq (modify_act (\<lambda>s. if ok \<or> written then s\<lparr>tn_saved := tn_journal s\<rparr> else s)) (\<lambda>_.
        require_ok ok TpPersist)))"

definition change_journal :: "(persistent_tp \<Rightarrow> persistent_tp) \<Rightarrow> unit tp_act" where
  "change_journal f = modify_act (\<lambda>s. s\<lparr>tn_journal := f (tn_journal s)\<rparr>)"

definition unavailable_target :: "unit tp_act" where
  "unavailable_target = in_world (set_target (Unavailable Transition) False)"

text \<open>\<open>wait_for_zero\<close>: what other tasks do to the gate until the count is seen to be zero or the
  timeout fires.\<close>

definition wait_for_zero :: "tp_env \<Rightarrow> unit tp_act" where
  "wait_for_zero env =
     seq (ask (te_waiting env)) (\<lambda>ops.
     seq (in_world (modify_act (\<lambda>w. w\<lparr>rw_gate := gate_run (rw_gate w) (ops (rw_gate w))\<rparr>))) (\<lambda>_.
     seq (reads (\<lambda>s. ag_in_flight (the_gate (rw_gate (tn_world s))))) (\<lambda>n.
     require_ok (n = 0) (TpDrain Timeout))))"

definition drain_gate :: "tp_env \<Rightarrow> u64 \<Rightarrow> unit tp_act" where
  "drain_gate env gen =
     seq (ask (te_waiting env)) (\<lambda>waiting.
     seq (ask (te_between env)) (\<lambda>between.
     in_world (\<lambda>w. case drain (rw_gate w) gen (waiting (rw_gate w)) (between (rw_gate w)) of
       (r, g) \<Rightarrow> (case r of None \<Rightarrow> Inr () | Some e \<Rightarrow> Inl (TpDrain e), w\<lparr>rw_gate := g\<rparr>))))"

section \<open>Requests to the peer\<close>

definition tp_address :: "tp_config \<Rightarrow> nat tp_act" where
  "tp_address cfg = (case tc_address cfg of None \<Rightarrow> fail_act TpAddressMissing | Some a \<Rightarrow> return_act a)"

definition tp_deployment_id :: "tp_config \<Rightarrow> string tp_act" where
  "tp_deployment_id cfg = (case tc_deployment cfg of None \<Rightarrow> fail_act TpDeploymentUnknown | Some d \<Rightarrow> return_act d)"

definition policy_epoch :: "tp_env \<Rightarrow> u64 tp_act" where
  "policy_epoch env = seq (ask (te_policy env)) (\<lambda>v. return_act (pv_epoch v))"

definition tp_request :: "tp_env \<Rightarrow> tp_config \<Rightarrow> tp_command \<Rightarrow> tp_run option \<Rightarrow> tp_request tp_act" where
  "tp_request env cfg command session =
     seq (case session of
            Some s \<Rightarrow> return_act s
          | None \<Rightarrow> seq (ask (te_uuid env)) (\<lambda>op. seq (policy_epoch env) (\<lambda>ep.
              return_act \<lparr>ts_id = 0, ts_operation = op, ts_epoch = ep\<rparr>))) (\<lambda>s.
     seq (tp_deployment_id cfg) (\<lambda>d.
     seq (tp_address cfg) (\<lambda>a.
     return_act \<lparr>tr_version = 1, tr_deployment = d, tr_epoch = ts_epoch s, tr_session = ts_id s,
       tr_operation = ts_operation s, tr_coordinator_address = a, tr_command = command\<rparr>)))"

text \<open>What the client accepts as the reply to a request.\<close>

definition tp_accepts :: "tp_request \<Rightarrow> tp_response \<Rightarrow> bool" where
  "tp_accepts r reply \<longleftrightarrow> tx_version reply = 1 \<and> tx_deployment reply = tr_deployment r
     \<and> tx_epoch reply = tr_epoch r \<and> tx_operation reply = tr_operation r
     \<and> (tr_command r \<in> {TpcNode, TpcPair} \<or> tx_session reply = tr_session r)"

definition renew_lease :: "tp_env \<Rightarrow> tp_config \<Rightarrow> unit tp_act" where
  "renew_lease env cfg = seq (ask (te_now env)) (\<lambda>now. modify_act (\<lambda>s. s\<lparr>tn_lease_expires_at := now + tc_control_lease cfg\<rparr>))"

definition tp_peer :: "tp_env \<Rightarrow> tp_config \<Rightarrow> tp_request \<Rightarrow> tp_response tp_act" where
  "tp_peer env cfg r =
     seq (ask (\<lambda>k. te_reply env k r)) (\<lambda>a.
     case a of
       None \<Rightarrow> fail_act TpPeerFailed
     | Some reply \<Rightarrow>
         if tp_accepts r reply then seq (renew_lease env cfg) (\<lambda>_. return_act reply) else fail_act TpPeerFailed)"

definition ask_peer :: "tp_env \<Rightarrow> tp_config \<Rightarrow> tp_command \<Rightarrow> tp_run option \<Rightarrow> tp_response tp_act" where
  "ask_peer env cfg command session = seq (tp_request env cfg command session) (tp_peer env cfg)"

text \<open>The peer is told to stop; its answer is ignored.\<close>

definition stop_peer :: "tp_env \<Rightarrow> tp_config \<Rightarrow> tp_run \<Rightarrow> unit tp_act" where
  "stop_peer env cfg s =
     seq (tp_request env cfg TpcStop (Some s)) (\<lambda>r.
     on_result (tp_peer env cfg r) (\<lambda>_. return_act ()) (\<lambda>_. return_act ()))"

section \<open>Guards, events and the beginning of a session\<close>

definition tp_note_failure :: "tp_env \<Rightarrow> tp_config \<Rightarrow> u64 \<Rightarrow> bool \<Rightarrow> unit tp_act" where
  "tp_note_failure env cfg session reserved =
     seq (change_journal (\<lambda>j.
       if pt_last_failed_session j < session
       then j\<lparr>pt_last_failed_session := session,
              pt_failed_attempts := (if reserved then pt_failed_attempts j else sat_add (pt_failed_attempts j) 1)\<rparr>
       else j)) (\<lambda>_. persist_journal env cfg)"

definition tp_policy_check :: "tp_env \<Rightarrow> u64 \<Rightarrow> unit tp_act" where
  "tp_policy_check env ep =
     seq (ask (te_policy env)) (\<lambda>v.
     if pv_planned_restart v then fail_act TpPlannedRestart
     else if \<not> (pv_operator_policy v = Automatic \<and> \<not> pv_pending v \<and> pv_epoch v = ep) then fail_act TpSuperseded
     else require_ok (pv_route_scoped v) TpRouteUnverified)"

definition tp_event :: "cluster_event_kind \<Rightarrow> u64 \<Rightarrow> cluster_snapshot tp_act" where
  "tp_event k session = in_world (\<lambda>w.
     case transition (rw_cluster w) (tp_event_for (rw_cluster w) k session) of
       Inl e \<Rightarrow> (Inl (TpTransition e), w)
     | Inr c \<Rightarrow> (Inr c, w\<lparr>rw_cluster := c\<rparr>))"

definition tp_pair_local :: "cluster_snapshot tp_act" where
  "tp_pair_local =
     seq cluster_now (\<lambda>c.
     seq (if cs_state c = SoloStandaloneReady
          then seq (tp_event BeginPairing 0) (\<lambda>_. seq (tp_event PairingReady 0) (\<lambda>_. return_act ()))
          else return_act ()) (\<lambda>_.
     seq cluster_now (\<lambda>c.
     if cs_state c \<noteq> PairedStandaloneReady then fail_act TpPairingState
     else in_world (serve_snapshot True True c))))"

definition tp_pair :: "tp_env \<Rightarrow> tp_config \<Rightarrow> cluster_snapshot tp_act" where
  "tp_pair env cfg =
     (if tc_role cfg \<noteq> Coordinator then fail_act TpRole
      else
        seq (policy_epoch env) (\<lambda>ep.
        seq (tp_policy_check env ep) (\<lambda>_.
        seq (ask_peer env cfg TpcNode None) (\<lambda>_.
        seq (preflight env) (\<lambda>_.
        seq (ask_peer env cfg TpcPair None) (\<lambda>_.
        tp_pair_local))))))"

definition set_deadline :: "tp_env \<Rightarrow> tp_config \<Rightarrow> unit tp_act" where
  "set_deadline env cfg = seq (ask (te_instant env)) (\<lambda>t. modify_act (\<lambda>s. s\<lparr>tn_startup_deadline := Some (t + tc_complete_route cfg)\<rparr>))"

definition tp_begin :: "tp_env \<Rightarrow> tp_config \<Rightarrow> tp_run \<Rightarrow> unit tp_act" where
  "tp_begin env cfg r =
     seq (tp_policy_check env (ts_epoch r)) (\<lambda>_.
     seq cluster_now (\<lambda>c.
     seq (drain_gate env (cs_generation c)) (\<lambda>_.
     seq unavailable_target (\<lambda>_.
     seq (change_journal (\<lambda>j. j\<lparr>pt_last_session := ts_id r\<rparr>)) (\<lambda>_.
     seq (persist_journal env cfg) (\<lambda>_.
     seq (modify_act (\<lambda>s. s\<lparr>tn_session := Some r\<rparr>)) (\<lambda>_.
     seq (tp_logs (TpBegun (ts_id r))) (\<lambda>_.
     seq (set_deadline env cfg) (\<lambda>_.
     seq (tp_event BeginTensorParallel (ts_id r)) (\<lambda>_.
     tp_calls TpSoloStop (te_solo_stop env) TpSoloStopFailed))))))))))"

section \<open>The fallback\<close>

definition tp_states :: "cluster_state set" where
  "tp_states = {TensorParallelReady, TensorParallelStarting, AwaitingTensorParallelWorkerHello}"

definition restore_standalone :: "tp_env \<Rightarrow> tp_run option \<Rightarrow> u64 \<Rightarrow> cluster_snapshot tp_act" where
  "restore_standalone env previous session =
     seq (wait_for_zero env) (\<lambda>_.
     seq (child_stop env) (\<lambda>_.
     seq (modify_act (\<lambda>s. s\<lparr>tn_session := None\<rparr>)) (\<lambda>_.
     seq (tp_event BeginSoloStandalone session) (\<lambda>_.
     seq (on_result (tp_calls TpSoloStart (te_solo_start env) TpSoloStartFailed) return_act
            (\<lambda>e. seq (tp_event RequireManualIntervention session) (\<lambda>_. fail_act e))) (\<lambda>_.
     seq (ask (te_solo_running env)) (\<lambda>running.
     seq (require_ok (running = Some True) TpSoloNotRunning) (\<lambda>_.
     seq (tp_event LocalStandaloneReady session) (\<lambda>ready.
     seq (in_world (change_gate reset_blocked_generation)) (\<lambda>_.
     seq (in_world (serve_snapshot True True ready)) (\<lambda>_.
     seq (modify_act (\<lambda>s. s\<lparr>tn_completed := previous\<rparr>)) (\<lambda>_.
     return_act ready)))))))))))"

definition tp_fallback_effects :: "tp_env \<Rightarrow> cluster_snapshot tp_act" where
  "tp_fallback_effects env =
     seq (in_world (change_gate block)) (\<lambda>_.
     seq unavailable_target (\<lambda>_.
     seq (reads tn_session) (\<lambda>previous.
     let session = (case previous of Some r \<Rightarrow> ts_id r | None \<Rightarrow> 0) in
     seq cluster_now (\<lambda>c.
     seq (if cs_state c \<in> tp_states then seq (tp_event BeginTensorParallelDemotion session) (\<lambda>_. return_act ())
          else return_act ()) (\<lambda>_.
     restore_standalone env previous session)))))"

definition tp_fallback_locked :: "tp_env \<Rightarrow> cluster_snapshot tp_act" where
  "tp_fallback_locked env =
     on_result (tp_fallback_effects env) return_act (\<lambda>e.
     seq (in_world (change_gate block)) (\<lambda>_.
     seq (tp_event RequireManualIntervention 0) (\<lambda>_. fail_act e)))"

section \<open>Promotion\<close>

text \<open>The handshake loop runs until its deadline; \<open>n\<close> polls after the first start before it.\<close>

definition handshake_poll :: "tp_env \<Rightarrow> tp_config \<Rightarrow> tp_run \<Rightarrow> bool tp_act" where
  "handshake_poll env cfg r =
     seq (tp_policy_check env (ts_epoch r)) (\<lambda>_.
     seq (child_status env cfg (ts_id r)) (\<lambda>local.
     seq (ask_peer env cfg TpcStatus (Some r)) (\<lambda>remote.
     seq (require_ok (tl_running local \<and> tl_running (tx_status remote)) TpChildExited) (\<lambda>_.
     return_act (tl_connected local \<and> tl_http_ready local \<and> tl_connected (tx_status remote))))))"

primrec handshake :: "tp_env \<Rightarrow> tp_config \<Rightarrow> tp_run \<Rightarrow> nat \<Rightarrow> unit tp_act" where
  "handshake env cfg r 0 = seq (handshake_poll env cfg r) (\<lambda>finished. require_ok finished TpHandshakeTimeout)"
| "handshake env cfg r (Suc n) =
     seq (handshake_poll env cfg r) (\<lambda>finished. if finished then return_act () else handshake env cfg r n)"

text \<open>The warm-up, with the peer checked at \<open>n\<close> ticks of 100 ms before it ends or times out.\<close>

primrec warmup_ticks :: "tp_env \<Rightarrow> tp_config \<Rightarrow> tp_run \<Rightarrow> warmup_end \<Rightarrow> nat \<Rightarrow> unit tp_act" where
  "warmup_ticks env cfg r fin 0 = require_ok (fin = WarmupOk) TpWarmup"
| "warmup_ticks env cfg r fin (Suc n) =
     seq (tp_policy_check env (ts_epoch r)) (\<lambda>_.
     seq (ask_peer env cfg TpcStatus (Some r)) (\<lambda>remote.
     seq (require_ok (tl_running (tx_status remote) \<and> tl_connected (tx_status remote)) TpPeerLost) (\<lambda>_.
     warmup_ticks env cfg r fin n)))"

definition take_permit :: "unit tp_act" where
  "take_permit = in_world (\<lambda>w.
     case gate_step (rw_gate w) (TryAcquireRecovery True) of
       Inl e \<Rightarrow> (Inl TpAdmission, w)
     | Inr g \<Rightarrow> (Inr (), w\<lparr>rw_gate := g\<rparr>))"

definition give_permit :: "unit tp_act" where
  "give_permit = in_world (modify_act (\<lambda>w. w\<lparr>rw_gate := gate_run (rw_gate w) [DropPermit]\<rparr>))"

definition warmup :: "tp_env \<Rightarrow> tp_config \<Rightarrow> tp_run \<Rightarrow> unit tp_act" where
  "warmup env cfg r =
     seq take_permit (\<lambda>_.
     seq (ask (te_warmup env)) (\<lambda>(n, fin).
     on_result (warmup_ticks env cfg r fin n)
       (\<lambda>_. give_permit)
       (\<lambda>e. seq give_permit (\<lambda>_. fail_act e))))"

text \<open>The body of the promotion, whose error leads to the fallback.\<close>

definition tp_start_pair :: "tp_env \<Rightarrow> tp_config \<Rightarrow> tp_run \<Rightarrow> unit tp_act" where
  "tp_start_pair env cfg r =
     seq (tp_begin env cfg r) (\<lambda>_.
     seq (ask_peer env cfg TpcPrepare (Some r)) (\<lambda>prepared.
     seq (require_ok (tl_running (tx_status prepared)) TpNotPrepared) (\<lambda>_.
     seq (tp_event TensorParallelWorkerPrepared (ts_id r)) (\<lambda>_.
     seq (tp_policy_check env (ts_epoch r)) (\<lambda>_.
     seq (tp_address cfg) (\<lambda>_.
     seq (child_start env (ts_id r)) (\<lambda>_.
     seq (tp_event TensorParallelCoordinatorStarted (ts_id r)) (\<lambda>_.
     seq (ask (te_polls env)) (\<lambda>n.
     seq (handshake env cfg r n) (\<lambda>_.
     seq (tp_event TensorParallelHandshakeHttpReady (ts_id r)) (\<lambda>_.
     return_act ())))))))))))"

definition tp_confirm :: "tp_env \<Rightarrow> tp_config \<Rightarrow> tp_run \<Rightarrow> unit tp_act" where
  "tp_confirm env cfg r =
     seq (tp_policy_check env (ts_epoch r)) (\<lambda>_.
     seq (child_status env cfg (ts_id r)) (\<lambda>local.
     seq (require_ok (tl_running local \<and> tl_connected local \<and> tl_http_ready local) TpChildLost) (\<lambda>_.
     seq (ask_peer env cfg TpcReady (Some r)) (\<lambda>remote.
     seq (require_ok (tl_running (tx_status remote) \<and> tl_connected (tx_status remote)) TpPeerLost) (\<lambda>_.
     tp_policy_check env (ts_epoch r))))))"

definition tp_promotion :: "tp_env \<Rightarrow> tp_config \<Rightarrow> tp_run \<Rightarrow> cluster_snapshot tp_act" where
  "tp_promotion env cfg r =
     seq (tp_start_pair env cfg r) (\<lambda>_.
     seq (warmup env cfg r) (\<lambda>_.
     seq (tp_confirm env cfg r) (\<lambda>_.
     seq (tp_event TensorParallelWarmupDone (ts_id r)) (\<lambda>ready.
     in_world (serve_snapshot True True ready)))))"

definition promotion_failed :: "tp_env \<Rightarrow> tp_config \<Rightarrow> tp_run \<Rightarrow> tp_error \<Rightarrow> cluster_snapshot tp_act" where
  "promotion_failed env cfg r e =
     seq (tp_note_failure env cfg (ts_id r) True) (\<lambda>_.
     seq (in_world (change_gate block)) (\<lambda>_.
     seq (stop_peer env cfg r) (\<lambda>_.
     seq (tp_fallback_locked env) (\<lambda>_.
     seq (ask (te_now env)) (\<lambda>now.
     seq (modify_act (\<lambda>s. s\<lparr>tn_retry_after := now + tc_promotion_backoff cfg\<rparr>)) (\<lambda>_.
     fail_act e))))))"

definition promotion_done :: "tp_env \<Rightarrow> tp_config \<Rightarrow> cluster_snapshot \<Rightarrow> cluster_snapshot tp_act" where
  "promotion_done env cfg ready =
     seq (change_journal (\<lambda>j. j\<lparr>pt_failed_attempts := (if pt_failed_attempts j = 0 then 0 else pt_failed_attempts j - 1)\<rparr>)) (\<lambda>_.
     seq (persist_journal env cfg) (\<lambda>_.
     return_act ready))"

text \<open>The conditions of a promotion, and the session it runs in.\<close>

definition promotion_guard :: "tp_env \<Rightarrow> tp_config \<Rightarrow> tp_run tp_act" where
  "promotion_guard env cfg =
     (if tc_role cfg \<noteq> Coordinator then fail_act TpRole
      else
        seq (policy_epoch env) (\<lambda>ep.
        seq (tp_policy_check env ep) (\<lambda>_.
        seq (require_ok (tc_auto_promote cfg) TpDisabled) (\<lambda>_.
        seq cluster_now (\<lambda>c.
        seq (require_ok (cs_state c = PairedStandaloneReady) TpNotPaired) (\<lambda>_.
        seq (reads tn_journal) (\<lambda>j.
        seq (require_ok (pt_failed_attempts j < 3) TpBudget) (\<lambda>_.
        seq (ask (te_now env)) (\<lambda>now.
        seq (reads tn_retry_after) (\<lambda>after.
        seq (require_ok (after \<le> now) TpBackoff) (\<lambda>_.
        seq (ask_peer env cfg TpcNode None) (\<lambda>peer.
        seq (preflight env) (\<lambda>_.
        seq (reads (\<lambda>s. max (pt_last_session (tn_journal s)) (tx_session peer))) (\<lambda>m.
        seq (require_ok (m \<noteq> - 1) TpExhausted) (\<lambda>_.
        seq (ask (te_uuid env)) (\<lambda>op.
        seq (policy_epoch env) (\<lambda>ep.
        return_act \<lparr>ts_id = m + 1, ts_operation = op, ts_epoch = ep\<rparr>)))))))))))))))))"

definition promote_reserved :: "tp_env \<Rightarrow> tp_config \<Rightarrow> tp_run \<Rightarrow> cluster_snapshot tp_act" where
  "promote_reserved env cfg r =
     seq (change_journal (\<lambda>j. j\<lparr>pt_failed_attempts := pt_failed_attempts j + 1, pt_last_session := ts_id r\<rparr>)) (\<lambda>_.
     seq (persist_journal env cfg) (\<lambda>_.
     on_result (tp_promotion env cfg r) (promotion_done env cfg) (promotion_failed env cfg r)))"

definition tp_promote_owned :: "tp_env \<Rightarrow> tp_config \<Rightarrow> cluster_snapshot tp_act" where
  "tp_promote_owned env cfg = seq (promotion_guard env cfg) (promote_reserved env cfg)"

section \<open>The commands of the peer\<close>

definition tp_match :: "tp_request \<Rightarrow> unit tp_act" where
  "tp_match r = seq (reads tn_session) (\<lambda>session.
     case session of
       None \<Rightarrow> fail_act TpNoSession
     | Some s \<Rightarrow> require_ok (ts_id s = tr_session r \<and> ts_operation s = tr_operation r \<and> ts_epoch s = tr_epoch r)
         TpStaleSession)"

definition handle_node :: "tp_env \<Rightarrow> tp_config \<Rightarrow> tp_status tp_act" where
  "handle_node env cfg = seq (reads tn_session) (\<lambda>session.
     case session of
       None \<Rightarrow> seq (preflight env) (\<lambda>_. return_act tp_status_default)
     | Some s \<Rightarrow> child_status env cfg (ts_id s))"

definition prepare_session :: "tp_env \<Rightarrow> tp_config \<Rightarrow> tp_run \<Rightarrow> unit tp_act" where
  "prepare_session env cfg s =
     seq (tp_begin env cfg s) (\<lambda>_.
     seq (on_result (child_start env (ts_id s)) return_act
            (\<lambda>e. seq (tp_fallback_locked env) (\<lambda>_. fail_act e))) (\<lambda>_.
     seq (child_status env cfg (ts_id s)) (\<lambda>st.
     seq (require_ok (tl_running st) TpWorkerExited) (\<lambda>_.
     seq (tp_event TensorParallelWorkerPrepared (ts_id s)) (\<lambda>_.
     return_act ())))))"

definition handle_prepare :: "tp_env \<Rightarrow> tp_config \<Rightarrow> tp_request \<Rightarrow> tp_status tp_act" where
  "handle_prepare env cfg r =
     (if tc_role cfg \<noteq> Worker then fail_act TpRole
      else
        seq (reads tn_session) (\<lambda>session.
        seq (case session of
               Some s \<Rightarrow> require_ok (ts_id s = tr_session r \<and> ts_operation s = tr_operation r) TpOtherSession
             | None \<Rightarrow>
                 seq (reads (\<lambda>s. pt_last_session (tn_journal s))) (\<lambda>seen.
                 seq (require_ok (seen < tr_session r) TpStalePrepare) (\<lambda>_.
                 seq (preflight env) (\<lambda>_.
                 prepare_session env cfg
                   \<lparr>ts_id = tr_session r, ts_operation = tr_operation r, ts_epoch = tr_epoch r\<rparr>)))) (\<lambda>_.
        child_status env cfg (tr_session r))))"

definition handle_status :: "tp_env \<Rightarrow> tp_config \<Rightarrow> tp_request \<Rightarrow> tp_status tp_act" where
  "handle_status env cfg r =
     seq (tp_match r) (\<lambda>_.
     seq (set_deadline env cfg) (\<lambda>_.
     child_status env cfg (tr_session r)))"

definition handle_ready :: "tp_env \<Rightarrow> tp_config \<Rightarrow> tp_request \<Rightarrow> tp_status tp_act" where
  "handle_ready env cfg r =
     seq (handle_status env cfg r) (\<lambda>st.
     seq (require_ok (tl_running st \<and> tl_connected st) TpHandshakeIncomplete) (\<lambda>_.
     seq cluster_now (\<lambda>c.
     seq (if cs_state c = TensorParallelReady then return_act ()
          else seq (tp_event TensorParallelCoordinatorStarted (tr_session r)) (\<lambda>_.
               seq (tp_event TensorParallelHandshakeHttpReady (tr_session r)) (\<lambda>_.
               seq (tp_event TensorParallelWarmupDone (tr_session r)) (\<lambda>_. return_act ())))) (\<lambda>_.
     seq (in_world (set_target ToCoordinator True)) (\<lambda>_.
     seq (in_world (change_gate start_serving)) (\<lambda>_.
     return_act st))))))"

definition handle_stop :: "tp_env \<Rightarrow> tp_request \<Rightarrow> tp_status tp_act" where
  "handle_stop env r = seq (reads tn_session) (\<lambda>session.
     seq (case session of
            None \<Rightarrow> seq (reads tn_completed) (\<lambda>finished. require_ok
              (case finished of None \<Rightarrow> False | Some s \<Rightarrow> ts_id s = tr_session r \<and> ts_operation s = tr_operation r) TpStaleStop)
          | Some s \<Rightarrow> seq (tp_match r) (\<lambda>_. seq (tp_fallback_locked env) (\<lambda>_. return_act ()))) (\<lambda>_.
     return_act tp_status_default))"

definition handle_command :: "tp_env \<Rightarrow> tp_config \<Rightarrow> tp_request \<Rightarrow> tp_status tp_act" where
  "handle_command env cfg r = (case tr_command r of
       TpcNode \<Rightarrow> handle_node env cfg
     | TpcPair \<Rightarrow> seq tp_pair_local (\<lambda>_. return_act tp_status_default)
     | TpcPrepare \<Rightarrow> handle_prepare env cfg r
     | TpcStatus \<Rightarrow> handle_status env cfg r
     | TpcReady \<Rightarrow> handle_ready env cfg r
     | TpcStop \<Rightarrow> handle_stop env r)"

definition handle_tp :: "tp_env \<Rightarrow> tp_config \<Rightarrow> tp_request \<Rightarrow> tp_response tp_act" where
  "handle_tp env cfg r =
     (if tr_version r \<noteq> 1 then fail_act TpMismatch
      else
        seq (tp_deployment_id cfg) (\<lambda>d.
        seq (require_ok (tr_deployment r = d) TpMismatch) (\<lambda>_.
        seq (if tr_command r = TpcStop then return_act () else tp_policy_check env (tr_epoch r)) (\<lambda>_.
        seq (handle_command env cfg r) (\<lambda>st.
        seq (renew_lease env cfg) (\<lambda>_.
        seq (reads (\<lambda>s. if tr_command r = TpcNode then pt_last_session (tn_journal s) else tr_session r)) (\<lambda>session.
        seq (tp_address cfg) (\<lambda>a.
        return_act \<lparr>tx_version = 1, tx_deployment = tr_deployment r, tx_epoch = tr_epoch r, tx_session = session,
          tx_operation = tr_operation r, tx_address = a, tx_status = st\<rparr>))))))))"

section \<open>Demotion, restart and reconciliation\<close>

definition tp_reset_budget :: "tp_env \<Rightarrow> tp_config \<Rightarrow> unit tp_act" where
  "tp_reset_budget env cfg =
     seq (change_journal (\<lambda>j. j\<lparr>pt_failed_attempts := 0\<rparr>)) (\<lambda>_.
     seq (modify_act (\<lambda>s. s\<lparr>tn_retry_after := 0\<rparr>)) (\<lambda>_.
     persist_journal env cfg))"

definition tp_stop_for_restart :: "tp_env \<Rightarrow> tp_config \<Rightarrow> unit tp_act" where
  "tp_stop_for_restart env cfg =
     seq (in_world (change_gate block)) (\<lambda>_.
     seq (wait_for_zero env) (\<lambda>_.
     seq (reads tn_session) (\<lambda>session.
     seq (case session of
            None \<Rightarrow> return_act ()
          | Some s \<Rightarrow>
              seq (if tc_role cfg = Coordinator then stop_peer env cfg s else return_act ()) (\<lambda>_.
              seq (tp_event BeginTensorParallelDemotion (ts_id s)) (\<lambda>_. return_act ()))) (\<lambda>_.
     seq (child_stop env) (\<lambda>_.
     seq (tp_calls TpSoloStop (te_solo_stop env) TpSoloStopFailed) (\<lambda>_.
     seq (modify_act (\<lambda>s. s\<lparr>tn_session := None\<rparr>)) (\<lambda>_.
     seq unavailable_target (\<lambda>_.
     tp_reset_budget env cfg))))))))"

definition tp_shutdown :: "tp_env \<Rightarrow> unit tp_act" where
  "tp_shutdown env =
     seq (in_world (change_gate block)) (\<lambda>_.
     seq unavailable_target (\<lambda>_.
     seq (wait_for_zero env) (\<lambda>_.
     seq (child_stop env) (\<lambda>_.
     modify_act (\<lambda>s. s\<lparr>tn_session := None\<rparr>)))))"

definition tp_demote :: "tp_env \<Rightarrow> tp_config \<Rightarrow> cluster_snapshot tp_act" where
  "tp_demote env cfg =
     seq (in_world (change_gate block)) (\<lambda>_.
     seq (reads tn_session) (\<lambda>session.
     seq (case session of
            Some s \<Rightarrow> if tc_role cfg = Coordinator then stop_peer env cfg s else return_act ()
          | None \<Rightarrow> return_act ()) (\<lambda>_.
     tp_fallback_locked env)))"

text \<open>An answer whose error is only looked at.\<close>

definition attempt :: "'a tp_act \<Rightarrow> 'a option tp_act" where
  "attempt m = on_result m (\<lambda>a. return_act (Some a)) (\<lambda>_. return_act None)"

definition startup_expired :: "tp_env \<Rightarrow> cluster_state \<Rightarrow> bool tp_act" where
  "startup_expired env state =
     (if state = TensorParallelReady then return_act False
      else seq (reads tn_startup_deadline) (\<lambda>deadline. case deadline of
        None \<Rightarrow> return_act True
      | Some t \<Rightarrow> seq (ask (te_instant env)) (\<lambda>now. return_act (t \<le> now))))"

definition route_failed :: "cluster_state \<Rightarrow> tp_run \<Rightarrow> tp_status option \<Rightarrow> tp_response option \<Rightarrow> bool" where
  "route_failed state s local peer \<longleftrightarrow>
     (case local of None \<Rightarrow> True | Some l \<Rightarrow> \<not> tl_running l \<or> state = TensorParallelReady \<and> \<not> tl_connected l)
   \<or> (case peer of None \<Rightarrow> True | Some p \<Rightarrow> state = TensorParallelReady
        \<and> (\<not> tl_running (tx_status p) \<or> \<not> tl_connected (tx_status p) \<or> tx_session p \<noteq> ts_id s))"

definition reconcile_paired :: "tp_env \<Rightarrow> tp_config \<Rightarrow> cluster_snapshot tp_act" where
  "reconcile_paired env cfg =
     seq (tp_request env cfg TpcNode None) (\<lambda>r.
     seq (attempt (tp_peer env cfg r)) (\<lambda>reply.
     case reply of
       Some _ \<Rightarrow> cluster_now
     | None \<Rightarrow>
         seq (in_world (change_gate block)) (\<lambda>_.
         if tc_auto_demote cfg then tp_fallback_locked env
         else seq (tp_event RequireManualIntervention 0) (\<lambda>_. cluster_now))))"

definition reconcile_failed :: "tp_env \<Rightarrow> tp_config \<Rightarrow> tp_run \<Rightarrow> cluster_snapshot tp_act" where
  "reconcile_failed env cfg s =
     seq (in_world (change_gate block)) (\<lambda>_.
     seq (tp_note_failure env cfg (ts_id s) False) (\<lambda>_.
     if tc_auto_demote cfg
     then seq (if tc_role cfg = Coordinator then stop_peer env cfg s else return_act ()) (\<lambda>_.
          tp_fallback_locked env)
     else seq (tp_event RequireManualIntervention (ts_id s)) (\<lambda>_. cluster_now)))"

definition reconcile_tp :: "tp_env \<Rightarrow> tp_config \<Rightarrow> cluster_state \<Rightarrow> cluster_snapshot tp_act" where
  "reconcile_tp env cfg state =
     seq (reads tn_session) (\<lambda>session.
     case session of
       None \<Rightarrow> fail_act TpStateWithoutSession
     | Some s \<Rightarrow>
         seq (attempt (child_status env cfg (ts_id s))) (\<lambda>local.
         seq (tp_request env cfg TpcNode None) (\<lambda>r.
         seq (attempt (tp_peer env cfg r)) (\<lambda>peer.
         seq (startup_expired env state) (\<lambda>expired.
         if expired \<or> route_failed state s local peer then reconcile_failed env cfg s else cluster_now)))))"

definition tp_reconcile :: "tp_env \<Rightarrow> tp_config \<Rightarrow> cluster_snapshot tp_act" where
  "tp_reconcile env cfg =
     seq cluster_now (\<lambda>c.
     if cs_state c = PairedStandaloneReady then reconcile_paired env cfg
     else if cs_state c \<in> tp_states then reconcile_tp env cfg (cs_state c)
     else cluster_now)"

text \<open>What a new process takes over of the saved journal; \<open>identity\<close> is the digest of the deployment
  and of the link.\<close>

definition tp_take_over :: "string \<Rightarrow> persistent_tp \<Rightarrow> persistent_tp" where
  "tp_take_over identity saved =
     (if pt_identity saved \<noteq> identity then saved\<lparr>pt_identity := identity, pt_failed_attempts := 0\<rparr> else saved)"

definition tp_runtime_new :: "string \<Rightarrow> world \<Rightarrow> tp_node \<Rightarrow> tp_node" where
  "tp_runtime_new identity w s = s\<lparr>tn_world := w, tn_session := None, tn_completed := None,
     tn_journal := tp_take_over identity (tn_saved s), tn_retry_after := 0, tn_startup_deadline := None, tn_observed := 0, tn_readiness := log_readiness_default\<rparr>"

section \<open>Histories\<close>

datatype tp_op =
  OpPair | OpPromote | OpHandle tp_request | OpDemote | OpFallback | OpReconcile | OpStopForRestart
| OpResetBudget | OpRestart string world

fun tp_step :: "tp_env \<Rightarrow> tp_config \<Rightarrow> tp_node \<Rightarrow> tp_op \<Rightarrow> tp_node" where
  "tp_step env cfg s OpPair = snd (tp_pair env cfg s)"
| "tp_step env cfg s OpPromote = snd (tp_promote_owned env cfg s)"
| "tp_step env cfg s (OpHandle r) = snd (handle_tp env cfg r s)"
| "tp_step env cfg s OpDemote = snd (tp_demote env cfg s)"
| "tp_step env cfg s OpFallback = snd (tp_fallback_locked env s)"
| "tp_step env cfg s OpReconcile = snd (tp_reconcile env cfg s)"
| "tp_step env cfg s OpStopForRestart = snd (tp_stop_for_restart env cfg s)"
| "tp_step env cfg s OpResetBudget = snd (tp_reset_budget env cfg s)"
| "tp_step env cfg s (OpRestart identity w) = tp_runtime_new identity w s"

definition tp_history :: "tp_env \<Rightarrow> tp_config \<Rightarrow> tp_node \<Rightarrow> tp_op list \<Rightarrow> tp_node" where
  "tp_history env cfg = foldl (tp_step env cfg)"

end
