(* ===== verification/Control_Auth.thy ===== *)
theory Control_Auth
  imports Text_Codec
begin

text \<open>
  Request authentication of the peer control plane, \<open>src/cluster/auth.rs\<close>: the shared
  secret, the signed headers, the canonical message, \<open>sign\<close> and \<open>verify\<close> with
  the clock-skew window and the nonce table.

  SHA-256 and HMAC come from the crates \<open>sha2\<close> and \<open>hmac\<close>: they are the
  arguments \<open>sha256\<close> and \<open>hmac\<close> (key, then message) of the definitions. A
  theorem that needs it assumes the documented tag length of 32 bytes. A verification
  returns its result and the authenticator whose nonce table it may have changed; the table
  is only touched under its mutex, so a history of requests is a sequence of such calls.
\<close>

section \<open>Model\<close>

definition CONTROL_BODY_LIMIT :: nat where "CONTROL_BODY_LIMIT = 64 * 1024"
definition CONTROL_CLOCK_SKEW_MILLIS :: u64 where "CONTROL_CLOCK_SKEW_MILLIS = 30000"
definition CONTROL_NONCE_TTL_MILLIS :: u64 where "CONTROL_NONCE_TTL_MILLIS = 5 * 60000"

lemmas auth_consts = CONTROL_BODY_LIMIT_def CONTROL_CLOCK_SKEW_MILLIS_def CONTROL_NONCE_TTL_MILLIS_def

datatype ip_addr = V4 u32 | V6 "128 word"

datatype auth_error =
  InvalidSecret | BodyTooLarge | InvalidCanonicalFields | InvalidNonce | ClockSkew
| InvalidTimestamp | WrongNode | WrongSource | InvalidSignature | Replay | AuthUnavailable

definition control_secret :: "bytes \<Rightarrow> auth_error + bytes" where
  "control_secret bs = (if length bs < 32 then Inl InvalidSecret else Inr bs)"

record signed_headers =
  sh_node_id :: string
  sh_timestamp_millis :: u64
  sh_nonce :: string
  sh_signature :: string

definition from_header_values ::
  "string \<Rightarrow> string \<Rightarrow> string \<Rightarrow> string \<Rightarrow> auth_error + signed_headers" where
  "from_header_values node ts nonce sig =
     (case parse_u64 ts of
        None \<Rightarrow> Inl InvalidTimestamp
      | Some t \<Rightarrow> Inr \<lparr>sh_node_id = node, sh_timestamp_millis = t, sh_nonce = nonce, sh_signature = sig\<rparr>)"

record authenticated_peer =
  ap_node_id :: string
  ap_source_ip :: ip_addr
  ap_timestamp_millis :: u64

record authenticator =
  au_secret :: bytes
  au_expected_node :: "string option"
  au_expected_source :: ip_addr
  au_nonce_expiry :: "string \<times> string \<rightharpoonup> u64"

definition authenticator_new :: "bytes \<Rightarrow> string \<Rightarrow> ip_addr \<Rightarrow> authenticator" where
  "authenticator_new secret node ip =
     \<lparr>au_secret = secret, au_expected_node = Some node, au_expected_source = ip,
      au_nonce_expiry = Map.empty\<rparr>"

definition authenticator_new_at_source :: "bytes \<Rightarrow> ip_addr \<Rightarrow> authenticator" where
  "authenticator_new_at_source secret ip =
     \<lparr>au_secret = secret, au_expected_node = None, au_expected_source = ip,
      au_nonce_expiry = Map.empty\<rparr>"

definition is_ascii_uppercase :: "char \<Rightarrow> bool" where
  "is_ascii_uppercase c = (let n = (of_char c :: nat) in 65 \<le> n \<and> n \<le> 90)"

definition is_ascii_alphanumeric :: "char \<Rightarrow> bool" where
  "is_ascii_alphanumeric c =
     (let n = (of_char c :: nat)
      in 48 \<le> n \<and> n \<le> 57 \<or> 65 \<le> n \<and> n \<le> 90 \<or> 97 \<le> n \<and> n \<le> 122)"

definition has_line_break :: "string \<Rightarrow> bool" where
  "has_line_break s = list_ex (\<lambda>c. c = CHR 0x0D \<or> c = CHR 0x0A) s"

definition validate_body_and_fields :: "string \<Rightarrow> string \<Rightarrow> bytes \<Rightarrow> auth_error option" where
  "validate_body_and_fields mthd path body =
     (if length body > CONTROL_BODY_LIMIT then Some BodyTooLarge
      else if mthd = [] \<or> \<not> list_all is_ascii_uppercase mthd
        \<or> take 1 path \<noteq> ''/'' \<or> has_line_break mthd \<or> has_line_break path
      then Some InvalidCanonicalFields
      else None)"

definition validate_nonce :: "string \<Rightarrow> auth_error option" where
  "validate_nonce nonce =
     (if 16 \<le> length nonce \<and> length nonce \<le> 128
        \<and> list_all (\<lambda>c. is_ascii_alphanumeric c \<or> c \<in> set ''-_.'') nonce
      then None else Some InvalidNonce)"

definition canonical_message ::
  "(bytes \<Rightarrow> bytes) \<Rightarrow> string \<Rightarrow> string \<Rightarrow> u64 \<Rightarrow> string \<Rightarrow> bytes \<Rightarrow> bytes" where
  "canonical_message sha256 mthd path ts nonce body =
     str_bytes (mthd @ CHR 0x0A # path @ CHR 0x0A # show_u64 ts @ CHR 0x0A # nonce @ CHR 0x0A #
       encode_lower_hex (sha256 body))"

definition signature ::
  "(bytes \<Rightarrow> bytes) \<Rightarrow> (bytes \<Rightarrow> bytes \<Rightarrow> bytes) \<Rightarrow> bytes \<Rightarrow>
   string \<Rightarrow> string \<Rightarrow> u64 \<Rightarrow> string \<Rightarrow> bytes \<Rightarrow> bytes" where
  "signature sha256 hmac secret mthd path ts nonce body =
     hmac secret (canonical_message sha256 mthd path ts nonce body)"

definition sign ::
  "(bytes \<Rightarrow> bytes) \<Rightarrow> (bytes \<Rightarrow> bytes \<Rightarrow> bytes) \<Rightarrow> authenticator \<Rightarrow>
   string \<Rightarrow> string \<Rightarrow> string \<Rightarrow> u64 \<Rightarrow> string \<Rightarrow> bytes \<Rightarrow> auth_error + signed_headers" where
  "sign sha256 hmac a node mthd path ts nonce body =
     (case validate_body_and_fields mthd path body of
        Some e \<Rightarrow> Inl e
      | None \<Rightarrow> case validate_nonce nonce of
          Some e \<Rightarrow> Inl e
        | None \<Rightarrow> Inr \<lparr>sh_node_id = node, sh_timestamp_millis = ts, sh_nonce = nonce,
            sh_signature = encode_lower_hex (signature sha256 hmac (au_secret a) mthd path ts nonce body)\<rparr>)"

record control_call =
  cc_method :: string
  cc_path :: string
  cc_body :: bytes
  cc_source_ip :: ip_addr
  cc_headers :: signed_headers
  cc_now :: u64

text \<open>Everything \<open>verify\<close> checks before it locks the nonce table.\<close>

definition verify_request ::
  "(bytes \<Rightarrow> bytes) \<Rightarrow> (bytes \<Rightarrow> bytes \<Rightarrow> bytes) \<Rightarrow> authenticator \<Rightarrow> control_call \<Rightarrow>
   auth_error option" where
  "verify_request sha256 hmac a c =
     (let h = cc_headers c in
      case validate_body_and_fields (cc_method c) (cc_path c) (cc_body c) of
        Some e \<Rightarrow> Some e
      | None \<Rightarrow> case validate_nonce (sh_nonce h) of
          Some e \<Rightarrow> Some e
        | None \<Rightarrow>
            if is_some_and (\<lambda>n. sh_node_id h \<noteq> n) (au_expected_node a) then Some WrongNode
            else if cc_source_ip c \<noteq> au_expected_source a then Some WrongSource
            else if abs_diff (sh_timestamp_millis h) (cc_now c) > CONTROL_CLOCK_SKEW_MILLIS
            then Some ClockSkew
            else case decode_lower_hex_32 (sh_signature h) of
                None \<Rightarrow> Some InvalidSignature
              | Some supplied \<Rightarrow>
                  if hmac (au_secret a) (canonical_message sha256 (cc_method c) (cc_path c)
                       (sh_timestamp_millis h) (sh_nonce h) (cc_body c)) \<noteq> supplied
                  then Some InvalidSignature
                  else None)"

definition verify ::
  "(bytes \<Rightarrow> bytes) \<Rightarrow> (bytes \<Rightarrow> bytes \<Rightarrow> bytes) \<Rightarrow> authenticator \<Rightarrow> control_call \<Rightarrow>
   (auth_error + authenticated_peer) \<times> authenticator" where
  "verify sha256 hmac a c =
     (case verify_request sha256 hmac a c of
        Some e \<Rightarrow> (Inl e, a)
      | None \<Rightarrow>
          let h = cc_headers c;
              key = (sh_node_id h, sh_nonce h);
              nonces = retain (\<lambda>_ expires_at. expires_at > cc_now c) (au_nonce_expiry a)
          in if nonces key \<noteq> None then (Inl Replay, a\<lparr>au_nonce_expiry := nonces\<rparr>)
             else (Inr \<lparr>ap_node_id = sh_node_id h, ap_source_ip = cc_source_ip c,
                        ap_timestamp_millis = sh_timestamp_millis h\<rparr>,
                   a\<lparr>au_nonce_expiry :=
                       nonces(key \<mapsto> sat_add (cc_now c) CONTROL_NONCE_TTL_MILLIS)\<rparr>))"

text \<open>A history of verifications on one authenticator.\<close>

definition verify_history ::
  "(bytes \<Rightarrow> bytes) \<Rightarrow> (bytes \<Rightarrow> bytes \<Rightarrow> bytes) \<Rightarrow> authenticator \<Rightarrow> control_call list \<Rightarrow>
   authenticator" where
  "verify_history sha256 hmac a cs = foldl (\<lambda>a c. snd (verify sha256 hmac a c)) a cs"

definition accepted :: "(auth_error + authenticated_peer) \<times> authenticator \<Rightarrow> bool" where
  "accepted r \<longleftrightarrow> (case fst r of Inr _ \<Rightarrow> True | Inl _ \<Rightarrow> False)"

section \<open>The canonical message\<close>

lemma split_at_newline:
  "x \<notin> set a \<Longrightarrow> x \<notin> set a' \<Longrightarrow> a @ x # b = a' @ x # b' \<longleftrightarrow> a = a' \<and> b = b'"
proof (induction a arbitrary: a')
  case Nil
  then show ?case by (cases a') auto
next
  case (Cons y a)
  then show ?case by (cases a') auto
qed

lemma fields_no_newline:
  assumes "validate_body_and_fields mthd path body = None"
  shows "CHR 0x0A \<notin> set mthd" "CHR 0x0A \<notin> set path"
  using assms by (auto simp: validate_body_and_fields_def has_line_break_def list_ex_iff split: if_splits)

lemma nonce_no_newline:
  assumes "validate_nonce nonce = None"
  shows "CHR 0x0A \<notin> set nonce"
proof
  assume "CHR 0x0A \<in> set nonce"
  moreover have "list_all (\<lambda>c. is_ascii_alphanumeric c \<or> c \<in> set ''-_.'') nonce"
    using assms by (simp add: validate_nonce_def split: if_splits)
  ultimately have "is_ascii_alphanumeric (CHR 0x0A) \<or> CHR 0x0A \<in> set ''-_.''"
    by (auto simp: list_all_iff)
  then show False by (simp add: is_ascii_alphanumeric_def)
qed

text \<open>C21. The canonical message determines what it signs: for requests that pass the field
  validation, two canonical messages are equal exactly when the method, the path, the
  timestamp, the nonce and the digest of the body are equal. No field can be shifted into
  its neighbour.\<close>

theorem canonical_message_injective:
  assumes "validate_body_and_fields m p b = None" "validate_nonce n = None"
    and "validate_body_and_fields m' p' b' = None" "validate_nonce n' = None"
  shows "canonical_message sha256 m p t n b = canonical_message sha256 m' p' t' n' b'
    \<longleftrightarrow> m = m' \<and> p = p' \<and> t = t' \<and> n = n' \<and> sha256 b = sha256 b'"
  using fields_no_newline [OF assms(1)] fields_no_newline [OF assms(3)]
    nonce_no_newline [OF assms(2)] nonce_no_newline [OF assms(4)]
    newline_not_in_show [of t] newline_not_in_show [of t']
  by (simp add: canonical_message_def split_at_newline encode_hex_inj)

theorem canonical_message_injective_witness:
  "canonical_message id ''GET'' ''/a'' 1 ''nonce-0123456789'' []
   \<noteq> canonical_message id ''GET'' ''/a'' 2 ''nonce-0123456789'' []"
  using canonical_message_injective
    [of "''GET''" "''/a''" "[]" "''nonce-0123456789''" "''GET''" "''/a''" "[]" "''nonce-0123456789''"
      id 1 2]
  by (simp add: validate_body_and_fields_def validate_nonce_def is_ascii_uppercase_def
      is_ascii_alphanumeric_def has_line_break_def auth_consts)

section \<open>Signing and verifying\<close>

lemma verify_accepts:
  assumes "verify_request sha256 hmac a c = None"
    and "is_none_or (\<lambda>e. e \<le> cc_now c) (au_nonce_expiry a (sh_node_id (cc_headers c), sh_nonce (cc_headers c)))"
  shows "fst (verify sha256 hmac a c) =
    Inr \<lparr>ap_node_id = sh_node_id (cc_headers c), ap_source_ip = cc_source_ip c,
         ap_timestamp_millis = sh_timestamp_millis (cc_headers c)\<rparr>"
  using assms by (auto simp: verify_def Let_def is_none_or_iff retain_None_iff)

lemma accepted_request: "accepted (verify sha256 hmac a c) \<Longrightarrow> verify_request sha256 hmac a c = None"
  by (auto simp: accepted_def verify_def split: option.splits)

lemma signed_request_verifies:
  assumes "\<And>k m. length (hmac k m) = 32"
    and "sign sha256 hmac s node mthd path ts nonce body = Inr h"
    and "au_secret a = au_secret s" "is_none_or ((=) node) (au_expected_node a)"
    and "abs_diff ts now \<le> CONTROL_CLOCK_SKEW_MILLIS"
  shows "verify_request sha256 hmac a \<lparr>cc_method = mthd, cc_path = path, cc_body = body,
    cc_source_ip = au_expected_source a, cc_headers = h, cc_now = now\<rparr> = None"
  using assms
  by (auto simp: verify_request_def sign_def signature_def is_none_or_iff is_some_and_iff
      not_less split: option.splits)

text \<open>Completeness of authentication: a request that one side signs is accepted by
  every authenticator that holds the same secret, expects that node (or any node) at the
  source the request comes from, reads a clock within the skew of the timestamp, and holds
  no unexpired entry for the nonce. The result carries the node and the timestamp signed.\<close>

lemma signed_request_accepted:
  assumes tag_length: "\<And>k m. length (hmac k m) = 32"
    and "sign sha256 hmac s node mthd path ts nonce body = Inr h"
    and "au_secret a = au_secret s" "is_none_or ((=) node) (au_expected_node a)"
    and "abs_diff ts now \<le> CONTROL_CLOCK_SKEW_MILLIS"
    and "is_none_or (\<lambda>e. e \<le> now) (au_nonce_expiry a (node, nonce))"
  shows "fst (verify sha256 hmac a \<lparr>cc_method = mthd, cc_path = path, cc_body = body,
      cc_source_ip = au_expected_source a, cc_headers = h, cc_now = now\<rparr>)
    = Inr \<lparr>ap_node_id = node, ap_source_ip = au_expected_source a, ap_timestamp_millis = ts\<rparr>"
proof -
  have h: "sh_node_id h = node" "sh_nonce h = nonce" "sh_timestamp_millis h = ts"
    using assms(2) by (auto simp: sign_def split: option.splits)
  show ?thesis
    using verify_accepts [OF signed_request_verifies [OF assms(1-5)]] assms(6) h by simp
qed

lemmas auth_eval = validate_body_and_fields_def validate_nonce_def is_ascii_uppercase_def
  is_ascii_alphanumeric_def has_line_break_def auth_consts sign_def authenticator_new_def
  authenticator_new_at_source_def abs_diff_def

text \<open>C20. Soundness of authentication: an accepted request came from the configured source
  address and node, was stamped within the clock skew of the receiver's clock, and carries
  the tag of its own method, path, timestamp, nonce and body under the shared secret.\<close>

theorem accepted_is_authentic:
  assumes "accepted (verify sha256 hmac a c)"
  shows "cc_source_ip c = au_expected_source a
    \<and> is_none_or ((=) (sh_node_id (cc_headers c))) (au_expected_node a)
    \<and> abs_diff (sh_timestamp_millis (cc_headers c)) (cc_now c) \<le> CONTROL_CLOCK_SKEW_MILLIS
    \<and> decode_lower_hex_32 (sh_signature (cc_headers c)) =
        Some (signature sha256 hmac (au_secret a) (cc_method c) (cc_path c)
          (sh_timestamp_millis (cc_headers c)) (sh_nonce (cc_headers c)) (cc_body c))"
  using accepted_request [OF assms]
  by (auto simp: verify_request_def Let_def signature_def is_some_and_iff is_none_or_iff not_less
      split: option.splits if_splits)

theorem accepted_is_authentic_witness:
  "\<exists>h. accepted (verify id (\<lambda>_ _. replicate 32 7) (authenticator_new (replicate 32 1) ''b'' (V4 2))
        \<lparr>cc_method = ''GET'', cc_path = ''/x'', cc_body = [], cc_source_ip = V4 2,
         cc_headers = h, cc_now = 1500\<rparr>)
    \<and> sh_node_id h = ''b''"
proof -
  obtain h where h: "sign id (\<lambda>_ _. replicate 32 7)
      (authenticator_new (replicate 32 1) ''a'' (V4 1)) ''b''
      ''GET'' ''/x'' 1000 ''nonce-0123456789'' [] = Inr h"
    by (simp add: auth_eval)
  have "verify_request id (\<lambda>_ _. replicate 32 7) (authenticator_new (replicate 32 1) ''b'' (V4 2))
    \<lparr>cc_method = ''GET'', cc_path = ''/x'', cc_body = [], cc_source_ip = V4 2,
     cc_headers = h, cc_now = 1500\<rparr> = None"
    using signed_request_verifies [OF _ h, of "authenticator_new (replicate 32 1) ''b'' (V4 2)" 1500]
    by (simp add: auth_eval)
  from verify_accepts [OF this] have
    "accepted (verify id (\<lambda>_ _. replicate 32 7) (authenticator_new (replicate 32 1) ''b'' (V4 2))
      \<lparr>cc_method = ''GET'', cc_path = ''/x'', cc_body = [], cc_source_ip = V4 2,
       cc_headers = h, cc_now = 1500\<rparr>)"
    by (simp add: accepted_def authenticator_new_def)
  from accepted_is_authentic [OF this] this show ?thesis
    by (auto simp: authenticator_new_def)
qed

section \<open>Replays\<close>

text \<open>What the nonce table still knows at time \<open>now\<close> of an entry that expires at
  \<open>e\<close>.\<close>

definition remembers :: "authenticator \<Rightarrow> string \<times> string \<Rightarrow> u64 \<Rightarrow> u64 \<Rightarrow> bool" where
  "remembers a key e now \<longleftrightarrow>
     e \<le> now \<or> (\<exists>e'. au_nonce_expiry a key = Some e' \<and> e \<le> e')"

lemma verify_remembers:
  assumes "remembers a key e now" "now \<le> cc_now c"
  shows "remembers (snd (verify sha256 hmac a c)) key e (cc_now c)"
proof (cases "e \<le> cc_now c")
  case True
  then show ?thesis by (simp add: remembers_def)
next
  case False
  with assms obtain e' where e': "au_nonce_expiry a key = Some e'" "e \<le> e'"
    by (auto simp: remembers_def)
  with False have "cc_now c < e'" by simp
  moreover have "e \<le> sat_add (cc_now c) CONTROL_NONCE_TTL_MILLIS"
    if "au_nonce_expiry a key = None" using that e' by simp
  ultimately show ?thesis using e' False
    by (auto simp: remembers_def verify_def Let_def retain_def split: option.splits)
qed

lemma history_remembers:
  assumes "remembers a key e now" "sorted (now # map cc_now cs)"
  shows "remembers (verify_history sha256 hmac a cs) key e (last (now # map cc_now cs))"
  using assms
proof (induction cs arbitrary: a now)
  case Nil
  then show ?case by (simp add: verify_history_def)
next
  case (Cons c cs)
  then show ?case
    using verify_remembers [of a key e now c sha256 hmac]
    by (auto simp: verify_history_def)
qed

lemma remembered_is_replay:
  assumes "remembers a (sh_node_id (cc_headers c), sh_nonce (cc_headers c)) e (cc_now c)"
    and "cc_now c < e"
  shows "\<not> accepted (verify sha256 hmac a c)"
  using assms
  by (auto simp: remembers_def accepted_def verify_def Let_def retain_def split: option.splits)

lemma remembers_mono: "remembers a key e now \<Longrightarrow> now \<le> now' \<Longrightarrow> remembers a key e now'"
  by (auto simp: remembers_def)

lemma accepted_remembers:
  assumes "accepted (verify sha256 hmac a c)"
  shows "remembers (snd (verify sha256 hmac a c)) (sh_node_id (cc_headers c), sh_nonce (cc_headers c))
    (sat_add (cc_now c) CONTROL_NONCE_TTL_MILLIS) (cc_now c)"
  using assms by (auto simp: remembers_def accepted_def verify_def Let_def split: option.splits if_splits)

text \<open>A timestamp that was fresh at \<open>now\<close> is stale once a nonce accepted then has
  expired: the skew window is shorter than the nonce's life.\<close>

lemma expired_nonce_is_stale:
  assumes "abs_diff t now \<le> CONTROL_CLOCK_SKEW_MILLIS"
    and "unat now + 300000 < 2 ^ 64"
    and "sat_add now CONTROL_NONCE_TTL_MILLIS \<le> now'"
  shows "abs_diff t now' > CONTROL_CLOCK_SKEW_MILLIS"
  using assms
  by (simp add: word_le_nat_alt word_less_nat_alt rust_num auth_consts split: if_splits; linarith)



section \<open>The node is not signed\<close>

lemma verify_request_ignores_node:
  assumes "au_expected_node a = None"
  shows "verify_request sha256 hmac a (c\<lparr>cc_headers := (cc_headers c)\<lparr>sh_node_id := node\<rparr>\<rparr>)
    = verify_request sha256 hmac a c"
  using assms by (simp add: verify_request_def Let_def cong: option.case_cong)

lemma verify_keeps_config: "au_expected_node (snd (verify sha256 hmac a c)) = au_expected_node a"
  "au_secret (snd (verify sha256 hmac a c)) = au_secret a"
  "au_expected_source (snd (verify sha256 hmac a c)) = au_expected_source a"
  by (simp_all add: verify_def Let_def split: option.splits)

lemma verify_request_config:
  "au_expected_node a' = au_expected_node a \<Longrightarrow> au_secret a' = au_secret a \<Longrightarrow>
   au_expected_source a' = au_expected_source a \<Longrightarrow>
   verify_request sha256 hmac a' c = verify_request sha256 hmac a c"
  by (simp add: verify_request_def Let_def cong: option.case_cong)

text \<open>C38. The node header is outside the signature, and the nonce table is keyed by it. An
  authenticator for any node at a source (\<open>new_at_source\<close>, the one the serving side
  uses) that has just accepted its first request accepts the same request again under any
  other node name, with no knowledge of the secret, and reports that name as
  authenticated.\<close>

theorem replay_under_other_node:
  assumes "accepted (verify sha256 hmac (authenticator_new_at_source secret ip) c)"
    and "node \<noteq> sh_node_id (cc_headers c)"
  shows "fst (verify sha256 hmac (snd (verify sha256 hmac (authenticator_new_at_source secret ip) c))
      (c\<lparr>cc_headers := (cc_headers c)\<lparr>sh_node_id := node\<rparr>\<rparr>))
    = Inr \<lparr>ap_node_id = node, ap_source_ip = cc_source_ip c,
           ap_timestamp_millis = sh_timestamp_millis (cc_headers c)\<rparr>"
proof -
  let ?a = "authenticator_new_at_source secret ip"
  let ?a' = "snd (verify sha256 hmac ?a c)"
  let ?c' = "c\<lparr>cc_headers := (cc_headers c)\<lparr>sh_node_id := node\<rparr>\<rparr>"
  have "verify_request sha256 hmac ?a c = None" by (rule accepted_request [OF assms(1)])
  then have "verify_request sha256 hmac ?a' ?c' = None"
    using verify_request_ignores_node [of ?a]
      verify_request_config [OF verify_keeps_config, of sha256 hmac sha256 hmac ?a c]
    by (simp add: authenticator_new_at_source_def)
  moreover have "au_nonce_expiry ?a' (node, sh_nonce (cc_headers c)) = None"
    using assms(2) by (simp add: verify_def Let_def authenticator_new_at_source_def split: option.splits)
  ultimately show ?thesis using verify_accepts [of sha256 hmac ?a' ?c'] by simp
qed

theorem replay_under_other_node_witness:
  "\<exists>c. accepted (verify id (\<lambda>_ _. replicate 32 7) (authenticator_new_at_source (replicate 32 1) (V4 2)) c)
    \<and> sh_node_id (cc_headers c) = ''b''
    \<and> accepted (verify id (\<lambda>_ _. replicate 32 7)
        (snd (verify id (\<lambda>_ _. replicate 32 7) (authenticator_new_at_source (replicate 32 1) (V4 2)) c))
        (c\<lparr>cc_headers := (cc_headers c)\<lparr>sh_node_id := ''mallory''\<rparr>\<rparr>))"
proof -
  obtain h where h: "sign id (\<lambda>_ _. replicate 32 7)
      (authenticator_new (replicate 32 1) ''a'' (V4 1)) ''b''
      ''GET'' ''/x'' 1000 ''nonce-0123456789'' [] = Inr h"
    by (simp add: auth_eval)
  define c where "c = \<lparr>cc_method = ''GET'', cc_path = ''/x'', cc_body = [], cc_source_ip = V4 2,
     cc_headers = h, cc_now = 1500\<rparr>"
  define a where "a = authenticator_new_at_source (replicate 32 1) (V4 2)"
  have "verify_request id (\<lambda>_ _. replicate 32 7) a c = None"
    using signed_request_verifies [OF _ h, of a 1500] unfolding a_def c_def by (simp add: auth_eval)
  from verify_accepts [OF this] have acc: "accepted (verify id (\<lambda>_ _. replicate 32 7) a c)"
    by (simp add: accepted_def a_def authenticator_new_at_source_def)
  moreover have "sh_node_id (cc_headers c) = ''b''" using h by (auto simp: c_def auth_eval)
  ultimately show ?thesis
    using replay_under_other_node [OF acc [unfolded a_def], of "''mallory''"] unfolding a_def
    by (intro exI [of _ c]) (simp add: accepted_def)
qed

end
