(* ===== verification/Control_Plane.thy ===== *)
theory Control_Plane
  imports Control_Auth Op_Lease
begin

text \<open>
  The peer control protocol of \<open>src/cluster/control.rs\<close>: descriptors, commands and
  messages, the peer lease, and the processor both roles share. A handler may change its
  state and still refuse the request (the generation is advanced before validation, and a
  request from an unscoped route withdraws the route), so it returns its result together
  with the next state. Times are the caller's milliseconds.
\<close>

section \<open>Protocol data\<close>

datatype control_role = RoleCoordinator | RoleWorker

datatype control_mode =
  CmSoloStandalone | CmPairedStandalone | CmDistributedLayerParallel
| CmDistributedTensorParallel | CmTransitioning

datatype control_phase = Unpaired | Paired | WorkerPreparing | WorkerReady | Draining | Drained

datatype worker_event_kind =
  WeReady | WeReadyWithChildGeneration u64 | WeExited | WeReconnecting

record node_descriptor =
  nd_protocol_version :: u16
  nd_node_id :: string
  nd_role :: control_role
  nd_generation :: u64
  nd_mode :: control_mode
  nd_deployment_id :: "string option"

datatype control_command =
  CmdPair node_descriptor
| CmdPrepareWorker
| CmdBeginDrain
| CmdDrained
| CmdCancelGeneration
| CmdWorkerEvent worker_event_kind
| CmdDistributedReady
| CmdDemote
| CmdPrepareRestart
| CmdCancelRestart

datatype control_endpoint =
  EpNode | EpPair | EpPrepareWorker | EpBeginDrain | EpDrained | EpCancelGeneration
| EpWorkerEvent | EpDistributedReady | EpDemote | EpPrepareRestart | EpCancelRestart

fun endpoint :: "control_command \<Rightarrow> control_endpoint" where
  "endpoint (CmdPair _) = EpPair"
| "endpoint CmdPrepareWorker = EpPrepareWorker"
| "endpoint CmdBeginDrain = EpBeginDrain"
| "endpoint CmdDrained = EpDrained"
| "endpoint CmdCancelGeneration = EpCancelGeneration"
| "endpoint (CmdWorkerEvent _) = EpWorkerEvent"
| "endpoint CmdDistributedReady = EpDistributedReady"
| "endpoint CmdDemote = EpDemote"
| "endpoint CmdPrepareRestart = EpPrepareRestart"
| "endpoint CmdCancelRestart = EpCancelRestart"

definition is_pair :: "control_command \<Rightarrow> bool" where
  "is_pair c = (case c of CmdPair _ \<Rightarrow> True | _ \<Rightarrow> False)"

definition requires_matching_deployment :: "control_command \<Rightarrow> bool" where
  "requires_matching_deployment c = (case c of CmdPair _ \<Rightarrow> False | CmdDemote \<Rightarrow> False | _ \<Rightarrow> True)"

definition parse_endpoint :: "string \<Rightarrow> string \<Rightarrow> control_endpoint option" where
  "parse_endpoint mthd path =
     (if mthd = ''GET'' then (if path = ''/v1/node'' then Some EpNode else None)
      else if mthd = ''POST'' then
        (if path = ''/v1/pair'' then Some EpPair
         else if path = ''/v1/prepare-worker'' then Some EpPrepareWorker
         else if path = ''/v1/begin-drain'' then Some EpBeginDrain
         else if path = ''/v1/drained'' then Some EpDrained
         else if path = ''/v1/cancel-generation'' then Some EpCancelGeneration
         else if path = ''/v1/worker-event'' then Some EpWorkerEvent
         else if path = ''/v1/distributed-ready'' then Some EpDistributedReady
         else if path = ''/v1/demote'' then Some EpDemote
         else if path = ''/v1/prepare-restart'' then Some EpPrepareRestart
         else if path = ''/v1/cancel-restart'' then Some EpCancelRestart
         else None)
      else None)"

record control_message =
  msg_request_id :: string
  msg_generation :: u64
  msg_deployment_id :: "string option"
  msg_command :: control_command

datatype response_status = Applied | Duplicate

record control_response =
  rsp_status :: response_status
  rsp_generation :: u64
  rsp_descriptor :: node_descriptor
  rsp_lease_expires_at :: "u64 option"

datatype control_error =
  EndpointMismatch
| InvalidRequestId
| GenerationMismatch u64 u64
| DeploymentMismatch
| InvalidDescriptor
| RouteNotScoped
| PeerNotPaired
| IdempotencyConflict
| CommandNotAllowed
| PlannedRestartInProgress
| InvalidPhase control_phase

fun http_status :: "control_error \<Rightarrow> u16" where
  "http_status DeploymentMismatch = 412"
| "http_status (GenerationMismatch _ _) = 409"
| "http_status IdempotencyConflict = 409"
| "http_status PeerNotPaired = 409"
| "http_status PlannedRestartInProgress = 409"
| "http_status (InvalidPhase _) = 409"
| "http_status CommandNotAllowed = 403"
| "http_status EndpointMismatch = 400"
| "http_status InvalidRequestId = 400"
| "http_status InvalidDescriptor = 400"
| "http_status RouteNotScoped = 400"

text \<open>The request body read chunk by chunk, \<open>BoundedControlBody::extend\<close>.\<close>

definition body_extend :: "bytes \<Rightarrow> bytes \<Rightarrow> auth_error + bytes" where
  "body_extend body chunk =
     (if length body + length chunk > CONTROL_BODY_LIMIT then Inl BodyTooLarge
      else Inr (body @ chunk))"

section \<open>The peer lease\<close>

record peer_lease =
  pl_lease_millis :: u64
  pl_required_stability :: u64
  pl_generation :: "u64 option"
  pl_descriptor :: "node_descriptor option"
  pl_first_authenticated :: "u64 option"
  pl_expires_at :: "u64 option"
  pl_route_scoped :: bool

definition peer_lease_new :: "nat \<Rightarrow> nat \<Rightarrow> peer_lease" where
  "peer_lease_new lease stability =
     \<lparr>pl_lease_millis = duration_millis lease, pl_required_stability = duration_millis stability,
      pl_generation = None, pl_descriptor = None, pl_first_authenticated = None,
      pl_expires_at = None, pl_route_scoped = False\<rparr>"

definition lease_expired :: "peer_lease \<Rightarrow> u64 \<Rightarrow> bool" where
  "lease_expired l now = is_none_or (\<lambda>e. now \<ge> e) (pl_expires_at l)"

definition establish ::
  "peer_lease \<Rightarrow> authenticated_peer \<Rightarrow> node_descriptor \<Rightarrow> u64 \<Rightarrow> bool \<Rightarrow> u64 \<Rightarrow>
   control_error + peer_lease" where
  "establish l auth d gen route now =
     (if \<not> route then Inl RouteNotScoped
      else if nd_node_id d \<noteq> ap_node_id auth \<or> nd_generation d \<noteq> gen then Inl InvalidDescriptor
      else
        let same_membership =
              pl_generation l = Some gen
              \<and> is_some_and (\<lambda>cur. nd_node_id cur = nd_node_id d) (pl_descriptor l)
              \<and> \<not> lease_expired l now;
            l = (if \<not> same_membership then l\<lparr>pl_first_authenticated := Some now\<rparr> else l)
        in Inr (l\<lparr>pl_generation := Some gen, pl_descriptor := Some d, pl_route_scoped := True,
                  pl_expires_at := Some (sat_add now (pl_lease_millis l))\<rparr>))"

definition renew ::
  "peer_lease \<Rightarrow> authenticated_peer \<Rightarrow> u64 \<Rightarrow> bool \<Rightarrow> u64 \<Rightarrow> control_error option \<times> peer_lease" where
  "renew l auth gen route now =
     (if \<not> route then (Some RouteNotScoped, l\<lparr>pl_route_scoped := False\<rparr>)
      else if \<not> (pl_generation l = Some gen
             \<and> is_some_and (\<lambda>d. nd_node_id d = ap_node_id auth) (pl_descriptor l))
           \<or> lease_expired l now
      then (Some PeerNotPaired, l)
      else (None, l\<lparr>pl_route_scoped := True,
                    pl_expires_at := Some (sat_add now (pl_lease_millis l))\<rparr>))"

definition peer_present :: "peer_lease \<Rightarrow> u64 \<Rightarrow> bool" where
  "peer_present l now \<longleftrightarrow>
     pl_route_scoped l
     \<and> is_some_and (\<lambda>first. now \<ge> sat_add first (pl_required_stability l)) (pl_first_authenticated l)
     \<and> \<not> lease_expired l now \<and> pl_descriptor l \<noteq> None"

definition matches_peer :: "peer_lease \<Rightarrow> authenticated_peer \<Rightarrow> bool" where
  "matches_peer l auth = is_some_and (\<lambda>d. nd_node_id d = ap_node_id auth) (pl_descriptor l)"

definition invalidate_route :: "peer_lease \<Rightarrow> peer_lease" where
  "invalidate_route l = l\<lparr>pl_route_scoped := False\<rparr>"

definition lease_advance_generation :: "peer_lease \<Rightarrow> u64 \<Rightarrow> peer_lease" where
  "lease_advance_generation l gen =
     l\<lparr>pl_generation := map_option (\<lambda>_. gen) (pl_generation l),
       pl_descriptor := map_option (\<lambda>d. d\<lparr>nd_generation := gen\<rparr>) (pl_descriptor l)\<rparr>"

section \<open>The control processor\<close>

record control_processor =
  cp_local :: node_descriptor
  cp_expected_peer_role :: control_role
  cp_lease :: peer_lease
  cp_processed :: "u64 \<times> string \<rightharpoonup> control_message"

definition processor_new :: "node_descriptor \<Rightarrow> control_role \<Rightarrow> nat \<Rightarrow> nat \<Rightarrow> control_processor" where
  "processor_new d role lease stability =
     \<lparr>cp_local = d, cp_expected_peer_role = role, cp_lease = peer_lease_new lease stability,
      cp_processed = Map.empty\<rparr>"

definition generation :: "control_processor \<Rightarrow> u64" where
  "generation p = nd_generation (cp_local p)"

definition response :: "control_processor \<Rightarrow> response_status \<Rightarrow> control_response" where
  "response p st =
     \<lparr>rsp_status = st, rsp_generation = generation p, rsp_descriptor = cp_local p,
      rsp_lease_expires_at = pl_expires_at (cp_lease p)\<rparr>"

definition advance_generation :: "control_processor \<Rightarrow> u64 \<Rightarrow> control_processor" where
  "advance_generation p gen =
     p\<lparr>cp_local := (cp_local p)\<lparr>nd_generation := gen\<rparr>,
       cp_lease := lease_advance_generation (cp_lease p) gen,
       cp_processed := Map.empty\<rparr>"

definition descriptor_response ::
  "control_processor \<Rightarrow> authenticated_peer \<Rightarrow> bool \<Rightarrow> u64 \<Rightarrow>
   (control_error + control_response) \<times> control_processor" where
  "descriptor_response p auth route now =
     (let reply = (\<lambda>p lease_expires_at.
        Inr \<lparr>rsp_status = Applied, rsp_generation = generation p, rsp_descriptor = cp_local p,
             rsp_lease_expires_at = lease_expires_at\<rparr>)
      in if \<not> route then (Inl RouteNotScoped, p)
         else case pl_descriptor (cp_lease p) of
             None \<Rightarrow> (reply p None, p)
           | Some _ \<Rightarrow>
               if lease_expired (cp_lease p) now then
                 (if \<not> matches_peer (cp_lease p) auth then (Inl PeerNotPaired, p) else (reply p None, p))
               else
                 (case renew (cp_lease p) auth (generation p) True now of
                    (Some e, l) \<Rightarrow> (Inl e, p\<lparr>cp_lease := l\<rparr>)
                  | (None, l) \<Rightarrow> (reply p (pl_expires_at l), p\<lparr>cp_lease := l\<rparr>)))"

text \<open>The renewal every handled message other than a first \<open>Pair\<close> performs.\<close>

definition renew_processor ::
  "control_processor \<Rightarrow> authenticated_peer \<Rightarrow> u64 \<Rightarrow> bool \<Rightarrow> u64 \<Rightarrow>
   control_error option \<times> control_processor" where
  "renew_processor p auth gen route now =
     (case renew (cp_lease p) auth gen route now of (r, l) \<Rightarrow> (r, p\<lparr>cp_lease := l\<rparr>))"

text \<open>The lease update of a message handled for the first time.\<close>

definition touch_lease ::
  "control_processor \<Rightarrow> control_message \<Rightarrow> authenticated_peer \<Rightarrow> bool \<Rightarrow> u64 \<Rightarrow>
   control_error option \<times> control_processor" where
  "touch_lease p msg auth route now =
     (case msg_command msg of
        CmdPair d \<Rightarrow>
          if nd_protocol_version d \<noteq> 1 \<or> nd_role d \<noteq> cp_expected_peer_role p
          then (Some InvalidDescriptor, p)
          else (case establish (cp_lease p) auth d (msg_generation msg) route now of
                  Inl e \<Rightarrow> (Some e, p)
                | Inr l \<Rightarrow> (None, p\<lparr>cp_lease := l\<rparr>))
      | _ \<Rightarrow> renew_processor p auth (msg_generation msg) route now)"

text \<open>The part of \<open>handle_validated\<close> after the generation has been settled.\<close>

definition handle_current ::
  "(control_command \<Rightarrow> control_error option) \<Rightarrow> control_processor \<Rightarrow> control_message \<Rightarrow>
   authenticated_peer \<Rightarrow> bool \<Rightarrow> u64 \<Rightarrow> (control_error + control_response) \<times> control_processor" where
  "handle_current validate p msg auth route now =
     (let key = (msg_generation msg, msg_request_id msg) in
      case cp_processed p key of
        Some previous \<Rightarrow>
          if previous \<noteq> msg then (Inl IdempotencyConflict, p)
          else (case renew_processor p auth (msg_generation msg) route now of
                  (Some e, p') \<Rightarrow> (Inl e, p')
                | (None, p') \<Rightarrow> (Inr (response p' Duplicate), p'))
      | None \<Rightarrow>
          case validate (msg_command msg) of
            Some e \<Rightarrow> (Inl e, p)
          | None \<Rightarrow>
              case touch_lease p msg auth route now of
                (Some e, p') \<Rightarrow> (Inl e, p')
              | (None, p') \<Rightarrow>
                  let p'' = p'\<lparr>cp_processed := (cp_processed p')(key \<mapsto> msg)\<rparr>
                  in (Inr (response p'' Applied), p''))"

text \<open>A \<open>Pair\<close> of a later generation moves the processor there at once.\<close>

definition adopt_generation :: "control_processor \<Rightarrow> control_message \<Rightarrow> control_processor" where
  "adopt_generation p msg =
     (if is_pair (msg_command msg) \<and> msg_generation msg > generation p
      then advance_generation p (msg_generation msg) else p)"

definition handle_validated ::
  "(control_command \<Rightarrow> control_error option) \<Rightarrow> control_processor \<Rightarrow> control_endpoint \<Rightarrow>
   control_message \<Rightarrow> authenticated_peer \<Rightarrow> bool \<Rightarrow> u64 \<Rightarrow>
   (control_error + control_response) \<times> control_processor" where
  "handle_validated validate p ep msg auth route now =
     (if ep \<noteq> endpoint (msg_command msg) then (Inl EndpointMismatch, p)
      else if msg_request_id msg = [] \<or> length (msg_request_id msg) > 128 then (Inl InvalidRequestId, p)
      else
        let p = adopt_generation p msg
        in if msg_generation msg \<noteq> generation p
           then (Inl (GenerationMismatch (generation p) (msg_generation msg)), p)
           else if requires_matching_deployment (msg_command msg)
             \<and> (nd_deployment_id (cp_local p) = None
                \<or> msg_deployment_id msg \<noteq> nd_deployment_id (cp_local p))
           then (Inl DeploymentMismatch, p)
           else handle_current validate p msg auth route now)"

definition control_message_of :: "control_processor \<Rightarrow> string \<Rightarrow> control_command \<Rightarrow> control_message" where
  "control_message_of p rid c =
     \<lparr>msg_request_id = rid, msg_generation = generation p,
      msg_deployment_id = nd_deployment_id (cp_local p), msg_command = c\<rparr>"

definition candidate_generation :: "control_processor \<Rightarrow> u64 \<Rightarrow> u64" where
  "candidate_generation p peer = (if peer > generation p then peer else generation p)"

section \<open>Histories of a processor\<close>

datatype processor_op =
  PoHandle "control_command \<Rightarrow> control_error option" control_endpoint control_message
    authenticated_peer bool u64
| PoDescriptor authenticated_peer bool u64
| PoInvalidateRoute
| PoAdvance u64

fun processor_step ::
  "control_processor \<Rightarrow> processor_op \<Rightarrow> (control_error + control_response) option \<times> control_processor" where
  "processor_step p (PoHandle v ep msg auth route now) =
     apfst Some (handle_validated v p ep msg auth route now)"
| "processor_step p (PoDescriptor auth route now) = apfst Some (descriptor_response p auth route now)"
| "processor_step p PoInvalidateRoute = (None, p\<lparr>cp_lease := invalidate_route (cp_lease p)\<rparr>)"
| "processor_step p (PoAdvance gen) = (None, advance_generation p gen)"

definition processor_next :: "control_processor \<Rightarrow> processor_op \<Rightarrow> unit + control_processor" where
  "processor_next p op = Inr (snd (processor_step p op))"

text \<open>The owner of the processor moves its generation strictly forward, as
  \<open>propose_candidate\<close> does.\<close>

definition forward :: "control_processor \<Rightarrow> processor_op \<Rightarrow> bool" where
  "forward p op = (case op of PoAdvance gen \<Rightarrow> generation p < gen | _ \<Rightarrow> True)"

text \<open>The lease and the registry belong to the current generation, and the lease is either
  empty or complete.\<close>

definition lease_wf :: "u64 \<Rightarrow> peer_lease \<Rightarrow> bool" where
  "lease_wf gen l \<longleftrightarrow>
     (case pl_descriptor l of
        None \<Rightarrow> pl_generation l = None \<and> pl_first_authenticated l = None \<and> pl_expires_at l = None
      | Some d \<Rightarrow> pl_generation l = Some gen \<and> nd_generation d = gen
          \<and> pl_first_authenticated l \<noteq> None \<and> pl_expires_at l \<noteq> None)"

definition registry_wf :: "control_processor \<Rightarrow> bool" where
  "registry_wf p \<longleftrightarrow>
     (\<forall>k m. cp_processed p k = Some m \<longrightarrow>
        k = (msg_generation m, msg_request_id m) \<and> msg_generation m = generation p)"

definition processor_wf :: "control_processor \<Rightarrow> bool" where
  "processor_wf p \<longleftrightarrow> lease_wf (generation p) (cp_lease p) \<and> registry_wf p"

text \<open>A message is settled when it can no longer be applied: it is recorded in the current
  generation, or its generation is past.\<close>

definition settled :: "control_message \<Rightarrow> control_processor \<Rightarrow> bool" where
  "settled m p \<longleftrightarrow>
     msg_generation m < generation p
     \<or> msg_generation m = generation p
       \<and> cp_processed p (msg_generation m, msg_request_id m) = Some m"

text \<open>The contacts of a history: the node and the time of every request that renewed or
  established the lease.\<close>

fun contact :: "processor_op \<Rightarrow> (control_error + control_response) option \<Rightarrow> (string \<times> u64) list" where
  "contact (PoHandle v ep msg auth route now) (Some (Inr r)) =
     (if rsp_lease_expires_at r = None then [] else [(ap_node_id auth, now)])"
| "contact (PoDescriptor auth route now) (Some (Inr r)) =
     (if rsp_lease_expires_at r = None then [] else [(ap_node_id auth, now)])"
| "contact _ _ = []"

fun contacts :: "control_processor \<Rightarrow> processor_op list \<Rightarrow> (string \<times> u64) list" where
  "contacts p [] = []"
| "contacts p (op # ops) =
     contact op (fst (processor_step p op)) @ contacts (snd (processor_step p op)) ops"

definition processor_run :: "control_processor \<Rightarrow> processor_op list \<Rightarrow> control_processor" where
  "processor_run p ops = foldl (\<lambda>p op. snd (processor_step p op)) p ops"

text \<open>The contacts in \<open>C\<close> account for the lease.\<close>

definition evidenced :: "(string \<times> u64) set \<Rightarrow> peer_lease \<Rightarrow> bool" where
  "evidenced C l \<longleftrightarrow>
     (case pl_descriptor l of
        None \<Rightarrow> True
      | Some d \<Rightarrow>
          (\<forall>e. pl_expires_at l = Some e \<longrightarrow>
             (\<exists>t. (nd_node_id d, t) \<in> C \<and> e = sat_add t (pl_lease_millis l)))
          \<and> (\<forall>f. pl_first_authenticated l = Some f \<longrightarrow> (nd_node_id d, f) \<in> C))"

text \<open>Sample nodes and messages.\<close>

definition sample_node :: "control_role \<Rightarrow> string \<Rightarrow> u64 \<Rightarrow> node_descriptor" where
  "sample_node role node gen =
     \<lparr>nd_protocol_version = 1, nd_node_id = node, nd_role = role, nd_generation = gen,
      nd_mode = CmSoloStandalone, nd_deployment_id = Some ''d1''\<rparr>"

definition sample_peer :: "string \<Rightarrow> authenticated_peer" where
  "sample_peer node = \<lparr>ap_node_id = node, ap_source_ip = V4 2, ap_timestamp_millis = 0\<rparr>"

definition sample_message :: "string \<Rightarrow> u64 \<Rightarrow> control_command \<Rightarrow> control_message" where
  "sample_message rid gen c =
     \<lparr>msg_request_id = rid, msg_generation = gen, msg_deployment_id = Some ''d1'', msg_command = c\<rparr>"

lemma advance_simps [simp]:
  "generation (advance_generation p g) = g"
  "cp_processed (advance_generation p g) = Map.empty"
  "cp_lease (advance_generation p g) = lease_advance_generation (cp_lease p) g"
  "cp_expected_peer_role (advance_generation p g) = cp_expected_peer_role p"
  by (simp_all add: advance_generation_def generation_def)

lemma generation_frame [simp]:
  "generation (p\<lparr>cp_lease := l\<rparr>) = generation p"
  "generation (p\<lparr>cp_processed := q\<rparr>) = generation p"
  by (simp_all add: generation_def)

lemma renew_wf: "lease_wf gen l \<Longrightarrow> lease_wf gen (snd (renew l auth g route now))"
  by (simp add: renew_def lease_wf_def is_some_and_iff split: option.splits)

lemma establish_wf:
  assumes "establish l auth d gen route now = Inr l'" "lease_wf gen l"
  shows "lease_wf gen l'"
proof -
  from assms(1) have "pl_descriptor l' = Some d" "pl_generation l' = Some gen" "nd_generation d = gen"
    "pl_expires_at l' \<noteq> None"
    "pl_first_authenticated l' = (if pl_generation l = Some gen
        \<and> is_some_and (\<lambda>cur. nd_node_id cur = nd_node_id d) (pl_descriptor l)
        \<and> \<not> lease_expired l now then pl_first_authenticated l else Some now)"
    by (auto simp: establish_def Let_def split: if_splits)
  with assms(2) show ?thesis by (auto simp: lease_wf_def is_some_and_iff)
qed

lemma lease_advance_wf: "lease_wf gen l \<Longrightarrow> lease_wf g (lease_advance_generation l g)"
  by (simp add: lease_wf_def lease_advance_generation_def split: option.splits)

lemma advance_wf: "processor_wf p \<Longrightarrow> processor_wf (advance_generation p g)"
  by (auto simp: processor_wf_def registry_wf_def intro: lease_advance_wf)

lemma with_lease_wf:
  "processor_wf p \<Longrightarrow> lease_wf (generation p) l \<Longrightarrow> processor_wf (p\<lparr>cp_lease := l\<rparr>)"
  unfolding processor_wf_def registry_wf_def by auto

lemma renew_processor_snd:
  "snd (renew_processor p auth gen route now) = p\<lparr>cp_lease := snd (renew (cp_lease p) auth gen route now)\<rparr>"
  by (simp add: renew_processor_def split: prod.splits)

lemma renew_processor_wf: "processor_wf p \<Longrightarrow> processor_wf (snd (renew_processor p auth gen route now))"
  unfolding renew_processor_snd
  by (rule with_lease_wf) (auto simp: processor_wf_def intro: renew_wf)

lemma touch_lease_frame:
  "generation (snd (touch_lease p msg auth route now)) = generation p"
  "cp_processed (snd (touch_lease p msg auth route now)) = cp_processed p"
  "cp_local (snd (touch_lease p msg auth route now)) = cp_local p"
  by (simp_all add: touch_lease_def renew_processor_snd split: control_command.split sum.split)

lemma touch_lease_wf:
  assumes "processor_wf p" "msg_generation msg = generation p"
  shows "processor_wf (snd (touch_lease p msg auth route now))"
proof -
  have renewed: "processor_wf (snd (renew_processor p auth (msg_generation msg) route now))"
    by (rule renew_processor_wf [OF assms(1)])
  have "processor_wf (p\<lparr>cp_lease := l\<rparr>)"
    if "establish (cp_lease p) auth d (msg_generation msg) route now = Inr l" for d l
    using with_lease_wf [OF assms(1)] establish_wf [OF that] assms by (simp add: processor_wf_def)
  then show ?thesis using renewed assms(1)
    by (simp add: touch_lease_def split: control_command.split sum.split)
qed

lemma handle_current_cases:
  assumes "handle_current validate p msg auth route now = (r, p')"
  obtains
    (conflict) previous where "cp_processed p (msg_generation msg, msg_request_id msg) = Some previous"
      "previous \<noteq> msg" "r = Inl IdempotencyConflict" "p' = p"
  | (duplicate) "cp_processed p (msg_generation msg, msg_request_id msg) = Some msg"
      "p' = snd (renew_processor p auth (msg_generation msg) route now)"
      "r = (case fst (renew_processor p auth (msg_generation msg) route now) of
              Some e \<Rightarrow> Inl e | None \<Rightarrow> Inr (response p' Duplicate))"
  | (invalid) e where "cp_processed p (msg_generation msg, msg_request_id msg) = None"
      "validate (msg_command msg) = Some e" "r = Inl e" "p' = p"
  | (refused) e where "cp_processed p (msg_generation msg, msg_request_id msg) = None"
      "validate (msg_command msg) = None"
      "touch_lease p msg auth route now = (Some e, p')" "r = Inl e"
  | (applied) q where "cp_processed p (msg_generation msg, msg_request_id msg) = None"
      "validate (msg_command msg) = None"
      "touch_lease p msg auth route now = (None, q)"
      "p' = q\<lparr>cp_processed := (cp_processed q)((msg_generation msg, msg_request_id msg) \<mapsto> msg)\<rparr>"
      "r = Inr (response p' Applied)"
proof (cases "cp_processed p (msg_generation msg, msg_request_id msg)")
  case (Some previous)
  show ?thesis
  proof (cases "previous = msg")
    case False
    with Some assms show ?thesis by (intro conflict [of previous]) (simp_all add: handle_current_def)
  next
    case True
    with Some assms show ?thesis
      by (intro duplicate) (simp_all add: handle_current_def split: prod.splits option.splits)
  qed
next
  case None
  show ?thesis
  proof (cases "validate (msg_command msg)")
    case (Some e)
    with None assms show ?thesis by (intro invalid [of e]) (simp_all add: handle_current_def)
  next
    case valid: None
    obtain o' q where t: "touch_lease p msg auth route now = (o', q)" by fastforce
    show ?thesis
    proof (cases o')
      case (Some e)
      with None valid t assms show ?thesis by (intro refused [of e]) (simp_all add: handle_current_def)
    next
      case o': None
      with None valid t assms show ?thesis
        by (intro applied [of q]) (auto simp: handle_current_def Let_def)
    qed
  qed
qed

lemma handle_validated_cases:
  assumes "handle_validated validate p ep msg auth route now = (r, p')"
  obtains
    (rejected) e where "r = Inl e" "p' = p \<or> p' = adopt_generation p msg"
  | (current) "msg_generation msg = generation (adopt_generation p msg)"
      "handle_current validate (adopt_generation p msg) msg auth route now = (r, p')"
  using assms by (auto simp: handle_validated_def Let_def split: if_splits)

lemma adopt_wf: "processor_wf p \<Longrightarrow> processor_wf (adopt_generation p msg)"
  by (simp add: adopt_generation_def advance_wf)

lemma adopt_mono: "generation p \<le> generation (adopt_generation p msg)"
  by (auto simp: adopt_generation_def)

lemma handle_current_frame:
  assumes "handle_current validate p msg auth route now = (r, p')" "processor_wf p"
    and "msg_generation msg = generation p"
  shows "processor_wf p' \<and> generation p' = generation p \<and> cp_processed p \<subseteq>\<^sub>m cp_processed p'"
  using assms(1)
proof (cases rule: handle_current_cases)
  case duplicate
  then show ?thesis using renew_processor_wf [OF assms(2)] by (simp add: renew_processor_snd)
next
  case (refused e)
  then show ?thesis
    using touch_lease_wf [OF assms(2,3), of auth route now] touch_lease_frame [of p msg auth route now]
    by simp
next
  case (applied q)
  then have q: "processor_wf q" "generation q = generation p" "cp_processed q = cp_processed p"
    using touch_lease_wf [OF assms(2,3), of auth route now] touch_lease_frame [of p msg auth route now]
    by simp_all
  with applied assms(3) show ?thesis
    by (auto simp: processor_wf_def registry_wf_def map_le_def)
qed (use assms(2) in simp_all)

lemma handle_validated_frame:
  assumes "handle_validated validate p ep msg auth route now = (r, p')" "processor_wf p"
  shows "processor_wf p' \<and> (p' = p \<or> generation p' = generation (adopt_generation p msg)
    \<and> cp_processed (adopt_generation p msg) \<subseteq>\<^sub>m cp_processed p')"
  using assms(1)
proof (cases rule: handle_validated_cases)
  case (rejected e)
  then show ?thesis using assms(2) by (auto intro: adopt_wf)
next
  case current
  from handle_current_frame [OF current(2) adopt_wf [OF assms(2)] current(1)] show ?thesis by simp
qed

lemma descriptor_response_snd:
  "snd (descriptor_response p auth route now) = p \<or>
   snd (descriptor_response p auth route now) =
     p\<lparr>cp_lease := snd (renew (cp_lease p) auth (generation p) True now)\<rparr>"
  by (cases "renew (cp_lease p) auth (generation p) True now")
    (auto simp: descriptor_response_def Let_def split: option.split)

lemma processor_step_wf:
  assumes "processor_wf p"
  shows "processor_wf (snd (processor_step p op))"
proof (cases op)
  case (PoHandle v ep msg auth route now)
  obtain r p' where h: "handle_validated v p ep msg auth route now = (r, p')" by fastforce
  from handle_validated_frame [OF h assms] h PoHandle show ?thesis by simp
next
  case (PoDescriptor auth route now)
  have "processor_wf (p\<lparr>cp_lease := snd (renew (cp_lease p) auth (generation p) True now)\<rparr>)"
    using assms by (intro with_lease_wf renew_wf) (simp_all add: processor_wf_def)
  with descriptor_response_snd [of p auth route now] assms PoDescriptor show ?thesis by auto
next
  case PoInvalidateRoute
  have "lease_wf (generation p) (invalidate_route (cp_lease p))"
    using assms by (simp add: processor_wf_def invalidate_route_def lease_wf_def split: option.splits)
  with PoInvalidateRoute assms show ?thesis by (simp add: with_lease_wf)
next
  case (PoAdvance g)
  with assms show ?thesis by (simp add: advance_wf)
qed

interpretation pm: fallible_machine "\<lambda>_ _. True" processor_next processor_wf
  by unfold_locales (auto simp: processor_next_def processor_step_wf)

text \<open>Along every step the generation stays or grows, and the registry only grows while it
  stays.\<close>

lemma processor_step_forward:
  assumes "processor_wf p" "forward p op"
  shows "generation p < generation (snd (processor_step p op))
    \<or> generation (snd (processor_step p op)) = generation p
      \<and> cp_processed p \<subseteq>\<^sub>m cp_processed (snd (processor_step p op))"
proof (cases op)
  case (PoHandle v ep msg auth route now)
  obtain r p' where h: "handle_validated v p ep msg auth route now = (r, p')" by fastforce
  from handle_validated_frame [OF h assms(1)] h PoHandle show ?thesis
    by (auto simp: adopt_generation_def split: if_splits)
next
  case (PoDescriptor auth route now)
  with descriptor_response_snd [of p auth route now] show ?thesis by auto
next
  case PoInvalidateRoute
  then show ?thesis by simp
next
  case (PoAdvance g)
  with assms(2) show ?thesis by (auto simp: forward_def)
qed

lemma settled_step:
  assumes "processor_wf p" "forward p op" "settled m p"
  shows "settled m (snd (processor_step p op))"
  using processor_step_forward [OF assms(1,2)] assms(3)
  by (auto simp: settled_def map_le_def dom_def)

interpretation sm: fallible_machine forward processor_next "\<lambda>p. processor_wf p \<and> settled m p" for m
  by unfold_locales (auto simp: processor_next_def processor_step_wf settled_step)

lemma applied_is_settled:
  assumes "handle_validated v p ep m auth route now = (Inr r, p')" "rsp_status r = Applied"
  shows "settled m p'"
  using assms(1)
proof (cases rule: handle_validated_cases)
  case current
  from current(2) show ?thesis
  proof (cases rule: handle_current_cases)
    case duplicate
    then show ?thesis using assms(2)
      by (simp add: response_def split: option.splits)
  next
    case (applied q)
    with current(1) touch_lease_frame [of "adopt_generation p m" m auth route now]
    show ?thesis by (simp add: settled_def)
  qed simp_all
qed simp

lemma settled_not_applied:
  assumes "settled m p" "msg_generation m' = msg_generation m" "msg_request_id m' = msg_request_id m"
    and "handle_validated v p ep m' auth route now = (Inr r, p')"
  shows "rsp_status r = Duplicate \<and> m' = m"
  using assms(4)
proof (cases rule: handle_validated_cases)
  case current
  have "\<not> generation p < msg_generation m'"
    using assms(1,2) by (auto simp: settled_def)
  then have same: "adopt_generation p m' = p" by (simp add: adopt_generation_def)
  with current(1) assms(1-3) have known: "cp_processed p (msg_generation m', msg_request_id m') = Some m"
    by (auto simp: settled_def)
  from current(2) [unfolded same] show ?thesis
  proof (cases rule: handle_current_cases)
    case duplicate
    with known show ?thesis by (simp add: response_def split: option.splits)
  next
    case (applied q)
    with known show ?thesis by simp
  qed simp_all
qed simp

text \<open>C6. Control commands take effect at most once: once a message has been applied, then
  after every further history of requests, descriptor reads, route losses and generation
  changes, a message with the same generation and request identifier is never applied
  again. It is answered as a duplicate only when it is the same message; any other outcome
  is an error.\<close>

theorem control_applied_at_most_once:
  assumes "processor_wf p"
    and "handle_validated v p ep m auth route now = (Inr r, p')" "rsp_status r = Applied"
    and "reaches forward processor_next p' q"
    and "msg_generation m' = msg_generation m" "msg_request_id m' = msg_request_id m"
    and "handle_validated v' q ep' m' auth' route' now' = (Inr r', q')"
  shows "rsp_status r' = Duplicate \<and> m' = m"
proof -
  have "processor_wf p'" using handle_validated_frame [OF assms(2,1)] by simp
  with applied_is_settled [OF assms(2,3)] sm.reaches_inv [OF assms(4)] have "settled m q" by blast
  from settled_not_applied [OF this assms(5-7)] show ?thesis .
qed

lemmas control_eval = sample_node_def sample_peer_def sample_message_def processor_new_def
  peer_lease_new_def generation_def handle_validated_def adopt_generation_def is_pair_def
  requires_matching_deployment_def handle_current_def touch_lease_def establish_def renew_def
  renew_processor_def lease_expired_def response_def duration_millis_def sat_add_def Let_def

theorem control_applied_at_most_once_witness:
  "\<exists>r p' r' q'.
    handle_validated (\<lambda>_. None) (processor_new (sample_node RoleWorker ''w'' 3) RoleCoordinator 30000 5000)
      EpPair (sample_message ''r1'' 3 (CmdPair (sample_node RoleCoordinator ''c'' 3))) (sample_peer ''c'') True 1000
      = (Inr r, p') \<and> rsp_status r = Applied
    \<and> handle_validated (\<lambda>_. None) p'
      EpPair (sample_message ''r1'' 3 (CmdPair (sample_node RoleCoordinator ''c'' 3))) (sample_peer ''c'') True 2000
      = (Inr r', q') \<and> rsp_status r' = Duplicate"
proof -
  let ?p = "processor_new (sample_node RoleWorker ''w'' 3) RoleCoordinator 30000 5000"
    and ?m = "sample_message ''r1'' 3 (CmdPair (sample_node RoleCoordinator ''c'' 3))"
  obtain r p' where h: "handle_validated (\<lambda>_. None) ?p EpPair ?m (sample_peer ''c'') True 1000 = (Inr r, p')"
      "rsp_status r = Applied"
    and again: "\<exists>r' q'. handle_validated (\<lambda>_. None) p' EpPair ?m (sample_peer ''c'') True 2000 = (Inr r', q')"
    by (simp add: control_eval)
  then obtain r' q' where h': "handle_validated (\<lambda>_. None) p' EpPair ?m (sample_peer ''c'') True 2000 = (Inr r', q')"
    by blast
  have "processor_wf ?p"
    by (simp add: processor_wf_def lease_wf_def registry_wf_def processor_new_def peer_lease_new_def)
  from control_applied_at_most_once [OF this h reaches_refl refl refl h'] h h' show ?thesis by blast
qed

section \<open>The lease is evidence of recent contact\<close>

lemma evidenced_mono: "evidenced C l \<Longrightarrow> C \<subseteq> D \<Longrightarrow> evidenced D l"
  by (fastforce simp: evidenced_def split: option.splits)

lemma renew_evidenced:
  assumes "renew l auth gen route now = (r, l')" "evidenced C l"
  shows "evidenced C l' \<or> r = None \<and> evidenced (insert (ap_node_id auth, now) C) l'"
  using assms by (auto simp: renew_def evidenced_def is_some_and_iff split: if_splits option.splits)

lemma establish_evidenced:
  assumes "establish l auth d gen route now = Inr l'" "evidenced C l"
  shows "evidenced (insert (ap_node_id auth, now) C) l'"
proof -
  from assms(1) have l': "pl_descriptor l' = Some d" "nd_node_id d = ap_node_id auth"
    "pl_expires_at l' = Some (sat_add now (pl_lease_millis l'))"
    "pl_first_authenticated l' = Some now
     \<or> pl_first_authenticated l' = pl_first_authenticated l
       \<and> is_some_and (\<lambda>cur. nd_node_id cur = nd_node_id d) (pl_descriptor l)"
    by (auto simp: establish_def Let_def split: if_splits)
  with assms(2) show ?thesis by (auto simp: evidenced_def is_some_and_iff)
qed

lemma renew_success_expiry: "renew l auth gen route now = (None, l') \<Longrightarrow> pl_expires_at l' \<noteq> None"
  by (auto simp: renew_def split: if_splits)

lemma lease_advance_evidenced [simp]: "evidenced C (lease_advance_generation l g) = evidenced C l"
  by (simp add: evidenced_def lease_advance_generation_def split: option.split)

lemma adopt_evidenced: "evidenced C (cp_lease p) \<Longrightarrow> evidenced C (cp_lease (adopt_generation p msg))"
  by (simp add: adopt_generation_def)

lemma renew_processor_evidenced:
  assumes "renew_processor p auth gen route now = (r, p')" "evidenced C (cp_lease p)"
  shows "evidenced (if r = None then insert (ap_node_id auth, now) C else C) (cp_lease p')
    \<and> (r = None \<longrightarrow> pl_expires_at (cp_lease p') \<noteq> None)"
proof -
  obtain l where l: "renew (cp_lease p) auth gen route now = (r, l)" "p' = p\<lparr>cp_lease := l\<rparr>"
    using assms(1) by (auto simp: renew_processor_def split: prod.splits)
  from renew_evidenced [OF l(1) assms(2)] renew_success_expiry l
  show ?thesis by (auto intro: evidenced_mono)
qed

lemma touch_lease_evidenced:
  assumes "touch_lease p msg auth route now = (r, p')" "evidenced C (cp_lease p)"
  shows "evidenced (if r = None then insert (ap_node_id auth, now) C else C) (cp_lease p')
    \<and> (r = None \<longrightarrow> pl_expires_at (cp_lease p') \<noteq> None)"
proof (cases "is_pair (msg_command msg)")
  case True
  then obtain d where d: "msg_command msg = CmdPair d"
    by (auto simp: is_pair_def split: control_command.splits)
  show ?thesis
  proof (cases "establish (cp_lease p) auth d (msg_generation msg) route now")
    case (Inl e)
    with d assms show ?thesis by (auto simp: touch_lease_def split: if_splits)
  next
    case (Inr l)
    moreover have "pl_expires_at l \<noteq> None" using Inr by (auto simp: establish_def Let_def split: if_splits)
    ultimately show ?thesis using d assms establish_evidenced [OF Inr assms(2)]
      by (auto simp: touch_lease_def split: if_splits)
  qed
next
  case False
  then have "touch_lease p msg auth route now = renew_processor p auth (msg_generation msg) route now"
    by (auto simp: touch_lease_def is_pair_def split: control_command.splits)
  with renew_processor_evidenced assms show ?thesis by simp
qed

lemma handle_current_evidenced:
  assumes "handle_current v p msg auth route now = (r, p')" "evidenced C (cp_lease p)"
  shows "evidenced (C \<union> set (contact (PoHandle v ep msg auth route now) (Some r))) (cp_lease p')"
  using assms(1)
proof (cases rule: handle_current_cases)
  case duplicate
  obtain e where e: "renew_processor p auth (msg_generation msg) route now = (e, p')"
    using duplicate(2) by (metis prod.collapse)
  from renew_processor_evidenced [OF e assms(2)] duplicate(3) e show ?thesis
    by (cases e) (auto simp: response_def)
next
  case (refused e)
  from touch_lease_evidenced [OF refused(3) assms(2)] refused(4) show ?thesis by simp
next
  case (applied q)
  from touch_lease_evidenced [OF applied(3) assms(2)] applied(4,5) show ?thesis
    by (auto simp: response_def)
qed (use assms(2) in simp_all)

lemma step_evidenced:
  assumes "evidenced C (cp_lease p)"
  shows "evidenced (C \<union> set (contact op (fst (processor_step p op)))) (cp_lease (snd (processor_step p op)))"
proof (cases op)
  case (PoHandle v ep msg auth route now)
  obtain r p' where h: "handle_validated v p ep msg auth route now = (r, p')" by fastforce
  from h have "evidenced (C \<union> set (contact op (Some r))) (cp_lease p')"
  proof (cases rule: handle_validated_cases)
    case (rejected e)
    with assms adopt_evidenced [OF assms, of msg] PoHandle show ?thesis by auto
  next
    case current
    from handle_current_evidenced [OF current(2) adopt_evidenced [OF assms]] PoHandle show ?thesis by simp
  qed
  with h PoHandle show ?thesis by simp
next
  case (PoDescriptor auth route now)
  obtain e l where l: "renew (cp_lease p) auth (generation p) True now = (e, l)" by fastforce
  from renew_evidenced [OF l assms] renew_success_expiry [of "cp_lease p" auth "generation p" True now l] l
  show ?thesis using assms PoDescriptor
    by (cases e) (auto simp: descriptor_response_def Let_def split: option.split intro: evidenced_mono)
next
  case PoInvalidateRoute
  with assms show ?thesis by (simp add: invalidate_route_def evidenced_def split: option.splits)
next
  case (PoAdvance g)
  with assms show ?thesis by simp
qed

lemma run_evidenced:
  "evidenced C (cp_lease p) \<Longrightarrow> evidenced (C \<union> set (contacts p ops)) (cp_lease (processor_run p ops))"
proof (induction ops arbitrary: p C)
  case Nil
  then show ?case by (simp add: processor_run_def)
next
  case (Cons op ops)
  from Cons.IH [OF step_evidenced [OF Cons.prems, of op]] show ?case
    by (simp add: processor_run_def Un_assoc)
qed

definition lease_timing :: "control_processor \<Rightarrow> u64 \<times> u64" where
  "lease_timing p = (pl_lease_millis (cp_lease p), pl_required_stability (cp_lease p))"

lemma renew_timing: "lease_timing (p\<lparr>cp_lease := snd (renew (cp_lease p) auth gen route now)\<rparr>) = lease_timing p"
  by (simp add: lease_timing_def renew_def)

lemma touch_lease_timing: "lease_timing (snd (touch_lease p msg auth route now)) = lease_timing p"
proof -
  have "lease_timing (p\<lparr>cp_lease := l\<rparr>) = lease_timing p"
    if "establish (cp_lease p) auth d gen route now = Inr l" for d gen l
    using that by (auto simp: lease_timing_def establish_def Let_def split: if_splits)
  then show ?thesis
    by (simp add: touch_lease_def renew_processor_snd renew_timing split: control_command.split sum.split)
qed

lemma adopt_timing: "lease_timing (adopt_generation p msg) = lease_timing p"
  by (simp add: adopt_generation_def lease_timing_def lease_advance_generation_def)

lemma handle_current_timing:
  assumes "handle_current v p msg auth route now = (r, p')"
  shows "lease_timing p' = lease_timing p"
  using assms
proof (cases rule: handle_current_cases)
  case duplicate
  then show ?thesis by (simp add: renew_processor_snd renew_timing)
next
  case (refused e)
  with touch_lease_timing [of p msg auth route now] show ?thesis by simp
next
  case (applied q)
  with touch_lease_timing [of p msg auth route now] show ?thesis by (simp add: lease_timing_def)
qed simp_all

lemma step_timing: "lease_timing (snd (processor_step p op)) = lease_timing p"
proof (cases op)
  case (PoHandle v ep msg auth route now)
  obtain r p' where h: "handle_validated v p ep msg auth route now = (r, p')" by fastforce
  then have "lease_timing p' = lease_timing p"
  proof (cases rule: handle_validated_cases)
    case (rejected e)
    then show ?thesis by (auto simp: adopt_timing)
  next
    case current
    from handle_current_timing [OF current(2)] show ?thesis by (simp add: adopt_timing)
  qed
  with h PoHandle show ?thesis by simp
next
  case (PoDescriptor auth route now)
  then show ?thesis using descriptor_response_snd [of p auth route now] by (auto simp: renew_timing)
qed (simp_all add: lease_timing_def invalidate_route_def lease_advance_generation_def)

lemma run_timing: "lease_timing (processor_run p ops) = lease_timing p"
  by (induction ops arbitrary: p) (simp_all add: processor_run_def step_timing)

text \<open>A peer reported present has been heard from: after any history of a fresh
  processor, if the peer is present at \<open>now\<close> then one node made an accepted contact
  at least the required stability before \<open>now\<close>, and the same node made an accepted
  contact less than one lease before \<open>now\<close>. Requests that were refused never keep a
  peer present.\<close>

lemma peer_present_recent_contact:
  assumes "peer_present (cp_lease (processor_run (processor_new d role lease stability) ops)) now"
  shows "\<exists>node first recent.
    (node, first) \<in> set (contacts (processor_new d role lease stability) ops)
    \<and> (node, recent) \<in> set (contacts (processor_new d role lease stability) ops)
    \<and> sat_add first (duration_millis stability) \<le> now
    \<and> now < sat_add recent (duration_millis lease)"
proof -
  let ?p = "processor_new d role lease stability"
  let ?l = "cp_lease (processor_run ?p ops)"
  have timing: "pl_lease_millis ?l = duration_millis lease" "pl_required_stability ?l = duration_millis stability"
    using run_timing [of ?p ops] by (simp_all add: lease_timing_def processor_new_def peer_lease_new_def)
  have "evidenced {} (cp_lease ?p)" by (simp add: evidenced_def processor_new_def peer_lease_new_def)
  from run_evidenced [OF this, of ops] have "evidenced (set (contacts ?p ops)) ?l" by simp
  with assms timing show ?thesis
    by (fastforce simp: peer_present_def lease_expired_def is_some_and_iff is_none_or_iff evidenced_def not_le)
qed

text \<open>The lease and the registry stay consistent with the generation: after any history
  of a fresh processor, a lease is either empty or complete and of the current generation,
  and the registry holds only messages of the current generation, under their own keys.
  Nothing of an earlier session survives a generation change.\<close>

lemma processor_always_wf:
  "processor_wf (processor_run (processor_new d role lease stability) ops)"
proof -
  have "processor_wf p \<Longrightarrow> processor_wf (processor_run p ops)" for p
    by (induction ops arbitrary: p) (simp_all add: processor_run_def processor_step_wf)
  moreover have "processor_wf (processor_new d role lease stability)"
    by (simp add: processor_wf_def lease_wf_def registry_wf_def processor_new_def peer_lease_new_def)
  ultimately show ?thesis .
qed

section \<open>Bounded bodies\<close>

lemma body_extend_bounded:
  assumes "length body \<le> CONTROL_BODY_LIMIT"
  shows "length (foldl (keep_on_error body_extend) body chunks) \<le> CONTROL_BODY_LIMIT"
  using assms by (induction chunks arbitrary: body) (auto simp: keep_on_error_def body_extend_def)

lemma body_extend_all:
  "length body + length (concat chunks) \<le> CONTROL_BODY_LIMIT \<Longrightarrow>
   foldl (keep_on_error body_extend) body chunks = body @ concat chunks"
  by (induction chunks arbitrary: body) (auto simp: keep_on_error_def body_extend_def)

end
