(* ===== verification/Role_Control.thy ===== *)
theory Role_Control
  imports Control_Plane
begin

text \<open>
  The two ends of the control protocol: \<open>CoordinatorControl\<close>
  (\<open>src/cluster/coordinator/control.rs\<close>), \<open>WorkerControl\<close> and the tensor-parallel
  worker tracker (\<open>src/cluster/worker.rs\<close>), and the interface
  \<open>RuntimePeerControl\<close> of \<open>src/cluster/runtime.rs\<close> that both provide.
\<close>

section \<open>The runtime's view of a peer control\<close>

text \<open>
  \<open>RuntimePeerControl\<close>: the lease of the peer and the change of generation. Moving to
  another generation keeps what the lease says about the peer's presence.
\<close>

locale runtime_peer_control =
  fixes peer_lease :: "'c \<Rightarrow> peer_lease"
    and advance :: "'c \<Rightarrow> u64 \<Rightarrow> 'c"
  assumes advance_lease: "peer_lease (advance c g) = lease_advance_generation (peer_lease c) g"
begin

lemma advance_keeps_presence: "peer_present (peer_lease (advance c g)) now = peer_present (peer_lease c) now"
  by (simp add: advance_lease peer_present_def lease_advance_generation_def lease_expired_def)

lemma advance_keeps_peer: "matches_peer (peer_lease (advance c g)) auth = matches_peer (peer_lease c) auth"
  by (auto simp: advance_lease matches_peer_def lease_advance_generation_def is_some_and_iff)

end

section \<open>The coordinator's control\<close>

record coordinator_control =
  co_processor :: control_processor
  co_phase :: control_phase
  co_peer_child_generation :: "u64 option"

definition coordinator_new :: "node_descriptor \<Rightarrow> nat \<Rightarrow> nat \<Rightarrow> control_error + coordinator_control" where
  "coordinator_new d lease stability =
     (if nd_role d \<noteq> RoleCoordinator \<or> nd_protocol_version d \<noteq> 1 then Inl InvalidDescriptor
      else Inr \<lparr>co_processor = processor_new d RoleWorker lease stability, co_phase = Unpaired,
                co_peer_child_generation = None\<rparr>)"

fun coordinator_accepts :: "control_command \<Rightarrow> bool" where
  "coordinator_accepts (CmdPair _) = True"
| "coordinator_accepts CmdDrained = True"
| "coordinator_accepts (CmdWorkerEvent _) = True"
| "coordinator_accepts CmdCancelGeneration = True"
| "coordinator_accepts CmdDemote = True"
| "coordinator_accepts _ = False"

definition coordinator_valid :: "control_phase \<Rightarrow> bool \<Rightarrow> control_command \<Rightarrow> bool" where
  "coordinator_valid phase present c =
     (case c of
        CmdPair _ \<Rightarrow> phase \<in> {Unpaired, Paired} \<or> \<not> present
      | CmdWorkerEvent e \<Rightarrow>
          (case e of
             WeReady \<Rightarrow> phase = WorkerPreparing
           | WeReadyWithChildGeneration _ \<Rightarrow> phase = WorkerPreparing
           | _ \<Rightarrow> phase \<noteq> Unpaired)
      | CmdDrained \<Rightarrow> phase = Draining
      | CmdDistributedReady \<Rightarrow> False
      | CmdCancelGeneration \<Rightarrow> phase \<in> {WorkerPreparing, WorkerReady, Draining, Drained}
      | CmdDemote \<Rightarrow> phase \<in> {WorkerReady, Draining, Drained}
      | _ \<Rightarrow> False)"

definition validate_coordinator_command ::
  "control_phase \<Rightarrow> bool \<Rightarrow> control_command \<Rightarrow> control_error option" where
  "validate_coordinator_command phase present c =
     (if coordinator_valid phase present c then None else Some (InvalidPhase phase))"

fun coordinator_effect :: "coordinator_control \<Rightarrow> control_command \<Rightarrow> coordinator_control" where
  "coordinator_effect c (CmdPair _) = c\<lparr>co_peer_child_generation := None, co_phase := Paired\<rparr>"
| "coordinator_effect c (CmdWorkerEvent WeReady) =
     c\<lparr>co_peer_child_generation := None, co_phase := WorkerReady\<rparr>"
| "coordinator_effect c (CmdWorkerEvent (WeReadyWithChildGeneration g)) =
     c\<lparr>co_peer_child_generation := Some g, co_phase := WorkerReady\<rparr>"
| "coordinator_effect c (CmdWorkerEvent _) = c\<lparr>co_peer_child_generation := None\<rparr>"
| "coordinator_effect c CmdDrained = c\<lparr>co_phase := Drained\<rparr>"
| "coordinator_effect c CmdCancelGeneration = c\<lparr>co_peer_child_generation := None, co_phase := Paired\<rparr>"
| "coordinator_effect c CmdDemote = c\<lparr>co_peer_child_generation := None, co_phase := Paired\<rparr>"
| "coordinator_effect c _ = c"

definition coordinator_handle ::
  "coordinator_control \<Rightarrow> control_endpoint \<Rightarrow> control_message \<Rightarrow> authenticated_peer \<Rightarrow> bool \<Rightarrow> u64 \<Rightarrow>
   (control_error + control_response) \<times> coordinator_control" where
  "coordinator_handle c ep msg auth route now =
     (if \<not> coordinator_accepts (msg_command msg) then (Inl CommandNotAllowed, c)
      else
        let present = peer_present (cp_lease (co_processor c)) now in
        case handle_validated (validate_coordinator_command (co_phase c) present)
               (co_processor c) ep msg auth route now of
          (Inl e, p) \<Rightarrow> (Inl e, c\<lparr>co_processor := p\<rparr>)
        | (Inr r, p) \<Rightarrow>
            (Inr r, if rsp_status r = Applied
                    then coordinator_effect (c\<lparr>co_processor := p\<rparr>) (msg_command msg)
                    else c\<lparr>co_processor := p\<rparr>))"

definition paired_phase :: "control_processor \<Rightarrow> control_phase" where
  "paired_phase p = (if pl_descriptor (cp_lease p) \<noteq> None then Paired else Unpaired)"

definition coordinator_advance_generation :: "coordinator_control \<Rightarrow> u64 \<Rightarrow> coordinator_control" where
  "coordinator_advance_generation c gen =
     (let p = advance_generation (co_processor c) gen
      in c\<lparr>co_processor := p, co_peer_child_generation := None, co_phase := paired_phase p\<rparr>)"

definition coordinator_reset_for_repair :: "coordinator_control \<Rightarrow> u64 \<Rightarrow> coordinator_control" where
  "coordinator_reset_for_repair c now =
     c\<lparr>co_peer_child_generation := None,
       co_phase := (if peer_present (cp_lease (co_processor c)) now then Paired else Unpaired)\<rparr>"

definition propose_candidate :: "coordinator_control \<Rightarrow> u64 \<Rightarrow> u64 \<times> coordinator_control" where
  "propose_candidate c peer =
     (let candidate = candidate_generation (co_processor c) peer
      in if candidate > generation (co_processor c)
         then let p = advance_generation (co_processor c) candidate
              in (candidate, c\<lparr>co_processor := p, co_phase := paired_phase p\<rparr>)
         else (candidate, c))"

definition require_generation :: "coordinator_control \<Rightarrow> u64 \<Rightarrow> control_error option" where
  "require_generation c gen =
     (let expected = generation (co_processor c)
      in if gen \<noteq> expected then Some (GenerationMismatch expected gen) else None)"

definition note_prepare_sent :: "coordinator_control \<Rightarrow> u64 \<Rightarrow> control_error + coordinator_control" where
  "note_prepare_sent c gen =
     (case require_generation c gen of
        Some e \<Rightarrow> Inl e
      | None \<Rightarrow> if co_phase c \<noteq> Paired then Inl (InvalidPhase (co_phase c))
                else Inr (c\<lparr>co_phase := WorkerPreparing\<rparr>))"

definition note_begin_drain_sent :: "coordinator_control \<Rightarrow> u64 \<Rightarrow> control_error + coordinator_control" where
  "note_begin_drain_sent c gen =
     (case require_generation c gen of
        Some e \<Rightarrow> Inl e
      | None \<Rightarrow> if co_phase c \<noteq> WorkerReady then Inl (InvalidPhase (co_phase c))
                else Inr (c\<lparr>co_phase := Draining\<rparr>))"

definition note_demote_complete :: "coordinator_control \<Rightarrow> u64 \<Rightarrow> control_error + coordinator_control" where
  "note_demote_complete c gen =
     (case require_generation c gen of
        Some e \<Rightarrow> Inl e
      | None \<Rightarrow> if co_phase c \<notin> {WorkerReady, Draining, Drained} then Inl (InvalidPhase (co_phase c))
                else Inr (c\<lparr>co_peer_child_generation := None, co_phase := Paired\<rparr>))"

definition prepare_worker_message :: "coordinator_control \<Rightarrow> string \<Rightarrow> control_error + control_message" where
  "prepare_worker_message c rid =
     (if co_phase c \<noteq> Paired then Inl (InvalidPhase (co_phase c))
      else Inr (control_message_of (co_processor c) rid CmdPrepareWorker))"

definition begin_drain_message :: "coordinator_control \<Rightarrow> string \<Rightarrow> control_error + control_message" where
  "begin_drain_message c rid =
     (if co_phase c \<noteq> WorkerReady then Inl (InvalidPhase (co_phase c))
      else Inr (control_message_of (co_processor c) rid CmdBeginDrain))"

definition prepare_restart_message :: "coordinator_control \<Rightarrow> string \<Rightarrow> control_error + control_message" where
  "prepare_restart_message c rid =
     (if co_phase c \<noteq> WorkerReady then Inl (InvalidPhase (co_phase c))
      else Inr (control_message_of (co_processor c) rid CmdPrepareRestart))"

definition cancel_restart_message :: "coordinator_control \<Rightarrow> string \<Rightarrow> control_error + control_message" where
  "cancel_restart_message c rid =
     (if co_phase c = Unpaired then Inl (InvalidPhase (co_phase c))
      else Inr (control_message_of (co_processor c) rid CmdCancelRestart))"

definition distributed_ready_message ::
  "coordinator_control \<Rightarrow> string \<Rightarrow> control_error + control_message \<times> coordinator_control" where
  "distributed_ready_message c rid =
     (if co_phase c \<noteq> Drained then Inl (InvalidPhase (co_phase c))
      else Inr (control_message_of (co_processor c) rid CmdDistributedReady, c\<lparr>co_phase := WorkerReady\<rparr>))"

definition cancel_generation_message ::
  "coordinator_control \<Rightarrow> string \<Rightarrow> control_error + control_message \<times> coordinator_control" where
  "cancel_generation_message c rid =
     (if co_phase c \<notin> {WorkerPreparing, WorkerReady, Draining, Drained} then Inl (InvalidPhase (co_phase c))
      else Inr (control_message_of (co_processor c) rid CmdCancelGeneration, c\<lparr>co_phase := Paired\<rparr>))"

definition demote_message :: "coordinator_control \<Rightarrow> string \<Rightarrow> control_error + control_message" where
  "demote_message c rid =
     (if co_phase c \<notin> {WorkerReady, Draining, Drained} then Inl (InvalidPhase (co_phase c))
      else Inr (control_message_of (co_processor c) rid CmdDemote))"

interpretation cpc: runtime_peer_control "\<lambda>c. cp_lease (co_processor c)" coordinator_advance_generation
  by unfold_locales (simp add: coordinator_advance_generation_def Let_def)

section \<open>The worker's control\<close>

record worker_control =
  wk_processor :: control_processor
  wk_phase :: control_phase

definition worker_new :: "node_descriptor \<Rightarrow> nat \<Rightarrow> nat \<Rightarrow> control_error + worker_control" where
  "worker_new d lease stability =
     (if nd_role d \<noteq> RoleWorker \<or> nd_protocol_version d \<noteq> 1 then Inl InvalidDescriptor
      else Inr \<lparr>wk_processor = processor_new d RoleCoordinator lease stability, wk_phase = Unpaired\<rparr>)"

fun worker_accepts :: "control_command \<Rightarrow> bool" where
  "worker_accepts CmdDrained = False"
| "worker_accepts (CmdWorkerEvent _) = False"
| "worker_accepts _ = True"

definition worker_valid :: "control_phase \<Rightarrow> bool \<Rightarrow> control_command \<Rightarrow> bool" where
  "worker_valid phase present c =
     (case c of
        CmdPair _ \<Rightarrow> phase \<in> {Unpaired, Paired} \<or> \<not> present
      | CmdPrepareWorker \<Rightarrow> phase = Paired
      | CmdBeginDrain \<Rightarrow> phase = WorkerReady
      | CmdDistributedReady \<Rightarrow> phase = Drained
      | CmdCancelGeneration \<Rightarrow> phase \<in> {WorkerPreparing, WorkerReady, Draining, Drained}
      | CmdDemote \<Rightarrow> phase \<noteq> Unpaired
      | CmdPrepareRestart \<Rightarrow> phase \<noteq> Unpaired
      | CmdCancelRestart \<Rightarrow> phase \<noteq> Unpaired
      | _ \<Rightarrow> False)"

definition validate_worker_command ::
  "control_phase \<Rightarrow> bool \<Rightarrow> control_command \<Rightarrow> control_error option" where
  "validate_worker_command phase present c =
     (if worker_valid phase present c then None else Some (InvalidPhase phase))"

fun worker_effect :: "worker_control \<Rightarrow> control_command \<Rightarrow> worker_control" where
  "worker_effect w (CmdPair _) = w\<lparr>wk_phase := Paired\<rparr>"
| "worker_effect w CmdPrepareWorker = w\<lparr>wk_phase := WorkerPreparing\<rparr>"
| "worker_effect w CmdBeginDrain = w\<lparr>wk_phase := Draining\<rparr>"
| "worker_effect w CmdDistributedReady = w\<lparr>wk_phase := WorkerReady\<rparr>"
| "worker_effect w CmdCancelGeneration = w\<lparr>wk_phase := Paired\<rparr>"
| "worker_effect w CmdDemote = w\<lparr>wk_phase := Paired\<rparr>"
| "worker_effect w _ = w"

definition worker_handle ::
  "worker_control \<Rightarrow> control_endpoint \<Rightarrow> control_message \<Rightarrow> authenticated_peer \<Rightarrow> bool \<Rightarrow> u64 \<Rightarrow>
   (control_error + control_response) \<times> worker_control" where
  "worker_handle w ep msg auth route now =
     (if \<not> worker_accepts (msg_command msg) then (Inl CommandNotAllowed, w)
      else
        let present = peer_present (cp_lease (wk_processor w)) now in
        case handle_validated (validate_worker_command (wk_phase w) present)
               (wk_processor w) ep msg auth route now of
          (Inl e, p) \<Rightarrow> (Inl e, w\<lparr>wk_processor := p\<rparr>)
        | (Inr r, p) \<Rightarrow>
            (Inr r, if rsp_status r = Applied
                    then worker_effect (w\<lparr>wk_processor := p\<rparr>) (msg_command msg)
                    else w\<lparr>wk_processor := p\<rparr>))"

definition worker_advance_generation :: "worker_control \<Rightarrow> u64 \<Rightarrow> worker_control" where
  "worker_advance_generation w gen =
     (let p = advance_generation (wk_processor w) gen
      in w\<lparr>wk_processor := p, wk_phase := paired_phase p\<rparr>)"

definition worker_reset_for_repair :: "worker_control \<Rightarrow> u64 \<Rightarrow> worker_control" where
  "worker_reset_for_repair w now =
     w\<lparr>wk_phase := (if peer_present (cp_lease (wk_processor w)) now then Paired else Unpaired)\<rparr>"

definition worker_ready_message ::
  "worker_control \<Rightarrow> string \<Rightarrow> u64 \<Rightarrow> control_error + control_message \<times> worker_control" where
  "worker_ready_message w rid child =
     (if wk_phase w \<noteq> WorkerPreparing then Inl (InvalidPhase (wk_phase w))
      else Inr (control_message_of (wk_processor w) rid (CmdWorkerEvent (WeReadyWithChildGeneration child)),
                w\<lparr>wk_phase := WorkerReady\<rparr>))"

definition drained_message ::
  "worker_control \<Rightarrow> string \<Rightarrow> control_error + control_message \<times> worker_control" where
  "drained_message w rid =
     (if wk_phase w \<noteq> Draining then Inl (InvalidPhase (wk_phase w))
      else Inr (control_message_of (wk_processor w) rid CmdDrained, w\<lparr>wk_phase := Drained\<rparr>))"

definition child_exited_message ::
  "worker_control \<Rightarrow> string \<Rightarrow> control_error + control_message \<times> worker_control" where
  "child_exited_message w rid =
     (if wk_phase w \<notin> {WorkerReady, Draining, Drained} then Inl (InvalidPhase (wk_phase w))
      else Inr (control_message_of (wk_processor w) rid (CmdWorkerEvent WeExited), w\<lparr>wk_phase := Paired\<rparr>))"

interpretation wpc: runtime_peer_control "\<lambda>w. cp_lease (wk_processor w)" worker_advance_generation
  by unfold_locales (simp add: worker_advance_generation_def Let_def)

section \<open>The tensor-parallel worker tracker\<close>

datatype tp_worker_phase = TwIdle | TwPrepared | TwConnected | TwFailed | TwCancelled

record tp_worker_tracker =
  tw_phase :: tp_worker_phase
  tw_generation :: u64
  tw_cancelled :: bool

definition tp_worker_new :: tp_worker_tracker where
  "tp_worker_new = \<lparr>tw_phase = TwIdle, tw_generation = 0, tw_cancelled = False\<rparr>"

definition note_prepared :: "tp_worker_tracker \<Rightarrow> u64 \<Rightarrow> tp_worker_tracker" where
  "note_prepared t gen =
     (if tw_cancelled t then t\<lparr>tw_phase := TwCancelled\<rparr>
      else t\<lparr>tw_generation := gen, tw_phase := TwPrepared\<rparr>)"

definition note_connected :: "tp_worker_tracker \<Rightarrow> u64 \<Rightarrow> tp_worker_tracker" where
  "note_connected t gen =
     (if tw_cancelled t \<or> tw_phase t \<noteq> TwPrepared then t
      else if gen \<noteq> tw_generation t then t
      else t\<lparr>tw_phase := TwConnected\<rparr>)"

definition note_failed :: "tp_worker_tracker \<Rightarrow> tp_worker_tracker" where
  "note_failed t =
     (if tw_cancelled t then t\<lparr>tw_phase := TwCancelled\<rparr> else t\<lparr>tw_phase := TwFailed\<rparr>)"

definition cancel_worker :: "tp_worker_tracker \<Rightarrow> tp_worker_tracker" where
  "cancel_worker t =
     (let t = t\<lparr>tw_cancelled := True\<rparr>
      in if tw_phase t = TwConnected then t else t\<lparr>tw_phase := TwCancelled\<rparr>)"

datatype tp_worker_op = NotePrepared u64 | NoteConnected u64 | NoteFailed | CancelWorker

fun tp_worker_step :: "tp_worker_tracker \<Rightarrow> tp_worker_op \<Rightarrow> tp_worker_tracker" where
  "tp_worker_step t (NotePrepared g) = note_prepared t g"
| "tp_worker_step t (NoteConnected g) = note_connected t g"
| "tp_worker_step t NoteFailed = note_failed t"
| "tp_worker_step t CancelWorker = cancel_worker t"

section \<open>One promotion, end to end\<close>

text \<open>Delivery of a message over a scoped route; a refused message fails the promotion.\<close>

definition deliver_to_worker ::
  "worker_control \<Rightarrow> control_message \<Rightarrow> authenticated_peer \<Rightarrow> u64 \<Rightarrow> control_error + worker_control" where
  "deliver_to_worker w msg auth now =
     (case worker_handle w (endpoint (msg_command msg)) msg auth True now of
        (Inl e, _) \<Rightarrow> Inl e | (Inr _, w') \<Rightarrow> Inr w')"

definition deliver_to_coordinator ::
  "coordinator_control \<Rightarrow> control_message \<Rightarrow> authenticated_peer \<Rightarrow> u64 \<Rightarrow> control_error + coordinator_control" where
  "deliver_to_coordinator c msg auth now =
     (case coordinator_handle c (endpoint (msg_command msg)) msg auth True now of
        (Inl e, _) \<Rightarrow> Inl e | (Inr _, c') \<Rightarrow> Inr c')"

definition and_then :: "'e + 'a \<Rightarrow> ('a \<Rightarrow> 'e + 'b) \<Rightarrow> 'e + 'b" where
  "and_then x f = (case x of Inl e \<Rightarrow> Inl e | Inr a \<Rightarrow> f a)"

text \<open>
  The message exchange of one promotion, in the order of
  \<open>src/cluster/production/pairing.rs\<close> and \<open>src/cluster/production/worker.rs\<close>:
  prepare, ready, begin-drain, drained, distributed-ready, with the request identifiers
  \<open>r 1\<close> to \<open>r 5\<close> and the delivery times \<open>t 1\<close> to \<open>t 5\<close>.
\<close>

definition prepare_exchange ::
  "authenticated_peer \<Rightarrow> authenticated_peer \<Rightarrow> (nat \<Rightarrow> string) \<Rightarrow> (nat \<Rightarrow> u64) \<Rightarrow> u64 \<Rightarrow>
   coordinator_control \<Rightarrow> worker_control \<Rightarrow> control_error + coordinator_control \<times> worker_control" where
  "prepare_exchange co_auth wk_auth r t child c w =
     and_then (prepare_worker_message c (r 1)) (\<lambda>prepare.
     and_then (note_prepare_sent c (msg_generation prepare)) (\<lambda>c.
     and_then (deliver_to_worker w prepare co_auth (t 1)) (\<lambda>w.
     and_then (worker_ready_message w (r 2) child) (\<lambda>(ready, w).
     and_then (deliver_to_coordinator c ready wk_auth (t 2)) (\<lambda>c.
     Inr (c, w))))))"

definition drain_exchange ::
  "authenticated_peer \<Rightarrow> authenticated_peer \<Rightarrow> (nat \<Rightarrow> string) \<Rightarrow> (nat \<Rightarrow> u64) \<Rightarrow>
   coordinator_control \<Rightarrow> worker_control \<Rightarrow> control_error + coordinator_control \<times> worker_control" where
  "drain_exchange co_auth wk_auth r t c w =
     and_then (begin_drain_message c (r 3)) (\<lambda>drain.
     and_then (note_begin_drain_sent c (msg_generation drain)) (\<lambda>c.
     and_then (deliver_to_worker w drain co_auth (t 3)) (\<lambda>w.
     and_then (drained_message w (r 4)) (\<lambda>(drained, w).
     and_then (deliver_to_coordinator c drained wk_auth (t 4)) (\<lambda>c.
     and_then (distributed_ready_message c (r 5)) (\<lambda>(ready, c).
     and_then (deliver_to_worker w ready co_auth (t 5)) (\<lambda>w.
     Inr (c, w))))))))"

definition promotion_exchange ::
  "authenticated_peer \<Rightarrow> authenticated_peer \<Rightarrow> (nat \<Rightarrow> string) \<Rightarrow> (nat \<Rightarrow> u64) \<Rightarrow> u64 \<Rightarrow>
   coordinator_control \<Rightarrow> worker_control \<Rightarrow> control_error + coordinator_control \<times> worker_control" where
  "promotion_exchange co_auth wk_auth r t child c w =
     and_then (prepare_exchange co_auth wk_auth r t child c w) (\<lambda>(c, w).
     drain_exchange co_auth wk_auth r t c w)"

text \<open>A lease on which \<open>auth\<close> is heard until \<open>until\<close>.\<close>

definition hears :: "control_processor \<Rightarrow> authenticated_peer \<Rightarrow> u64 \<Rightarrow> bool" where
  "hears p auth until \<longleftrightarrow>
     pl_generation (cp_lease p) = Some (generation p) \<and> matches_peer (cp_lease p) auth
     \<and> is_some_and (\<lambda>e. until < e) (pl_expires_at (cp_lease p))"

lemma renew_hears:
  assumes "hears p auth until" "now \<le> until" "until < sat_add now (pl_lease_millis (cp_lease p))"
  obtains l where "renew (cp_lease p) auth (generation p) True now = (None, l)"
    "hears (p\<lparr>cp_lease := l\<rparr>) auth until" "pl_lease_millis l = pl_lease_millis (cp_lease p)"
proof -
  let ?l = "(cp_lease p)\<lparr>pl_route_scoped := True,
    pl_expires_at := Some (sat_add now (pl_lease_millis (cp_lease p)))\<rparr>"
  have "renew (cp_lease p) auth (generation p) True now = (None, ?l)"
    using assms(1,2)
    by (auto simp: hears_def renew_def matches_peer_def is_some_and_iff lease_expired_def)
  moreover have "hears (p\<lparr>cp_lease := ?l\<rparr>) auth until"
    using assms(1,3) by (simp add: hears_def matches_peer_def)
  ultimately show ?thesis using that by simp
qed

text \<open>A command other than \<open>Pair\<close> is applied when it is addressed to the current session,
  fresh, allowed in the phase, and comes from the peer the lease hears.\<close>

lemma handle_validated_applies:
  assumes "\<not> is_pair (msg_command msg)"
    and "msg_request_id msg \<noteq> []" "length (msg_request_id msg) \<le> 128"
    and "msg_generation msg = generation p"
    and "nd_deployment_id (cp_local p) \<noteq> None" "msg_deployment_id msg = nd_deployment_id (cp_local p)"
    and "cp_processed p (msg_generation msg, msg_request_id msg) = None"
    and "validate (msg_command msg) = None"
    and "hears p auth until" "now \<le> until" "until < sat_add now (pl_lease_millis (cp_lease p))"
  obtains r p' where "handle_validated validate p (endpoint (msg_command msg)) msg auth True now = (Inr r, p')"
    "rsp_status r = Applied" "cp_local p' = cp_local p" "hears p' auth until"
    "cp_processed p' = (cp_processed p)((generation p, msg_request_id msg) \<mapsto> msg)"
    "pl_lease_millis (cp_lease p') = pl_lease_millis (cp_lease p)"
proof -
  obtain l where l: "renew (cp_lease p) auth (generation p) True now = (None, l)"
    "hears (p\<lparr>cp_lease := l\<rparr>) auth until" "pl_lease_millis l = pl_lease_millis (cp_lease p)"
    by (rule renew_hears [OF assms(9-11)])
  have touch: "touch_lease p msg auth True now = (None, p\<lparr>cp_lease := l\<rparr>)"
    using assms(1,4) l(1)
    by (simp add: touch_lease_def is_pair_def renew_processor_def split: control_command.splits)
  let ?p = "p\<lparr>cp_lease := l, cp_processed := (cp_processed p)((generation p, msg_request_id msg) \<mapsto> msg)\<rparr>"
  have "handle_validated validate p (endpoint (msg_command msg)) msg auth True now
      = (Inr (response ?p Applied), ?p)"
    using assms(1-8) touch
    by (simp add: handle_validated_def adopt_generation_def handle_current_def Let_def)
  moreover have "hears ?p auth until" using l(2) by (simp add: hears_def)
  ultimately show ?thesis using that l(3) by (simp add: response_def)
qed

text \<open>A processor open to the requests \<open>rids\<close> of a peer session.\<close>

definition open_to ::
  "control_processor \<Rightarrow> authenticated_peer \<Rightarrow> string set \<Rightarrow> u64 \<Rightarrow> u64 \<Rightarrow> bool" where
  "open_to p auth rids from until \<longleftrightarrow>
     nd_deployment_id (cp_local p) \<noteq> None \<and> hears p auth until
     \<and> until < sat_add from (pl_lease_millis (cp_lease p))
     \<and> (\<forall>rid \<in> rids. rid \<noteq> [] \<and> length rid \<le> 128 \<and> cp_processed p (generation p, rid) = None)"

definition same_session :: "control_processor \<Rightarrow> control_processor \<Rightarrow> bool" where
  "same_session p q \<longleftrightarrow>
     generation p = generation q \<and> nd_deployment_id (cp_local p) = nd_deployment_id (cp_local q)"

lemma open_to_applies:
  assumes "open_to p auth rids from until" "rid \<in> rids" "from \<le> now" "now \<le> until"
    and "same_session q p" "\<not> is_pair cmd" "validate cmd = None"
  obtains r p' where "handle_validated validate p (endpoint cmd) (control_message_of q rid cmd) auth True now = (Inr r, p')"
    "rsp_status r = Applied" "same_session p' p" "open_to p' auth (rids - {rid}) from until"
proof -
  let ?m = "control_message_of q rid cmd"
  have m: "msg_command ?m = cmd" "msg_request_id ?m = rid" "msg_generation ?m = generation p"
    "msg_deployment_id ?m = nd_deployment_id (cp_local p)"
    using assms(5) by (simp_all add: control_message_of_def same_session_def)
  have o: "nd_deployment_id (cp_local p) \<noteq> None" "hears p auth until" "rid \<noteq> []" "length rid \<le> 128"
    "cp_processed p (generation p, rid) = None" "until < sat_add from (pl_lease_millis (cp_lease p))"
    using assms(1,2) by (auto simp: open_to_def)
  then have "until < sat_add now (pl_lease_millis (cp_lease p))"
    using sat_add_mono [OF assms(3), of "pl_lease_millis (cp_lease p)"] by simp
  then obtain r p' where h: "handle_validated validate p (endpoint cmd) ?m auth True now = (Inr r, p')"
    "rsp_status r = Applied" "cp_local p' = cp_local p" "hears p' auth until"
    "cp_processed p' = (cp_processed p)((generation p, rid) \<mapsto> ?m)"
    "pl_lease_millis (cp_lease p') = pl_lease_millis (cp_lease p)"
    using handle_validated_applies [of ?m p validate auth until now] m o assms(4,6,7) by auto
  moreover have "same_session p' p" using h(3) by (simp add: same_session_def generation_def)
  moreover have "open_to p' auth (rids - {rid}) from until"
    using assms(1) h(3-6) by (auto simp: open_to_def generation_def)
  ultimately show ?thesis using that by blast
qed

lemma worker_effect_processor [simp]: "wk_processor (worker_effect w cmd) = wk_processor w"
  by (cases cmd) simp_all

lemma worker_effect_phase: "wk_phase (worker_effect (w\<lparr>wk_processor := p\<rparr>) cmd) = wk_phase (worker_effect w cmd)"
  by (cases cmd) simp_all

lemma coordinator_effect_processor [simp]: "co_processor (coordinator_effect c cmd) = co_processor c"
  by (cases "(c, cmd)" rule: coordinator_effect.cases) simp_all

lemma coordinator_effect_phase:
  "co_phase (coordinator_effect (c\<lparr>co_processor := p\<rparr>) cmd) = co_phase (coordinator_effect c cmd)"
  "co_peer_child_generation (coordinator_effect (c\<lparr>co_processor := p\<rparr>) cmd)
   = co_peer_child_generation (coordinator_effect c cmd)"
  by (cases "(c, cmd)" rule: coordinator_effect.cases; simp)+

lemma deliver_to_worker_applies:
  assumes "open_to (wk_processor w) auth rids from until" "rid \<in> rids" "from \<le> now" "now \<le> until"
    and "same_session q (wk_processor w)" "\<not> is_pair cmd" "worker_accepts cmd"
    and "\<And>present. worker_valid (wk_phase w) present cmd"
  obtains w' where "deliver_to_worker w (control_message_of q rid cmd) auth now = Inr w'"
    "wk_phase w' = wk_phase (worker_effect w cmd)"
    "same_session (wk_processor w') (wk_processor w)" "open_to (wk_processor w') auth (rids - {rid}) from until"
proof -
  let ?v = "validate_worker_command (wk_phase w) (peer_present (cp_lease (wk_processor w)) now)"
  have "?v cmd = None" using assms(8) by (simp add: validate_worker_command_def)
  from open_to_applies [where validate = ?v, OF assms(1-6) this] obtain r p' where
    h: "handle_validated ?v (wk_processor w) (endpoint cmd) (control_message_of q rid cmd) auth True now = (Inr r, p')"
    "rsp_status r = Applied" "same_session p' (wk_processor w)" "open_to p' auth (rids - {rid}) from until" .
  then have "deliver_to_worker w (control_message_of q rid cmd) auth now
      = Inr (worker_effect (w\<lparr>wk_processor := p'\<rparr>) cmd)"
    using assms(7) by (simp add: deliver_to_worker_def worker_handle_def control_message_of_def Let_def)
  then show ?thesis using that h by (simp add: worker_effect_phase)
qed

lemma deliver_to_coordinator_applies:
  assumes "open_to (co_processor c) auth rids from until" "rid \<in> rids" "from \<le> now" "now \<le> until"
    and "same_session q (co_processor c)" "\<not> is_pair cmd" "coordinator_accepts cmd"
    and "\<And>present. coordinator_valid (co_phase c) present cmd"
  obtains c' where "deliver_to_coordinator c (control_message_of q rid cmd) auth now = Inr c'"
    "co_phase c' = co_phase (coordinator_effect c cmd)"
    "co_peer_child_generation c' = co_peer_child_generation (coordinator_effect c cmd)"
    "same_session (co_processor c') (co_processor c)" "open_to (co_processor c') auth (rids - {rid}) from until"
proof -
  let ?v = "validate_coordinator_command (co_phase c) (peer_present (cp_lease (co_processor c)) now)"
  have "?v cmd = None" using assms(8) by (simp add: validate_coordinator_command_def)
  from open_to_applies [where validate = ?v, OF assms(1-6) this] obtain r p' where
    h: "handle_validated ?v (co_processor c) (endpoint cmd) (control_message_of q rid cmd) auth True now = (Inr r, p')"
    "rsp_status r = Applied" "same_session p' (co_processor c)" "open_to p' auth (rids - {rid}) from until" .
  then have "deliver_to_coordinator c (control_message_of q rid cmd) auth now
      = Inr (coordinator_effect (c\<lparr>co_processor := p'\<rparr>) cmd)"
    using assms(7) by (simp add: deliver_to_coordinator_def coordinator_handle_def control_message_of_def Let_def)
  then show ?thesis using that h by (simp add: coordinator_effect_phase)
qed

lemma same_session_sym: "same_session p q \<Longrightarrow> same_session q p"
  by (simp add: same_session_def)

lemma same_session_trans: "same_session p q \<Longrightarrow> same_session q r \<Longrightarrow> same_session p r"
  by (simp add: same_session_def)

lemma and_then_Inr [simp]: "and_then (Inr a) f = f a"
  by (simp add: and_then_def)

lemma prepare_exchange_succeeds:
  assumes "co_phase c = Paired" "wk_phase w = Paired" "same_session (co_processor c) (wk_processor w)"
    and "open_to (wk_processor w) co_auth (insert (r 1) wr) (t 1) until" "r 1 \<notin> wr"
    and "open_to (co_processor c) wk_auth (insert (r 2) cr) (t 1) until" "r 2 \<notin> cr"
    and "sorted [t 1, t 2, until]"
  obtains c' w' where "prepare_exchange co_auth wk_auth r t child c w = Inr (c', w')"
    "co_phase c' = WorkerReady" "wk_phase w' = WorkerReady" "co_peer_child_generation c' = Some child"
    "same_session (co_processor c') (wk_processor w')"
    "open_to (wk_processor w') co_auth wr (t 1) until" "open_to (co_processor c') wk_auth cr (t 1) until"
proof -
  define c1 where "c1 = c\<lparr>co_phase := WorkerPreparing\<rparr>"
  let ?prepare = "control_message_of (co_processor c) (r 1) CmdPrepareWorker"
  have prepare: "prepare_worker_message c (r 1) = Inr ?prepare"
    "note_prepare_sent c (msg_generation ?prepare) = Inr c1"
    using assms(1) by (simp_all add: prepare_worker_message_def note_prepare_sent_def c1_def
        require_generation_def control_message_of_def)
  obtain w1 where w1: "deliver_to_worker w ?prepare co_auth (t 1) = Inr w1"
    "wk_phase w1 = WorkerPreparing" "same_session (wk_processor w1) (wk_processor w)"
    "open_to (wk_processor w1) co_auth (insert (r 1) wr - {r 1}) (t 1) until"
    by (rule deliver_to_worker_applies [OF assms(4), of "r 1" "t 1" "co_processor c" CmdPrepareWorker])
      (use assms(2,3,8) in \<open>auto simp: worker_valid_def is_pair_def\<close>)
  define w2 where "w2 = w1\<lparr>wk_phase := WorkerReady\<rparr>"
  let ?event = "CmdWorkerEvent (WeReadyWithChildGeneration child)"
  let ?ready = "control_message_of (wk_processor w1) (r 2) ?event"
  have ready: "worker_ready_message w1 (r 2) child = Inr (?ready, w2)"
    using w1(2) by (simp add: worker_ready_message_def w2_def)
  obtain c2 where c2: "deliver_to_coordinator c1 ?ready wk_auth (t 2) = Inr c2"
    "co_phase c2 = WorkerReady" "co_peer_child_generation c2 = Some child"
    "same_session (co_processor c2) (co_processor c)"
    "open_to (co_processor c2) wk_auth (insert (r 2) cr - {r 2}) (t 1) until"
    by (rule deliver_to_coordinator_applies
          [of c1 wk_auth "insert (r 2) cr" "t 1" until "r 2" "t 2" "wk_processor w1" ?event])
      (use assms(3,6,8) w1(3) in \<open>auto simp: c1_def coordinator_valid_def is_pair_def same_session_def\<close>)
  have "prepare_exchange co_auth wk_auth r t child c w = Inr (c2, w2)"
    by (simp add: prepare_exchange_def prepare w1(1) ready c2(1) del: One_nat_def)
  moreover have "same_session (co_processor c2) (wk_processor w2)"
    using assms(3) w1(3) c2(4) by (simp add: w2_def same_session_def)
  ultimately show ?thesis using that [of c2 w2] w1 c2 assms(5,7) by (simp add: w2_def)
qed

lemma drain_exchange_succeeds:
  assumes "co_phase c = WorkerReady" "wk_phase w = WorkerReady" "same_session (co_processor c) (wk_processor w)"
    and "open_to (wk_processor w) co_auth {r 3, r 5} t0 until" "r 3 \<noteq> r 5"
    and "open_to (co_processor c) wk_auth {r 4} t0 until"
    and "sorted [t0, t 3, t 4, t 5, until]"
  obtains c' w' where "drain_exchange co_auth wk_auth r t c w = Inr (c', w')"
    "co_phase c' = WorkerReady" "wk_phase w' = WorkerReady"
    "co_peer_child_generation c' = co_peer_child_generation c"
    "same_session (co_processor c') (wk_processor w')"
proof -
  define c3 where "c3 = c\<lparr>co_phase := Draining\<rparr>"
  let ?drain = "control_message_of (co_processor c) (r 3) CmdBeginDrain"
  have drain: "begin_drain_message c (r 3) = Inr ?drain"
    "note_begin_drain_sent c (msg_generation ?drain) = Inr c3"
    using assms(1) by (simp_all add: begin_drain_message_def note_begin_drain_sent_def c3_def
        require_generation_def control_message_of_def)
  obtain w3 where w3: "deliver_to_worker w ?drain co_auth (t 3) = Inr w3"
    "wk_phase w3 = Draining" "same_session (wk_processor w3) (wk_processor w)"
    "open_to (wk_processor w3) co_auth ({r 3, r 5} - {r 3}) t0 until"
    by (rule deliver_to_worker_applies [OF assms(4), of "r 3" "t 3" "co_processor c" CmdBeginDrain])
      (use assms(2,3,7) in \<open>auto simp: worker_valid_def is_pair_def\<close>)
  define w4 where "w4 = w3\<lparr>wk_phase := Drained\<rparr>"
  let ?drained = "control_message_of (wk_processor w3) (r 4) CmdDrained"
  have drained: "drained_message w3 (r 4) = Inr (?drained, w4)"
    using w3(2) by (simp add: drained_message_def w4_def)
  obtain c4 where c4: "deliver_to_coordinator c3 ?drained wk_auth (t 4) = Inr c4" "co_phase c4 = Drained"
    "co_peer_child_generation c4 = co_peer_child_generation c" "same_session (co_processor c4) (co_processor c)"
    by (rule deliver_to_coordinator_applies [of c3 wk_auth "{r 4}" t0 until "r 4" "t 4" "wk_processor w3" CmdDrained])
      (use assms(3,6,7) w3(3) in \<open>auto simp: c3_def coordinator_valid_def is_pair_def same_session_def\<close>)
  define c5 where "c5 = c4\<lparr>co_phase := WorkerReady\<rparr>"
  let ?dist = "control_message_of (co_processor c4) (r 5) CmdDistributedReady"
  have dist: "distributed_ready_message c4 (r 5) = Inr (?dist, c5)"
    using c4(2) by (simp add: distributed_ready_message_def c5_def)
  obtain w5 where w5: "deliver_to_worker w4 ?dist co_auth (t 5) = Inr w5"
    "wk_phase w5 = WorkerReady" "same_session (wk_processor w5) (wk_processor w3)"
    by (rule deliver_to_worker_applies
          [of w4 co_auth "{r 3, r 5} - {r 3}" t0 until "r 5" "t 5" "co_processor c4" CmdDistributedReady])
      (use assms(3,5,7) w3(3,4) c4(4) in \<open>auto simp: w4_def worker_valid_def is_pair_def same_session_def\<close>)
  have "drain_exchange co_auth wk_auth r t c w = Inr (c5, w5)"
    by (simp add: drain_exchange_def drain w3(1) drained c4(1) dist w5(1))
  moreover have "same_session (co_processor c5) (wk_processor w5)"
    using assms(3) w3(3) w5(3) c4(4) by (simp add: c5_def same_session_def)
  ultimately show ?thesis using that [of c5 w5] w5(2) c4(3) by (simp add: c5_def)
qed

text \<open>C19. A promotion between two paired nodes succeeds: when both controls are in phase
  \<open>Paired\<close> of the same session, hear each other until \<open>until\<close>, and the five request
  identifiers are fresh, the whole exchange delivered in order within that time is accepted
  at every step and leaves both sides in \<open>WorkerReady\<close>, with the coordinator knowing the
  generation of the worker's child.\<close>

theorem promotion_exchange_succeeds:
  assumes "co_phase c = Paired" "wk_phase w = Paired" "same_session (co_processor c) (wk_processor w)"
    and "open_to (wk_processor w) co_auth {r 1, r 3, r 5} (t 1) until"
    and "open_to (co_processor c) wk_auth {r 2, r 4} (t 1) until"
    and "distinct [r 1, r 3, r 5]" "r 2 \<noteq> r 4"
    and "sorted [t 1, t 2, t 3, t 4, t 5, until]"
  shows "\<exists>c' w'. promotion_exchange co_auth wk_auth r t child c w = Inr (c', w')
    \<and> co_phase c' = WorkerReady \<and> wk_phase w' = WorkerReady
    \<and> co_peer_child_generation c' = Some child
    \<and> same_session (co_processor c') (wk_processor w')"
proof -
  obtain c1 w1 where 1: "prepare_exchange co_auth wk_auth r t child c w = Inr (c1, w1)"
    "co_phase c1 = WorkerReady" "wk_phase w1 = WorkerReady" "co_peer_child_generation c1 = Some child"
    "same_session (co_processor c1) (wk_processor w1)"
    "open_to (wk_processor w1) co_auth {r 3, r 5} (t 1) until" "open_to (co_processor c1) wk_auth {r 4} (t 1) until"
    by (rule prepare_exchange_succeeds [where r = r and t = t, OF assms(1-4) _ assms(5)]) (use assms(6-8) in auto)
  obtain c2 w2 where 2: "drain_exchange co_auth wk_auth r t c1 w1 = Inr (c2, w2)"
    "co_phase c2 = WorkerReady" "wk_phase w2 = WorkerReady"
    "co_peer_child_generation c2 = co_peer_child_generation c1"
    "same_session (co_processor c2) (wk_processor w2)"
    by (rule drain_exchange_succeeds [where r = r and t = t, OF 1(2,3,5,6) _ 1(7)]) (use assms(6,8) in auto)
  from 1(1,4) 2 show ?thesis by (simp add: promotion_exchange_def)
qed

text \<open>Two sample nodes that have exchanged \<open>Pair\<close> in generation 3.\<close>

definition sample_lease :: "string \<Rightarrow> control_role \<Rightarrow> peer_lease" where
  "sample_lease node role =
     \<lparr>pl_lease_millis = 30000, pl_required_stability = 5000, pl_generation = Some 3,
      pl_descriptor = Some (sample_node role node 3), pl_first_authenticated = Some 1000,
      pl_expires_at = Some 31000, pl_route_scoped = True\<rparr>"

definition sample_coordinator :: "control_phase \<Rightarrow> coordinator_control" where
  "sample_coordinator phase =
     \<lparr>co_processor = \<lparr>cp_local = sample_node RoleCoordinator ''c'' 3, cp_expected_peer_role = RoleWorker,
        cp_lease = sample_lease ''w'' RoleWorker, cp_processed = Map.empty\<rparr>,
      co_phase = phase, co_peer_child_generation = None\<rparr>"

definition sample_worker :: "control_phase \<Rightarrow> worker_control" where
  "sample_worker phase =
     \<lparr>wk_processor = \<lparr>cp_local = sample_node RoleWorker ''w'' 3, cp_expected_peer_role = RoleCoordinator,
        cp_lease = sample_lease ''c'' RoleCoordinator, cp_processed = Map.empty\<rparr>,
      wk_phase = phase\<rparr>"

lemmas sample_defs = sample_coordinator_def sample_worker_def sample_lease_def sample_node_def
  sample_peer_def

theorem promotion_exchange_succeeds_witness:
  "\<exists>c' w'. promotion_exchange (sample_peer ''c'') (sample_peer ''w'') (\<lambda>i. [char_of (64 + i)])
      (\<lambda>i. 7000 + of_nat i) 42 (sample_coordinator Paired) (sample_worker Paired) = Inr (c', w')
    \<and> co_phase c' = WorkerReady \<and> wk_phase w' = WorkerReady
    \<and> co_peer_child_generation c' = Some 42
    \<and> same_session (co_processor c') (wk_processor w')"
  by (rule promotion_exchange_succeeds [where until = 9000])
    (simp_all add: sample_defs same_session_def open_to_def hears_def matches_peer_def generation_def
      sat_add_def)

section \<open>Pair during an active session\<close>

definition active_phase :: "control_phase \<Rightarrow> bool" where
  "active_phase ph \<longleftrightarrow> ph \<in> {WorkerPreparing, WorkerReady, Draining, Drained}"

lemma invalid_keeps_processor:
  assumes "handle_current validate p msg auth route now = (r, p')"
    and "validate (msg_command msg) = Some e"
  shows "cp_local p' = cp_local p \<and> cp_processed p' = cp_processed p
    \<and> (\<forall>r'. r = Inr r' \<longrightarrow> rsp_status r' = Duplicate)"
  using assms(1)
proof (cases rule: handle_current_cases)
  case duplicate
  then show ?thesis by (simp add: renew_processor_snd response_def split: option.splits)
qed (use assms(2) in simp_all)

lemma old_pair_invalid:
  assumes "handle_validated validate p ep msg auth route now = (r, p')"
    and "validate (msg_command msg) = Some e" "msg_generation msg \<le> generation p"
  shows "cp_local p' = cp_local p \<and> cp_processed p' = cp_processed p
    \<and> (\<forall>r'. r = Inr r' \<longrightarrow> rsp_status r' = Duplicate)"
proof -
  have adopt: "adopt_generation p msg = p" using assms(3) by (auto simp: adopt_generation_def)
  from assms(1) show ?thesis
  proof (cases rule: handle_validated_cases)
    case (rejected e)
    with adopt show ?thesis by auto
  next
    case current
    from invalid_keeps_processor [OF current(2) assms(2)] adopt show ?thesis by simp
  qed
qed

text \<open>A delayed \<open>Pair\<close> cannot reset a running promotion: while the worker is
  preparing, ready, draining or drained and its peer is present, a \<open>Pair\<close> of the current
  or an earlier generation leaves the phase, the session and the registry of handled
  requests as they are, and is at most answered as a duplicate.\<close>

lemma delayed_pair_keeps_session:
  assumes "active_phase (wk_phase w)" "peer_present (cp_lease (wk_processor w)) now"
    and "is_pair (msg_command msg)" "msg_generation msg \<le> generation (wk_processor w)"
    and "worker_handle w ep msg auth route now = (r, w')"
  shows "wk_phase w' = wk_phase w \<and> cp_local (wk_processor w') = cp_local (wk_processor w)
    \<and> cp_processed (wk_processor w') = cp_processed (wk_processor w)
    \<and> (\<forall>r'. r = Inr r' \<longrightarrow> rsp_status r' = Duplicate)"
proof -
  let ?v = "validate_worker_command (wk_phase w) (peer_present (cp_lease (wk_processor w)) now)"
  obtain s p' where h: "handle_validated ?v (wk_processor w) ep msg auth route now = (s, p')" by fastforce
  have "?v (msg_command msg) = Some (InvalidPhase (wk_phase w))"
    using assms(1-3)
    by (auto simp: validate_worker_command_def worker_valid_def is_pair_def active_phase_def
        split: control_command.splits)
  from old_pair_invalid [OF h this assms(4)] have
    p': "cp_local p' = cp_local (wk_processor w)" "cp_processed p' = cp_processed (wk_processor w)"
    "\<forall>r'. s = Inr r' \<longrightarrow> rsp_status r' = Duplicate" by simp_all
  have "worker_accepts (msg_command msg)"
    using assms(3) by (simp add: is_pair_def split: control_command.splits)
  with h assms(5) p' show ?thesis
    by (cases s) (auto simp: worker_handle_def)
qed

text \<open>A refused \<open>Pair\<close> of a later generation still ends the session: the worker
  answers \<open>InvalidPhase\<close> and keeps its phase, but it has already adopted the later
  generation and forgotten the handled requests, and it refuses every further command of
  the session it is still in.\<close>

lemma refused_pair_ends_session:
  assumes "active_phase (wk_phase w)" "peer_present (cp_lease (wk_processor w)) now"
    and "msg_command pair = CmdPair d" "msg_generation pair > generation (wk_processor w)"
    and "msg_request_id pair \<noteq> []" "length (msg_request_id pair) \<le> 128"
    and "worker_handle w EpPair pair auth route now = (r, w')"
    and "msg_generation msg = generation (wk_processor w)" "worker_accepts (msg_command msg)"
    and "msg_request_id msg \<noteq> []" "length (msg_request_id msg) \<le> 128"
  shows "r = Inl (InvalidPhase (wk_phase w)) \<and> wk_phase w' = wk_phase w
    \<and> cp_processed (wk_processor w') = Map.empty
    \<and> fst (worker_handle w' (endpoint (msg_command msg)) msg auth' route' now')
      = Inl (GenerationMismatch (msg_generation pair) (generation (wk_processor w)))"
proof -
  let ?p = "advance_generation (wk_processor w) (msg_generation pair)"
  let ?v = "validate_worker_command (wk_phase w) (peer_present (cp_lease (wk_processor w)) now)"
  have v: "?v (CmdPair d) = Some (InvalidPhase (wk_phase w))"
    using assms(1,2) by (auto simp: validate_worker_command_def worker_valid_def active_phase_def)
  have "handle_validated ?v (wk_processor w) EpPair pair auth route now = (Inl (InvalidPhase (wk_phase w)), ?p)"
    using assms(3-6) v
    by (simp add: handle_validated_def adopt_generation_def is_pair_def requires_matching_deployment_def
        handle_current_def Let_def)
  then have w': "r = Inl (InvalidPhase (wk_phase w))" "w' = w\<lparr>wk_processor := ?p\<rparr>"
    using assms(3,7) by (simp_all add: worker_handle_def Let_def)
  have "adopt_generation ?p msg = ?p" "generation ?p \<noteq> msg_generation msg"
    using assms(4,8) by (auto simp: adopt_generation_def)
  with w' assms(4,8-11) show ?thesis
    by (simp add: worker_handle_def handle_validated_def Let_def)
qed

section \<open>The tensor-parallel worker is connected only when observed\<close>

definition tp_worker_run :: "tp_worker_op list \<Rightarrow> tp_worker_tracker" where
  "tp_worker_run ops = foldl tp_worker_step tp_worker_new ops"

lemma tp_worker_run_simps:
  "tp_worker_run [] = tp_worker_new"
  "tp_worker_run (ops @ [op]) = tp_worker_step (tp_worker_run ops) op"
  by (simp_all add: tp_worker_run_def)

lemmas tp_worker_defs = note_prepared_def note_connected_def note_failed_def cancel_worker_def

lemma tp_worker_cancelled_iff: "tw_cancelled (tp_worker_run ops) \<longleftrightarrow> CancelWorker \<in> set ops"
proof (induction ops rule: rev_induct)
  case Nil
  then show ?case by (simp add: tp_worker_run_simps tp_worker_new_def)
next
  case (snoc op ops)
  then show ?case by (cases op) (auto simp: tp_worker_run_simps tp_worker_defs Let_def)
qed

text \<open>A run that prepared generation \<open>g\<close> last: \<open>ys\<close> is what followed, with no new
  preparation and no failure.\<close>

definition prepared_since :: "tp_worker_op list \<Rightarrow> u64 \<Rightarrow> tp_worker_op list \<Rightarrow> bool" where
  "prepared_since ops g ys \<longleftrightarrow>
     (\<exists>xs. ops = xs @ NotePrepared g # ys \<and> CancelWorker \<notin> set xs)
     \<and> NoteFailed \<notin> set ys \<and> (\<forall>h. NotePrepared h \<notin> set ys)"

lemma prepared_since_extend:
  "prepared_since ops g ys \<Longrightarrow> op \<noteq> NoteFailed \<Longrightarrow> \<forall>h. op \<noteq> NotePrepared h \<Longrightarrow>
   prepared_since (ops @ [op]) g (ys @ [op])"
  by (fastforce simp: prepared_since_def)

lemma tp_worker_run_prepared:
  shows "tw_phase (tp_worker_run ops) = TwPrepared \<Longrightarrow>
      \<exists>ys. prepared_since ops (tw_generation (tp_worker_run ops)) ys" (is "?A ops \<Longrightarrow> ?P ops")
    and "tw_phase (tp_worker_run ops) = TwConnected \<Longrightarrow>
      \<exists>ys. prepared_since ops (tw_generation (tp_worker_run ops)) ys
        \<and> NoteConnected (tw_generation (tp_worker_run ops)) \<in> set ys" (is "?B ops \<Longrightarrow> ?C ops")
proof (induction ops rule: rev_induct)
  case Nil
  { case 1 then show ?case by (simp add: tp_worker_run_simps tp_worker_new_def) }
  { case 2 then show ?case by (simp add: tp_worker_run_simps tp_worker_new_def) }
next
  case (snoc op ops)
  let ?t = "tp_worker_run ops"
  have prepared: "?P (ops @ [op])" if "op = NotePrepared g" "\<not> tw_cancelled ?t" for g
    using that by (auto simp: tp_worker_run_simps note_prepared_def prepared_since_def tp_worker_cancelled_iff)
  have keep: "prepared_since ops g ys \<Longrightarrow> prepared_since (ops @ [op]) g (ys @ [op])"
    if "op = NoteConnected h \<or> op = CancelWorker" for g ys h
    using prepared_since_extend [of ops g ys op] that by auto
  { case 1
    then consider g where "op = NotePrepared g" "\<not> tw_cancelled ?t"
      | h where "op = NoteConnected h" "tp_worker_run (ops @ [op]) = ?t" "?A ops"
      by (cases op) (auto simp: tp_worker_run_simps tp_worker_defs Let_def split: if_splits)
    then show ?case
    proof cases
      case 1
      then show ?thesis by (rule prepared)
    next
      case (2 h)
      from snoc.IH(1) [OF 2(3)] obtain ys where "prepared_since ops (tw_generation ?t) ys" by blast
      from keep [OF _ this, of h] 2(1,2) show ?thesis by auto
    qed }
  { case 2
    then consider h where "op = NoteConnected h" "?A ops" "h = tw_generation ?t"
      | h where "op = NoteConnected h \<or> op = CancelWorker" "?B ops"
      by (cases op) (auto simp: tp_worker_run_simps tp_worker_defs Let_def split: if_splits)
    moreover have gen: "tw_generation (tp_worker_run (ops @ [op])) = tw_generation ?t"
      if "op = NoteConnected h \<or> op = CancelWorker" for h
      using that by (auto simp: tp_worker_run_simps tp_worker_defs Let_def)
    ultimately show ?case
    proof cases
      case (1 h)
      from snoc.IH(1) [OF 1(2)] obtain ys where "prepared_since ops (tw_generation ?t) ys" by blast
      from keep [OF _ this, of h] gen [of h] 1(1,3) show ?thesis by (intro exI [of _ "ys @ [op]"]) auto
    next
      case (2 h)
      from snoc.IH(2) [OF 2(2)] obtain ys where "prepared_since ops (tw_generation ?t) ys"
        "NoteConnected (tw_generation ?t) \<in> set ys" by blast
      with keep [OF 2(1) this(1)] gen [OF 2(1)] show ?thesis by (intro exI [of _ "ys @ [op]"]) auto
    qed }
qed

text \<open>The tensor-parallel worker counts as connected only by observation: after any
  sequence of reports, phase \<open>Connected\<close> means that some generation was prepared without
  a cancellation before it, that the connection was then observed for that very generation,
  and that neither a failure nor a new preparation came after. Observations of another
  generation, or made before the preparation, never connect.\<close>

lemma tp_worker_connected_only_observed:
  assumes "tw_phase (tp_worker_run ops) = TwConnected"
  shows "\<exists>g ys. prepared_since ops g ys \<and> NoteConnected g \<in> set ys"
  using tp_worker_run_prepared(2) [OF assms] by blast

end
