(* ===== verification/Recovery_Service.thy ===== *)
theory Recovery_Service
  imports Proxy_Target Complex_Main
begin

text \<open>
  Degradation detection and the recovery service of \<open>src/recovery.rs\<close>: the one-shot
  detector of low throughput, stalls and first-token timeouts, and the service that admits
  at most one recovery job, with its cooldown, attempt limit and bounded history. Clocks
  are arguments, as in \<open>observe_at\<close> and \<open>begin_at\<close>; the identifier of a new job,
  which the code draws from the crate \<open>uuid\<close>, is an argument too. A throughput sample is
  a finite value or one of the non-finite values of \<open>f64\<close>.
\<close>

section \<open>The detector\<close>

datatype canary_reason = Healthy | Deadline | HttpError | CrLowDecodeTps | CrProgressStall

datatype recovery_trigger = ManualCanaryFailure | ProgressStall | LowDecodeTps | FirstTokenTimeout

datatype f64 = Finite rat | NonFinite

record active_observation =
  ao_first_progress_observed :: bool
  ao_active_age :: u64
  ao_progress_age :: "u64 option"
  ao_chunk_tps :: "f64 option"

datatype recovery_observation = Idle | Active active_observation

record detector_policy =
  dp_low_decode_tps :: rat
  dp_low_decode_duration :: u64
  dp_progress_stall :: u64
  dp_first_token_timeout :: u64

definition default_detector_policy :: detector_policy where
  "default_detector_policy =
     \<lparr>dp_low_decode_tps = 5, dp_low_decode_duration = 30000, dp_progress_stall = 60000,
      dp_first_token_timeout = 30000\<rparr>"

record recovery_detector =
  de_policy :: detector_policy
  de_low_tps_since :: "u64 option"
  de_incident_active :: bool
  de_last_observed :: u64

definition detector_new :: "detector_policy \<Rightarrow> recovery_detector option" where
  "detector_new p =
     (if dp_low_decode_tps p < 0 \<or> dp_low_decode_duration p = 0 \<or> dp_progress_stall p = 0
        \<or> dp_first_token_timeout p = 0
      then None
      else Some \<lparr>de_policy = p, de_low_tps_since = None, de_incident_active = False, de_last_observed = 0\<rparr>)"

definition emit_once ::
  "recovery_detector \<Rightarrow> recovery_trigger \<Rightarrow> recovery_trigger option \<times> recovery_detector" where
  "emit_once d t =
     (if de_incident_active d then (None, d) else (Some t, d\<lparr>de_incident_active := True\<rparr>))"

definition reset_incident :: "recovery_detector \<Rightarrow> recovery_detector" where
  "reset_incident d = d\<lparr>de_low_tps_since := None, de_incident_active := False\<rparr>"

definition is_stalled :: "detector_policy \<Rightarrow> active_observation \<Rightarrow> bool" where
  "is_stalled p ob = is_some_and (\<lambda>age. age \<ge> dp_progress_stall p) (ao_progress_age ob)"

definition is_low_tps :: "detector_policy \<Rightarrow> active_observation \<Rightarrow> bool" where
  "is_low_tps p ob =
     is_some_and (\<lambda>tps. case tps of
        NonFinite \<Rightarrow> False | Finite v \<Rightarrow> 0 \<le> v \<and> v < dp_low_decode_tps p) (ao_chunk_tps ob)"

definition observe_at ::
  "recovery_detector \<Rightarrow> u64 \<Rightarrow> recovery_observation \<Rightarrow> recovery_trigger option \<times> recovery_detector" where
  "observe_at d now0 ob =
     (let now = max now0 (de_last_observed d);
          d = d\<lparr>de_last_observed := now\<rparr>;
          p = de_policy d
      in case ob of
           Idle \<Rightarrow> (None, reset_incident d)
         | Active a \<Rightarrow>
             if \<not> ao_first_progress_observed a then
               (let d = d\<lparr>de_low_tps_since := None\<rparr>
                in if ao_active_age a \<ge> dp_first_token_timeout p then emit_once d FirstTokenTimeout
                   else (None, d))
             else if is_stalled p a then emit_once d ProgressStall
             else if is_low_tps p a then
               (let since = (case de_low_tps_since d of Some s \<Rightarrow> s | None \<Rightarrow> now);
                    d = d\<lparr>de_low_tps_since := Some since\<rparr>
                in if sat_sub now since \<ge> dp_low_decode_duration p then emit_once d LowDecodeTps
                   else (None, d))
             else (None, d\<lparr>de_low_tps_since := None\<rparr>))"

definition observe_canary_at ::
  "recovery_detector \<Rightarrow> u64 \<Rightarrow> canary_reason \<Rightarrow> recovery_trigger option \<times> recovery_detector" where
  "observe_canary_at d now0 reason =
     (let now = max now0 (de_last_observed d);
          d = d\<lparr>de_last_observed := now\<rparr>
      in case reason of
           Healthy \<Rightarrow> (None, reset_incident d)
         | Deadline \<Rightarrow> emit_once d FirstTokenTimeout
         | CrLowDecodeTps \<Rightarrow> emit_once d LowDecodeTps
         | CrProgressStall \<Rightarrow> emit_once d ProgressStall
         | HttpError \<Rightarrow> emit_once d ManualCanaryFailure)"

datatype detector_input = Observe u64 recovery_observation | Canary u64 canary_reason

fun input_time :: "detector_input \<Rightarrow> u64" where
  "input_time (Observe t _) = t"
| "input_time (Canary t _) = t"

fun detector_step :: "recovery_detector \<Rightarrow> detector_input \<Rightarrow> recovery_trigger option \<times> recovery_detector" where
  "detector_step d (Observe t ob) = observe_at d t ob"
| "detector_step d (Canary t r) = observe_canary_at d t r"

definition detector_run :: "recovery_detector \<Rightarrow> detector_input list \<Rightarrow> recovery_detector" where
  "detector_run d is = foldl (\<lambda>d i. snd (detector_step d i)) d is"

fun triggers :: "recovery_detector \<Rightarrow> detector_input list \<Rightarrow> recovery_trigger option list" where
  "triggers d [] = []"
| "triggers d (i # is) = fst (detector_step d i) # triggers (snd (detector_step d i)) is"

definition resets :: "detector_input \<Rightarrow> bool" where
  "resets i = (case i of Observe _ ob \<Rightarrow> ob = Idle | Canary _ r \<Rightarrow> r = Healthy)"

definition low_sample :: "detector_policy \<Rightarrow> detector_input \<Rightarrow> bool" where
  "low_sample p i =
     (case i of
        Observe _ (Active a) \<Rightarrow> ao_first_progress_observed a \<and> \<not> is_stalled p a \<and> is_low_tps p a
      | _ \<Rightarrow> False)"

section \<open>The recovery service\<close>

datatype recovery_reason = ThroughputDegraded

datatype recovery_state = RsRunning | RsSucceeded | RsFailed | RsSuppressed

datatype recovery_phase =
  RpAccepted | RpSnapshot | RpAdmissionBlocked | RpDraining | RpDemoting | RpPairedStandalone
| RpPromoting | RpPostRecoveryCanary | RpServing | RpCompleted | RpFailed | RpSuppressed

datatype recovery_failure_reason =
  NotCoordinator | NotDistributedReady | Cooldown | AttemptLimit | SnapshotWrite | UnknownRecoveryId
| RecoveryOwnerBusy | RfDrainTimeout | DemotionFailed | PromotionFailed | ChildIdentityMismatch
| PeerLoss | CanaryFailed

record recovery_gate =
  rg_role :: local_role
  rg_mode :: stable_mode
  rg_state :: cluster_state
  rg_generation :: u64

record recovery_request =
  rq_reason :: recovery_reason
  rq_trigger :: recovery_trigger
  rq_idempotency_key :: string

text \<open>\<open>char::is_control\<close> on UTF-8 bytes: the ASCII controls, and U+0080 to U+009F.\<close>

fun has_control :: "string \<Rightarrow> bool" where
  "has_control [] = False"
| "has_control (c # cs) =
     (let n = (of_char c :: nat)
      in n < 32 \<or> n = 127
         \<or> n = 194 \<and> (case cs of [] \<Rightarrow> False | b # _ \<Rightarrow> 128 \<le> (of_char b :: nat) \<and> (of_char b :: nat) \<le> 159)
         \<or> has_control cs)"

definition recovery_request_new ::
  "recovery_reason \<Rightarrow> recovery_trigger \<Rightarrow> string \<Rightarrow> recovery_request option" where
  "recovery_request_new reason trigger key =
     (if key \<noteq> [] \<and> length key \<le> 128 \<and> \<not> has_control key
      then Some \<lparr>rq_reason = reason, rq_trigger = trigger, rq_idempotency_key = key\<rparr>
      else None)"

record recovery_policy =
  rp_history_limit :: nat
  rp_cooldown :: u64
  rp_window :: u64
  rp_max_attempts :: nat

definition default_recovery_policy :: recovery_policy where
  "default_recovery_policy =
     \<lparr>rp_history_limit = 32, rp_cooldown = 60 * 60 * 1000, rp_window = 12 * 60 * 60 * 1000,
      rp_max_attempts = 2\<rparr>"

record recovery_job =
  rj_id :: string
  rj_state :: recovery_state
  rj_phase :: recovery_phase
  rj_reason :: recovery_reason
  rj_trigger :: recovery_trigger
  rj_started_at :: u64
  rj_finished_at :: "u64 option"
  rj_cluster_generation :: u64
  rj_new_cluster_generation :: "u64 option"
  rj_idempotency_key :: string
  rj_failure_reason :: "recovery_failure_reason option"
  rj_snapshot_path :: "string option"
  rj_post_recovery_canary :: "canary_reason option"
  rj_admission :: "string option"

datatype recovery_start = Created recovery_job | Existing recovery_job | Suppressed recovery_job

record recovery_service =
  sv_policy :: recovery_policy
  sv_active :: "recovery_job option"
  sv_history :: "recovery_job list"

definition recovery_with_policy :: "recovery_policy \<Rightarrow> recovery_service" where
  "recovery_with_policy p =
     \<lparr>sv_policy = p\<lparr>rp_history_limit := max (rp_history_limit p) 1\<rparr>, sv_active = None, sv_history = []\<rparr>"

definition gate_failure :: "recovery_gate \<Rightarrow> recovery_failure_reason option" where
  "gate_failure g =
     (if rg_role g \<noteq> Coordinator then Some NotCoordinator
      else if rg_mode g \<noteq> DistributedLayerParallel \<or> rg_state g \<noteq> DistributedReady
      then Some NotDistributedReady
      else None)"

definition attempted :: "recovery_job \<Rightarrow> bool" where
  "attempted j \<longleftrightarrow> rj_state j \<in> {RsSucceeded, RsFailed}"

fun max_option :: "'a::linorder list \<Rightarrow> 'a option" where
  "max_option [] = None"
| "max_option (x # xs) = (case max_option xs of None \<Rightarrow> Some x | Some m \<Rightarrow> Some (max x m))"

definition in_cooldown :: "recovery_service \<Rightarrow> u64 \<Rightarrow> bool" where
  "in_cooldown s now =
     is_some_and (\<lambda>finished. now < sat_add finished (rp_cooldown (sv_policy s)))
       (max_option (List.map_filter rj_finished_at (filter attempted (sv_history s))))"

definition attempts_in_window :: "recovery_service \<Rightarrow> u64 \<Rightarrow> nat" where
  "attempts_in_window s now =
     length (filter (\<lambda>j. sat_sub now (rj_started_at j) \<le> rp_window (sv_policy s))
       (filter attempted (sv_history s)))"

definition new_job ::
  "string \<Rightarrow> recovery_gate \<Rightarrow> recovery_request \<Rightarrow> u64 \<Rightarrow> recovery_state \<Rightarrow> recovery_phase \<Rightarrow> recovery_job" where
  "new_job rid g r started st ph =
     \<lparr>rj_id = rid, rj_state = st, rj_phase = ph, rj_reason = rq_reason r, rj_trigger = rq_trigger r,
      rj_started_at = started, rj_finished_at = None, rj_cluster_generation = rg_generation g,
      rj_new_cluster_generation = None, rj_idempotency_key = rq_idempotency_key r,
      rj_failure_reason = None, rj_snapshot_path = None, rj_post_recovery_canary = None,
      rj_admission = None\<rparr>"

definition with_failure :: "recovery_job \<Rightarrow> recovery_failure_reason \<Rightarrow> u64 \<Rightarrow> recovery_job" where
  "with_failure j f finished =
     (let st = (if f \<in> {NotCoordinator, NotDistributedReady, Cooldown, AttemptLimit, UnknownRecoveryId}
                then RsSuppressed else RsFailed)
      in j\<lparr>rj_state := st, rj_phase := (if st = RsFailed then RpFailed else RpSuppressed),
           rj_failure_reason := Some f, rj_finished_at := Some finished\<rparr>)"

text \<open>\<open>while history.len() > limit { history.pop_front() }\<close>\<close>

fun trim_front :: "nat \<Rightarrow> 'a list \<Rightarrow> 'a list" where
  "trim_front n [] = []"
| "trim_front n (x # xs) = (if Suc (length xs) > n then trim_front n xs else x # xs)"

definition push_history :: "recovery_service \<Rightarrow> recovery_job \<Rightarrow> recovery_service" where
  "push_history s j =
     s\<lparr>sv_history := trim_front (rp_history_limit (sv_policy s)) (sv_history s @ [j])\<rparr>"

definition suppress ::
  "recovery_service \<Rightarrow> string \<Rightarrow> recovery_gate \<Rightarrow> recovery_request \<Rightarrow> u64 \<Rightarrow> recovery_failure_reason \<Rightarrow>
   recovery_start \<times> recovery_service" where
  "suppress s rid g r now f =
     (let j = with_failure (new_job rid g r now RsSuppressed RpSuppressed) f now
      in (Suppressed j, push_history s j))"

definition begin_at ::
  "recovery_service \<Rightarrow> string \<Rightarrow> recovery_gate \<Rightarrow> recovery_request \<Rightarrow> u64 \<Rightarrow>
   recovery_start \<times> recovery_service" where
  "begin_at s rid g r now =
     (case sv_active s of
        Some j \<Rightarrow> (Existing j, s)
      | None \<Rightarrow>
          case find (\<lambda>j. rj_idempotency_key j = rq_idempotency_key r) (rev (sv_history s)) of
            Some j \<Rightarrow> (Existing j, s)
          | None \<Rightarrow>
              case gate_failure g of
                Some f \<Rightarrow> suppress s rid g r now f
              | None \<Rightarrow>
                  if in_cooldown s now then suppress s rid g r now Cooldown
                  else if attempts_in_window s now \<ge> rp_max_attempts (sv_policy s)
                  then suppress s rid g r now AttemptLimit
                  else let j = new_job rid g r now RsRunning RpSnapshot
                       in (Created j, s\<lparr>sv_active := Some j\<rparr>))"

text \<open>The updates of the running job share the check of its identifier.\<close>

definition update_active ::
  "recovery_service \<Rightarrow> string \<Rightarrow> (recovery_job \<Rightarrow> recovery_job) \<Rightarrow> recovery_job option \<times> recovery_service" where
  "update_active s rid f =
     (case sv_active s of
        None \<Rightarrow> (None, s)
      | Some j \<Rightarrow> if rj_id j \<noteq> rid then (None, s) else (Some (f j), s\<lparr>sv_active := Some (f j)\<rparr>))"

definition mark_snapshot_succeeded ::
  "recovery_service \<Rightarrow> string \<Rightarrow> string \<Rightarrow> recovery_job option \<times> recovery_service" where
  "mark_snapshot_succeeded s rid path = update_active s rid (\<lambda>j. j\<lparr>rj_snapshot_path := Some path\<rparr>)"

definition mark_phase ::
  "recovery_service \<Rightarrow> string \<Rightarrow> recovery_phase \<Rightarrow> string option \<Rightarrow> recovery_job option \<times> recovery_service" where
  "mark_phase s rid ph adm = update_active s rid (\<lambda>j. j\<lparr>rj_phase := ph, rj_admission := adm\<rparr>)"

definition mark_post_recovery_canary ::
  "recovery_service \<Rightarrow> string \<Rightarrow> canary_reason \<Rightarrow> recovery_job option \<times> recovery_service" where
  "mark_post_recovery_canary s rid c = update_active s rid (\<lambda>j. j\<lparr>rj_post_recovery_canary := Some c\<rparr>)"

text \<open>Ending the running job moves it to the history.\<close>

definition finish_active ::
  "recovery_service \<Rightarrow> string \<Rightarrow> (recovery_job \<Rightarrow> recovery_job) \<Rightarrow> recovery_job option \<times> recovery_service" where
  "finish_active s rid f =
     (case sv_active s of
        None \<Rightarrow> (None, s)
      | Some j \<Rightarrow> if rj_id j \<noteq> rid then (None, s)
                  else (Some (f j), push_history (s\<lparr>sv_active := None\<rparr>) (f j)))"

definition mark_snapshot_failed ::
  "recovery_service \<Rightarrow> string \<Rightarrow> recovery_failure_reason \<Rightarrow> u64 \<Rightarrow> recovery_job option \<times> recovery_service" where
  "mark_snapshot_failed s rid f finished = finish_active s rid (\<lambda>j. with_failure j f finished)"

definition terminal_job ::
  "recovery_job \<Rightarrow> u64 \<Rightarrow> recovery_state \<Rightarrow> recovery_phase \<Rightarrow> recovery_failure_reason option \<Rightarrow> u64 option \<Rightarrow>
   recovery_job" where
  "terminal_job j finished st ph f gen =
     j\<lparr>rj_state := st, rj_phase := ph, rj_finished_at := Some finished, rj_failure_reason := f,
       rj_new_cluster_generation := gen\<rparr>"

definition mark_succeeded ::
  "recovery_service \<Rightarrow> string \<Rightarrow> u64 \<Rightarrow> u64 \<Rightarrow> recovery_job option \<times> recovery_service" where
  "mark_succeeded s rid finished gen =
     finish_active s rid (\<lambda>j. terminal_job j finished RsSucceeded RpCompleted None (Some gen))"

definition mark_failed ::
  "recovery_service \<Rightarrow> string \<Rightarrow> u64 \<Rightarrow> recovery_failure_reason \<Rightarrow> recovery_job option \<times> recovery_service" where
  "mark_failed s rid finished f =
     finish_active s rid (\<lambda>j. terminal_job j finished RsFailed RpFailed (Some f) None)"

definition recovery_status :: "recovery_service \<Rightarrow> string \<Rightarrow> recovery_job option" where
  "recovery_status s rid =
     (case sv_active s of
        Some j \<Rightarrow> if rj_id j = rid then Some j else find (\<lambda>j. rj_id j = rid) (rev (sv_history s))
      | None \<Rightarrow> find (\<lambda>j. rj_id j = rid) (rev (sv_history s)))"

datatype service_op =
  SoBegin string recovery_gate recovery_request u64
| SoSnapshotSucceeded string string
| SoPhase string recovery_phase "string option"
| SoCanary string canary_reason
| SoSnapshotFailed string recovery_failure_reason u64
| SoSucceeded string u64 u64
| SoFailed string u64 recovery_failure_reason

fun service_step :: "recovery_service \<Rightarrow> service_op \<Rightarrow> recovery_service" where
  "service_step s (SoBegin rid g r now) = snd (begin_at s rid g r now)"
| "service_step s (SoSnapshotSucceeded rid path) = snd (mark_snapshot_succeeded s rid path)"
| "service_step s (SoPhase rid ph adm) = snd (mark_phase s rid ph adm)"
| "service_step s (SoCanary rid c) = snd (mark_post_recovery_canary s rid c)"
| "service_step s (SoSnapshotFailed rid f t) = snd (mark_snapshot_failed s rid f t)"
| "service_step s (SoSucceeded rid t gen) = snd (mark_succeeded s rid t gen)"
| "service_step s (SoFailed rid t f) = snd (mark_failed s rid t f)"

definition service_run :: "recovery_service \<Rightarrow> service_op list \<Rightarrow> recovery_service" where
  "service_run s ops = foldl service_step s ops"

section \<open>One trigger per incident\<close>

lemmas detector_defs = observe_at_def observe_canary_at_def emit_once_def reset_incident_def Let_def

lemma active_incident_is_silent:
  assumes "de_incident_active d" "\<not> resets i"
  shows "fst (detector_step d i) = None \<and> de_incident_active (snd (detector_step d i))"
  using assms
  by (cases i) (auto simp: detector_defs resets_def split: recovery_observation.splits canary_reason.splits)

lemma silent_until_reset:
  "de_incident_active d \<Longrightarrow> \<forall>i \<in> set is. \<not> resets i \<Longrightarrow> \<forall>t \<in> set (triggers d is). t = None"
  by (induction "is" arbitrary: d) (auto dest: active_incident_is_silent)

lemma trigger_opens_incident: "fst (detector_step d i) \<noteq> None \<Longrightarrow> de_incident_active (snd (detector_step d i))"
  by (cases i) (auto simp: detector_defs split: recovery_observation.splits canary_reason.splits if_splits)

lemma length_triggers [simp]: "length (triggers d is) = length is"
  by (induction "is" arbitrary: d) simp_all

lemma reset_is_silent: "resets i \<Longrightarrow> fst (detector_step d i) = None"
  by (cases i) (auto simp: detector_defs resets_def split: recovery_observation.splits canary_reason.splits)

lemma triggers_append: "triggers d (xs @ ys) = triggers d xs @ triggers (detector_run d xs) ys"
  by (induction xs arbitrary: d) (simp_all add: detector_run_def)

lemma detector_run_append: "detector_run d (xs @ ys) = detector_run (detector_run d xs) ys"
  by (simp add: detector_run_def)

text \<open>The detector fires once per incident: between two inputs that trigger a recovery
  there is an input that ends the incident, an idle observation or a healthy canary.\<close>

lemma detector_fires_once:
  assumes "fst (detector_step (detector_run d xs) i) \<noteq> None"
    and "fst (detector_step (detector_run d (xs @ i # ys)) j) \<noteq> None"
  shows "\<exists>k \<in> set ys. resets k"
proof (rule ccontr)
  assume no: "\<not> ?thesis"
  let ?d = "snd (detector_step (detector_run d xs) i)"
  have "\<not> resets j" using assms(2) reset_is_silent by metis
  with no silent_until_reset [OF trigger_opens_incident [OF assms(1)], of "ys @ [j]"]
  have "\<forall>t \<in> set (triggers ?d (ys @ [j])). t = None" by auto
  with assms(2) show False by (simp add: triggers_append detector_run_def)
qed

definition sample_low :: recovery_observation where
  "sample_low = Active \<lparr>ao_first_progress_observed = True, ao_active_age = 10000,
     ao_progress_age = Some 100, ao_chunk_tps = Some (Finite 4)\<rparr>"

definition sample_detector :: recovery_detector where
  "sample_detector = \<lparr>de_policy = default_detector_policy, de_low_tps_since = None,
     de_incident_active = False, de_last_observed = 0\<rparr>"

section \<open>Low throughput must be sustained\<close>

text \<open>The low samples that \<open>low_tps_since\<close> stands for.\<close>

definition low_since :: "detector_policy \<Rightarrow> detector_input list \<Rightarrow> u64 \<Rightarrow> bool" where
  "low_since p is s \<longleftrightarrow>
     (\<exists>xs y ys. is = xs @ y # ys \<and> input_time y = s \<and> list_all (low_sample p) (y # ys))"

lemma low_since_extend: "low_since p is s \<Longrightarrow> low_sample p i \<Longrightarrow> low_since p (is @ [i]) s"
  by (fastforce simp: low_since_def)

lemma detector_policy_step: "de_policy (snd (detector_step d i)) = de_policy d"
  by (cases i) (simp_all add: detector_defs split: recovery_observation.split canary_reason.split option.split)

lemma detector_time_step: "de_last_observed (snd (detector_step d i)) = max (input_time i) (de_last_observed d)"
  by (cases i) (simp_all add: detector_defs split: recovery_observation.split canary_reason.split option.split)

lemma detector_low_step:
  assumes "\<not> de_incident_active (snd (detector_step d i)) \<or> fst (detector_step d i) = Some LowDecodeTps"
    and "de_low_tps_since (snd (detector_step d i)) = Some s" "\<forall>t r. i \<noteq> Canary t r"
  shows "low_sample (de_policy d) i
    \<and> (case de_low_tps_since d of Some s' \<Rightarrow> s = s' | None \<Rightarrow> s = max (input_time i) (de_last_observed d))
    \<and> \<not> de_incident_active d
    \<and> (fst (detector_step d i) = Some LowDecodeTps \<longrightarrow>
         sat_sub (max (input_time i) (de_last_observed d)) s \<ge> dp_low_decode_duration (de_policy d))"
  using assms
  by (cases i) (auto simp: detector_defs low_sample_def
      split: recovery_observation.splits option.splits if_splits)

lemma canary_low_step:
  "\<not> de_incident_active (snd (detector_step d (Canary t r))) \<Longrightarrow>
   de_low_tps_since (snd (detector_step d (Canary t r))) = None"
  by (cases r) (auto simp: detector_defs split: if_splits)

definition fresh_detector :: "recovery_detector \<Rightarrow> bool" where
  "fresh_detector d \<longleftrightarrow> de_low_tps_since d = None \<and> \<not> de_incident_active d \<and> de_last_observed d = 0"

lemma run_policy: "de_policy (detector_run d is) = de_policy d"
  by (induction "is" rule: rev_induct) (simp_all add: detector_run_def detector_policy_step)

lemma run_time:
  assumes "fresh_detector d" "sorted (map input_time (is @ [i]))"
  shows "de_last_observed (detector_run d is) \<le> input_time i"
proof (cases "is" rule: rev_cases)
  case Nil
  with assms(1) show ?thesis by (simp add: detector_run_def fresh_detector_def)
next
  case (snoc xs x)
  have "de_last_observed (detector_run d xs) \<le> input_time i \<Longrightarrow>
    de_last_observed (detector_run d (xs @ [x])) \<le> input_time i"
    using assms(2) snoc by (simp add: detector_run_def detector_time_step sorted_append)
  moreover have "de_last_observed (detector_run d xs) \<le> input_time i" if "\<forall>y \<in> set xs. input_time y \<le> input_time i"
    using that assms(1)
    by (induction xs rule: rev_induct) (simp_all add: detector_run_def detector_time_step fresh_detector_def)
  ultimately show ?thesis using assms(2) snoc by (auto simp: sorted_append)
qed

lemma run_low_since:
  assumes "fresh_detector d" "sorted (map input_time is)"
    and "\<not> de_incident_active (detector_run d is)" "de_low_tps_since (detector_run d is) = Some s"
  shows "low_since (de_policy d) is s"
  using assms(2-4)
proof (induction "is" arbitrary: s rule: rev_induct)
  case Nil
  then show ?case using assms(1) by (simp add: detector_run_def fresh_detector_def)
next
  case (snoc i "is")
  let ?d = "detector_run d is"
  have run: "detector_run d (is @ [i]) = snd (detector_step ?d i)" by (simp add: detector_run_def)
  have nc: "\<forall>t r. i \<noteq> Canary t r"
    using snoc.prems(2,3) canary_low_step unfolding run by (metis option.distinct(1))
  have s: "de_low_tps_since (snd (detector_step ?d i)) = Some s" and
    a: "\<not> de_incident_active (snd (detector_step ?d i))"
    using snoc.prems(2,3) by (simp_all add: run)
  from detector_low_step [OF disjI1 [OF a] s nc] have low: "low_sample (de_policy d) i"
    and since: "case de_low_tps_since ?d of Some s' \<Rightarrow> s = s' | None \<Rightarrow> s = max (input_time i) (de_last_observed ?d)"
    and "\<not> de_incident_active ?d"
    by (simp_all add: run_policy)
  show ?case
  proof (cases "de_low_tps_since ?d")
    case None
    with since run_time [OF assms(1) snoc.prems(1)] have "s = input_time i" by (simp add: max_def)
    with low show ?thesis by (force simp: low_since_def)
  next
    case (Some s')
    with since snoc.IH [OF _ \<open>\<not> de_incident_active ?d\<close> Some] snoc.prems(1)
    have "low_since (de_policy d) is s" by (simp add: sorted_append)
    then show ?thesis using low by (rule low_since_extend)
  qed
qed

text \<open>A single slow sample never starts a recovery: when the detector, fed with a
  monotonic clock, fires for low throughput on an observation, then the observations that
  end with it were all low, unstalled samples of an active request, from a first one that
  is at least the configured duration older.\<close>

lemma low_throughput_sustained:
  assumes "fresh_detector d" "sorted (map input_time (is @ [Observe t ob]))"
    and "fst (detector_step (detector_run d is) (Observe t ob)) = Some LowDecodeTps"
  shows "\<exists>xs y ys. is @ [Observe t ob] = xs @ y # ys
    \<and> list_all (low_sample (de_policy d)) (y # ys)
    \<and> dp_low_decode_duration (de_policy d) \<le> sat_sub t (input_time y)"
proof -
  let ?d = "detector_run d is" and ?i = "Observe t ob"
  obtain s where s: "de_low_tps_since (snd (detector_step ?d ?i)) = Some s"
    using assms(3) by (auto simp: detector_defs split: recovery_observation.splits if_splits)
  have le: "de_last_observed ?d \<le> t" using run_time [OF assms(1,2)] by simp
  from detector_low_step [OF disjI2 [OF assms(3)] s] assms(3) le have low: "low_sample (de_policy d) ?i"
    and since: "case de_low_tps_since ?d of Some s' \<Rightarrow> s = s' | None \<Rightarrow> s = t"
    and quiet: "\<not> de_incident_active ?d"
    and dur: "dp_low_decode_duration (de_policy d) \<le> sat_sub t s"
    by (simp_all add: run_policy max_def split: option.splits)
  have "low_since (de_policy d) (is @ [?i]) s"
  proof (cases "de_low_tps_since ?d")
    case None
    with since low show ?thesis by (force simp: low_since_def)
  next
    case (Some s')
    with since run_low_since [OF assms(1) _ quiet Some] assms(2)
    have "low_since (de_policy d) is s" by (simp add: sorted_append)
    then show ?thesis using low by (rule low_since_extend)
  qed
  with dur show ?thesis by (auto simp: low_since_def)
qed

section \<open>The history and the cooldown\<close>

lemma trim_front_drop: "trim_front n xs = drop (length xs - n) xs"
  by (induction xs) (auto simp: Suc_diff_le)

lemma trim_front_append: "trim_front n (trim_front n xs @ ys) = trim_front n (xs @ ys)"
  by (cases "length xs \<le> n") (simp_all add: trim_front_drop add.commute)

lemma max_option_ge: "x \<in> set xs \<Longrightarrow> \<exists>m. max_option xs = Some m \<and> x \<le> m"
  by (induction xs) (auto split: option.splits simp: max.coboundedI1 max.coboundedI2)

definition service_wf :: "recovery_service \<Rightarrow> bool" where
  "service_wf s \<longleftrightarrow>
     1 \<le> rp_history_limit (sv_policy s) \<and> length (sv_history s) \<le> rp_history_limit (sv_policy s)
     \<and> is_none_or (\<lambda>j. rj_state j = RsRunning \<and> rj_finished_at j = None) (sv_active s)
     \<and> (\<forall>j \<in> set (sv_history s). rj_state j \<noteq> RsRunning \<and> rj_finished_at j \<noteq> None)"

lemmas service_defs = begin_at_def suppress_def update_active_def finish_active_def
  mark_snapshot_succeeded_def mark_phase_def mark_post_recovery_canary_def mark_snapshot_failed_def
  mark_succeeded_def mark_failed_def Let_def

lemma push_history_simps [simp]:
  "sv_policy (push_history s j) = sv_policy s" "sv_active (push_history s j) = sv_active s"
  "sv_history (push_history s j) = trim_front (rp_history_limit (sv_policy s)) (sv_history s @ [j])"
  by (simp_all add: push_history_def)

lemma push_history_wf:
  assumes "service_wf s" "rj_state j \<noteq> RsRunning" "rj_finished_at j \<noteq> None"
  shows "service_wf (push_history s j)"
  using assms by (auto simp: service_wf_def trim_front_drop dest: in_set_dropD)

lemma with_failure_ended: "rj_state (with_failure j f t) \<noteq> RsRunning" "rj_finished_at (with_failure j f t) = Some t"
  by (simp_all add: with_failure_def Let_def)

text \<open>An operation keeps the history or pushes one ended job.\<close>

lemma service_step_history:
  "sv_history (service_step s op) = sv_history s
   \<or> (\<exists>j. sv_history (service_step s op) = trim_front (rp_history_limit (sv_policy s)) (sv_history s @ [j]))"
  by (cases op) (auto simp: service_defs split: option.splits)

lemma service_step_policy [simp]: "sv_policy (service_step s op) = sv_policy s"
  by (cases op) (simp_all add: service_defs split: option.split)

lemma update_active_wf:
  assumes "service_wf s" "\<And>j. rj_state (f j) = rj_state j" "\<And>j. rj_finished_at (f j) = rj_finished_at j"
  shows "service_wf (snd (update_active s rid f))"
  using assms by (auto simp: update_active_def service_wf_def split: option.splits)

lemma finish_active_wf:
  assumes "service_wf s" "\<And>j. rj_state (f j) \<noteq> RsRunning" "\<And>j. rj_finished_at (f j) \<noteq> None"
  shows "service_wf (snd (finish_active s rid f))"
proof -
  have "service_wf (s\<lparr>sv_active := None\<rparr>)" using assms(1) by (simp add: service_wf_def)
  from push_history_wf [OF this assms(2,3)] assms(1) show ?thesis
    by (simp add: finish_active_def split: option.split)
qed

lemma begin_at_wf: "service_wf s \<Longrightarrow> service_wf (snd (begin_at s rid g r now))"
proof -
  assume wf: "service_wf s"
  then have "service_wf (snd (suppress s rid g r now f))" for f
    by (simp add: suppress_def Let_def push_history_wf with_failure_ended)
  moreover have "service_wf (s\<lparr>sv_active := Some (new_job rid g r now RsRunning RpSnapshot)\<rparr>)"
    using wf by (simp add: service_wf_def new_job_def)
  ultimately show ?thesis using wf by (simp add: begin_at_def Let_def split: option.split)
qed

lemma service_step_wf: "service_wf s \<Longrightarrow> service_wf (service_step s op)"
  by (cases op) (simp_all add: begin_at_wf mark_snapshot_succeeded_def mark_phase_def
      mark_post_recovery_canary_def mark_snapshot_failed_def mark_succeeded_def mark_failed_def
      terminal_job_def update_active_wf finish_active_wf with_failure_ended)

text \<open>The recovery service stays bounded and consistent: after any operations on a new
  service the history holds at most the configured number of jobs, every job in it has
  ended with a finishing time, and the active job, if there is one, is running.\<close>

lemma recovery_service_wf:
  "service_wf (service_run (recovery_with_policy p) ops)"
proof -
  have "service_wf s \<Longrightarrow> service_wf (service_run s ops)" for s
    by (induction ops arbitrary: s) (simp_all add: service_run_def service_step_wf)
  moreover have "service_wf (recovery_with_policy p)"
    by (simp add: service_wf_def recovery_with_policy_def)
  ultimately show ?thesis .
qed

definition remembered :: "nat \<Rightarrow> recovery_job \<Rightarrow> recovery_service \<Rightarrow> bool" where
  "remembered n j s \<longleftrightarrow>
     (\<exists>xs ys. sv_history s = xs @ j # ys \<and> length ys + n < rp_history_limit (sv_policy s))"

lemma remembered_step:
  assumes "remembered (Suc n) j s"
  shows "remembered n j (service_step s op)"
proof -
  obtain xs ys where h: "sv_history s = xs @ j # ys" "length ys + Suc n < rp_history_limit (sv_policy s)"
    using assms by (auto simp: remembered_def)
  have "\<exists>zs. trim_front (rp_history_limit (sv_policy s)) (sv_history s @ [k]) = zs @ j # ys @ [k]" for k
    using h by (simp add: trim_front_drop)
  with service_step_history [of s op] h show ?thesis
    by (fastforce simp: remembered_def)
qed

lemma remembered_run: "remembered (length ops) j s \<Longrightarrow> remembered 0 j (service_run s ops)"
  by (induction ops arbitrary: s) (simp_all add: service_run_def remembered_step)

lemma remembered_cooldown:
  assumes "remembered n j s" "attempted j" "rj_finished_at j = Some f"
    and "now < sat_add f (rp_cooldown (sv_policy s))"
  shows "in_cooldown s now"
proof -
  have "f \<in> set (List.map_filter rj_finished_at (filter attempted (sv_history s)))"
    using assms(1-3) by (auto simp: remembered_def List.map_filter_def intro!: image_eqI [of _ _ j])
  from max_option_ge [OF this] obtain m
    where m: "max_option (List.map_filter rj_finished_at (filter attempted (sv_history s))) = Some m" "f \<le> m"
    by blast
  from assms(4) sat_add_mono [OF m(2)] have "now < sat_add m (rp_cooldown (sv_policy s))"
    by (rule less_le_trans)
  with m show ?thesis by (simp add: in_cooldown_def)
qed

lemma service_run_policy [simp]: "sv_policy (service_run s ops) = sv_policy s"
  by (induction ops arbitrary: s) (simp_all add: service_run_def)

text \<open>The cooldown holds while the attempt is remembered: after a recovery that ended at
  \<open>f\<close>, and any further operations that are too few to push it out of the history, no
  request starts another recovery before the cooldown has passed.\<close>

lemma cooldown_respected:
  assumes "sv_history s = xs @ j # ys" "attempted j" "rj_finished_at j = Some f"
    and "length ys + length ops < rp_history_limit (sv_policy s)"
    and "now < sat_add f (rp_cooldown (sv_policy s))"
  shows "fst (begin_at (service_run s ops) rid g r now) \<noteq> Created k"
proof -
  have "remembered (length ops) j s" using assms(1,4) by (auto simp: remembered_def)
  from remembered_cooldown [OF remembered_run [OF this] assms(2,3)] assms(5)
  have "in_cooldown (service_run s ops) now" by simp
  then show ?thesis by (simp add: begin_at_def suppress_def Let_def split: option.split)
qed

definition sample_gate :: recovery_gate where
  "sample_gate = \<lparr>rg_role = Coordinator, rg_mode = DistributedLayerParallel,
     rg_state = DistributedReady, rg_generation = 1\<rparr>"

definition sample_request :: "string \<Rightarrow> recovery_request" where
  "sample_request key = \<lparr>rq_reason = ThroughputDegraded, rq_trigger = LowDecodeTps, rq_idempotency_key = key\<rparr>"

definition sample_attempt :: recovery_job where
  "sample_attempt = terminal_job (new_job ''id0'' sample_gate (sample_request ''k0'') 0 RsRunning RpSnapshot)
     1000 RsFailed RpFailed (Some CanaryFailed) None"

definition sample_service :: recovery_service where
  "sample_service = \<lparr>sv_policy = default_recovery_policy, sv_active = None, sv_history = [sample_attempt]\<rparr>"

lemmas service_samples = sample_gate_def sample_request_def sample_attempt_def sample_service_def
  default_recovery_policy_def new_job_def terminal_job_def

section \<open>Refused requests push attempts out of the history\<close>

text \<open>A burst of requests with one gate, each with an identifier, a request and a time.\<close>

definition burst :: "recovery_gate \<Rightarrow> (string \<times> recovery_request \<times> u64) list \<Rightarrow> service_op list" where
  "burst g xs = map (\<lambda>(rid, r, now). SoBegin rid g r now) xs"

definition is_created :: "recovery_start \<Rightarrow> bool" where
  "is_created st = (case st of Created _ \<Rightarrow> True | _ \<Rightarrow> False)"

fun some_created :: "recovery_service \<Rightarrow> recovery_gate \<Rightarrow> (string \<times> recovery_request \<times> u64) list \<Rightarrow> bool" where
  "some_created s g [] = False"
| "some_created s g ((rid, r, now) # xs) =
     (is_created (fst (begin_at s rid g r now)) \<or> some_created (snd (begin_at s rid g r now)) g xs)"

lemma some_created_snoc:
  "some_created s g (xs @ [(rid, r, now)]) =
   (some_created s g xs \<or> is_created (fst (begin_at (service_run s (burst g xs)) rid g r now)))"
  by (induction s g xs rule: some_created.induct) (simp_all add: service_run_def burst_def)

definition fresh_keys :: "recovery_service \<Rightarrow> (string \<times> recovery_request \<times> u64) list \<Rightarrow> bool" where
  "fresh_keys s xs \<longleftrightarrow>
     distinct (map (\<lambda>(_, r, _). rq_idempotency_key r) xs)
     \<and> (\<forall>(_, r, _) \<in> set xs. \<forall>j \<in> set (sv_history s). rj_idempotency_key j \<noteq> rq_idempotency_key r)"

lemma begin_fresh:
  assumes "sv_active s = None" "gate_failure g = None"
    and "\<forall>j \<in> set (sv_history s). rj_idempotency_key j \<noteq> rq_idempotency_key r"
    and "\<not> is_created (fst (begin_at s rid g r now))"
  obtains j where "\<not> attempted j" "rj_idempotency_key j = rq_idempotency_key r"
    "snd (begin_at s rid g r now) = push_history s j"
proof -
  have "find (\<lambda>j. rj_idempotency_key j = rq_idempotency_key r) (rev (sv_history s)) = None"
    using assms(3) by (auto simp: find_None_iff)
  then obtain f where "begin_at s rid g r now = suppress s rid g r now f" "f = Cooldown \<or> f = AttemptLimit"
    using assms(1,2,4) by (auto simp: begin_at_def is_created_def Let_def split: if_splits)
  then show ?thesis
    by (intro that [of "with_failure (new_job rid g r now RsSuppressed RpSuppressed) f now"])
      (auto simp: suppress_def Let_def with_failure_def new_job_def attempted_def)
qed

lemma burst_fills_history:
  assumes "sv_active s = None" "gate_failure g = None" "fresh_keys s xs"
    and "\<not> some_created s g xs"
  shows "\<exists>js. length js = length xs \<and> list_all (\<lambda>j. \<not> attempted j) js
    \<and> map rj_idempotency_key js = map (\<lambda>(_, r, _). rq_idempotency_key r) xs
    \<and> sv_active (service_run s (burst g xs)) = None
    \<and> sv_history (service_run s (burst g xs)) =
        (if xs = [] then sv_history s else trim_front (rp_history_limit (sv_policy s)) (sv_history s @ js))"
  using assms(3,4)
proof (induction xs rule: rev_induct)
  case Nil
  then show ?case using assms(1) by (simp add: service_run_def burst_def)
next
  case (snoc x xs)
  obtain rid r now where x: "x = (rid, r, now)" by (cases x)
  let ?t = "service_run s (burst g xs)"
  have prem: "fresh_keys s xs" "\<not> some_created s g xs" and
    last: "\<not> is_created (fst (begin_at ?t rid g r now))"
    using snoc.prems by (auto simp: fresh_keys_def some_created_snoc x)
  from snoc.IH [OF prem] obtain js where js: "length js = length xs" "list_all (\<lambda>j. \<not> attempted j) js"
    "map rj_idempotency_key js = map (\<lambda>(_, r, _). rq_idempotency_key r) xs" "sv_active ?t = None"
    "sv_history ?t = (if xs = [] then sv_history s else trim_front (rp_history_limit (sv_policy s)) (sv_history s @ js))"
    by blast
  have "set (sv_history ?t) \<subseteq> set (sv_history s) \<union> set js"
    using js(5) by (auto simp: trim_front_drop dest: in_set_dropD split: if_splits)
  moreover have "\<forall>j \<in> set js. rj_idempotency_key j \<noteq> rq_idempotency_key r"
  proof -
    have "rq_idempotency_key r \<notin> set (map rj_idempotency_key js)"
      unfolding js(3) using snoc.prems(1) by (simp add: fresh_keys_def x)
    then show ?thesis by (metis image_eqI list.set_map)
  qed
  moreover have "\<forall>j \<in> set (sv_history s). rj_idempotency_key j \<noteq> rq_idempotency_key r"
    using snoc.prems(1) by (simp add: fresh_keys_def x)
  ultimately have fresh: "\<forall>j \<in> set (sv_history ?t). rj_idempotency_key j \<noteq> rq_idempotency_key r"
    by blast
  from begin_fresh [OF js(4) assms(2) fresh last] obtain j where
    j: "\<not> attempted j" "rj_idempotency_key j = rq_idempotency_key r" "snd (begin_at ?t rid g r now) = push_history ?t j" .
  have run: "service_run s (burst g (xs @ [x])) = push_history ?t j"
    using j(3) by (simp add: service_run_def burst_def x)
  show ?case
  proof (intro exI [of _ "js @ [j]"] conjI)
    show "sv_history (service_run s (burst g (xs @ [x]))) = (if xs @ [x] = [] then sv_history s
        else trim_front (rp_history_limit (sv_policy s)) (sv_history s @ js @ [j]))"
      using js(1,5) trim_front_append [of "rp_history_limit (sv_policy s)" "sv_history s @ js" "[j]"]
      by (auto simp: run)
  qed (use js j run in \<open>simp_all add: x\<close>)
qed

text \<open>C22. Refused requests are kept in the same bounded history that the cooldown and the
  attempt limit are computed from. Whatever recoveries have just been attempted, among more
  requests with fresh keys than the history holds one is started, at any time: the refused
  ones push the attempts out, and cooldown and attempt limit no longer apply.\<close>

theorem burst_defeats_cooldown:
  assumes "sv_active s = None" "gate_failure g = None" "fresh_keys s xs"
    and "1 \<le> rp_history_limit (sv_policy s)" "1 \<le> rp_max_attempts (sv_policy s)"
    and "length xs = Suc (rp_history_limit (sv_policy s))"
  shows "some_created s g xs"
proof (rule ccontr)
  assume none: "\<not> ?thesis"
  obtain ys rid r now where xs: "xs = ys @ [(rid, r, now)]" "length ys = rp_history_limit (sv_policy s)"
    using assms(6) by (cases xs rule: rev_cases) auto
  have "fresh_keys s ys" "\<not> some_created s g ys" using assms(3) none xs by (auto simp: fresh_keys_def some_created_snoc)
  from burst_fills_history [OF assms(1,2) this] obtain js where
    js: "length js = length ys" "list_all (\<lambda>j. \<not> attempted j) js"
    "map rj_idempotency_key js = map (\<lambda>(_, r, _). rq_idempotency_key r) ys"
    "sv_active (service_run s (burst g ys)) = None" and
    h: "sv_history (service_run s (burst g ys)) = (if ys = [] then sv_history s
      else trim_front (rp_history_limit (sv_policy s)) (sv_history s @ js))"
    by blast
  have js5: "sv_history (service_run s (burst g ys)) = js"
    using h js(1) xs(2) assms(4) by (auto simp: trim_front_drop)
  have "rq_idempotency_key r \<notin> set (map rj_idempotency_key js)"
    unfolding js(3) using assms(3) xs(1) by (auto simp: fresh_keys_def)
  then have "\<forall>j \<in> set js. rj_idempotency_key j \<noteq> rq_idempotency_key r" by (metis image_eqI list.set_map)
  then have "find (\<lambda>j. rj_idempotency_key j = rq_idempotency_key r) (rev js) = None"
    by (auto simp: find_None_iff)
  moreover have "filter attempted js = []" using js(2) by (simp add: filter_empty_conv list_all_iff)
  ultimately have "is_created (fst (begin_at (service_run s (burst g ys)) rid g r now))"
    using js(4) js5 assms(2,5)
    by (simp add: begin_at_def in_cooldown_def attempts_in_window_def is_created_def List.map_filter_def Let_def)
  with none xs(1) show False by (simp add: some_created_snoc)
qed

theorem burst_defeats_cooldown_witness:
  "some_created (sample_service\<lparr>sv_policy := \<lparr>rp_history_limit = 2, rp_cooldown = 3600000, rp_window = 43200000,
      rp_max_attempts = 2\<rparr>\<rparr>) sample_gate
    [(''i1'', sample_request ''k1'', 1001), (''i2'', sample_request ''k2'', 1002), (''i3'', sample_request ''k3'', 1003)]"
  by (rule burst_defeats_cooldown) (simp_all add: service_samples gate_failure_def fresh_keys_def)

end
