(* ===== verification/Coordinator_Runtime.thy ===== *)
theory Coordinator_Runtime
  imports Runtime_World
begin

text \<open>
  The runtime that promotes a paired coordinator to the distributed mode and takes it back
  (\<open>src/cluster/coordinator.rs\<close>). A duration is its number of nanoseconds. The validity
  of the worker's lease is checked four times during a promotion: \<open>env_lease_valid env n\<close>
  is the answer to check \<open>n\<close>.
\<close>

section \<open>Errors and construction\<close>

datatype coordinator_error =
  CeTransition transition_error
| CeDrain drain_error
| CeStandalone
| CeCoordinator
| CePeer
| CeStartupTimeout
| CeCompleteRouteTimeout
| CeRecovery
| CeInvalidTiming
| CePromotionTracker promotion_tracker_error
| CePrerequisiteMissing
| CeLeaseLost

record coordinator_timeouts =
  ct_drain :: nat
  ct_startup :: nat
  ct_complete_route :: nat
  ct_route_loss_grace :: nat

record promotion_retry_policy =
  rt_backoff :: nat
  rt_maximum :: u32

text \<open>The part of \<open>CoordinatorDistributedRuntime::new\<close> that can fail: the timeouts are
  positive and the tracker accepts the policy.\<close>

definition coordinator_runtime_new ::
  "coordinator_timeouts \<Rightarrow> promotion_retry_policy \<Rightarrow> coordinator_error + promotion_failure_tracker" where
  "coordinator_runtime_new t r =
     (if ct_drain t = 0 \<or> ct_startup t = 0 \<or> ct_complete_route t = 0 \<or> ct_route_loss_grace t = 0
      then Inl CeInvalidTiming
      else case tracker_new (rt_backoff r = 0) (rt_backoff r div 1000000) (rt_maximum r) of
        Inl e \<Rightarrow> Inl (CePromotionTracker e)
      | Inr tracker \<Rightarrow> Inr tracker)"

definition promotion_failure_for_error :: "coordinator_error \<Rightarrow> cluster_failure option" where
  "promotion_failure_for_error e =
     (case e of CeStartupTimeout \<Rightarrow> Some CfCoordinatorStartupTimeout | _ \<Rightarrow> None)"

section \<open>Failures\<close>

definition change_failures :: "(promotion_failure_tracker \<Rightarrow> promotion_failure_tracker) \<Rightarrow> ('e, unit) act" where
  "change_failures f = modify_act (\<lambda>w. w\<lparr>rw_failures := f (rw_failures w)\<rparr>)"

definition record_failure :: "cluster_failure \<Rightarrow> u64 \<Rightarrow> (coordinator_error, promotion_retry_decision) act" where
  "record_failure failure now w =
     (case tracker_record (rw_failures w) failure now of
        Inl e \<Rightarrow> (Inl (CePromotionTracker e), w)
      | Inr (t, d) \<Rightarrow> (Inr d, w\<lparr>rw_failures := t\<rparr>))"

definition enter_promotion_failure ::
  "cluster_failure \<Rightarrow> u64 \<Rightarrow> bool \<Rightarrow> (coordinator_error, cluster_snapshot) act" where
  "enter_promotion_failure failure now resume_admission =
     seq (record_failure failure now) (\<lambda>decision.
     seq get_snapshot (\<lambda>current.
     seq (apply_event CeTransition (cs_generation current)
           (case decision of RetryBackoff _ \<Rightarrow> EnterBackoff
            | RetryManualIntervention \<Rightarrow> RequireManualIntervention)) (\<lambda>next.
     seq (set_target (cs_target next) (available (cs_target next))) (\<lambda>_.
     seq (if available (cs_target next) \<and> resume_admission then change_gate start_serving
          else change_gate block) (\<lambda>_.
     return_act next)))))"

section \<open>Recovery of a failed promotion\<close>

definition recover_paired :: "environment \<Rightarrow> bool \<Rightarrow> (coordinator_error, cluster_snapshot) act" where
  "recover_paired env resume_admission =
     seq block_transition (\<lambda>_.
     seq get_snapshot (\<lambda>current.
     seq (log_call (CoordinatorStop (env_coordinator_stop env))) (\<lambda>_.
     seq (log_call (PeerStopWorker (cs_generation current) (env_peer_stop_worker env))) (\<lambda>_.
     seq (require_ok (env_coordinator_stop env) CeRecovery) (\<lambda>_.
     seq (require_ok (env_peer_stop_worker env) CeRecovery) (\<lambda>_.
     seq (call (StandaloneStart (cs_generation current) (env_standalone_start env))
           (env_standalone_start env) CeRecovery) (\<lambda>_.
     seq (apply_event CeTransition (cs_generation current) PromotionFailed) (\<lambda>paired.
     serve_snapshot True resume_admission paired))))))))"

definition recover_solo :: "environment \<Rightarrow> bool \<Rightarrow> (coordinator_error, cluster_snapshot) act" where
  "recover_solo env resume_admission =
     seq block_transition (\<lambda>_.
     seq get_snapshot (\<lambda>current.
     seq (log_call (CoordinatorStop (env_coordinator_stop env))) (\<lambda>_.
     seq (log_call (PeerStopWorker (cs_generation current) (env_peer_stop_worker env))) (\<lambda>_.
     seq (require_ok (env_coordinator_stop env) CeCoordinator) (\<lambda>_.
     seq (require_ok (env_peer_stop_worker env) CePeer) (\<lambda>_.
     seq (apply_event CeTransition (cs_generation current) PeerLost) (\<lambda>starting.
     seq (call (StandaloneStart (cs_generation starting) (env_standalone_start env))
           (env_standalone_start env) CeStandalone) (\<lambda>_.
     seq (apply_event CeTransition (cs_generation starting) LocalStandaloneReady) (\<lambda>ready.
     serve_snapshot True resume_admission ready)))))))))"

section \<open>Promotion\<close>

text \<open>Both drains run together and both are awaited; the local error is reported first.\<close>

definition drain_both :: "environment \<Rightarrow> u64 \<Rightarrow> (coordinator_error, unit) act" where
  "drain_both env gen =
     seq (run_drain env gen) (\<lambda>local.
     seq (log_call (PeerBeginDrain gen (env_peer_drain env))) (\<lambda>_.
     seq (require_drained CeDrain local) (\<lambda>_.
     require_ok (env_peer_drain env) CePeer)))"

definition promote_inner ::
  "environment \<Rightarrow> cluster_snapshot \<Rightarrow> bool \<Rightarrow> (coordinator_error, cluster_snapshot) act" where
  "promote_inner env promoting resume_admission =
     seq (drain_both env (cs_generation promoting)) (\<lambda>_.
     seq (if resume_admission then return_act () else change_gate reset_blocked_generation) (\<lambda>_.
     seq (require_ok (env_lease_valid env 1) CeLeaseLost) (\<lambda>_.
     seq (call (StandaloneStop (env_standalone_stop env)) (env_standalone_stop env) CeStandalone) (\<lambda>_.
     seq (timed_call (CoordinatorStart (cs_generation promoting) (env_coordinator_start env))
           (env_coordinator_start env) CeCoordinator CeStartupTimeout) (\<lambda>_.
     seq (require_ok (env_lease_valid env 2) CeLeaseLost) (\<lambda>_.
     seq (apply_event CeTransition (cs_generation promoting) DistributedChildStarted) (\<lambda>starting.
     seq (timed_call (CoordinatorWaitReady (env_coordinator_ready env))
           (env_coordinator_ready env) CeCoordinator CeCompleteRouteTimeout) (\<lambda>_.
     seq (require_ok (env_lease_valid env 3) CeLeaseLost) (\<lambda>_.
     seq (apply_event CeTransition (cs_generation starting) DistributedRouteReady) (\<lambda>ready.
     serve_snapshot True resume_admission ready))))))))))"

definition recover_promotion ::
  "environment \<Rightarrow> u64 \<Rightarrow> bool \<Rightarrow> coordinator_error \<Rightarrow> (coordinator_error, unit) act" where
  "recover_promotion env now resume_admission e =
     (if e = CeLeaseLost then seq (recover_solo env resume_admission) (\<lambda>_. return_act ())
      else
        seq (recover_paired env resume_admission) (\<lambda>_.
        case promotion_failure_for_error e of
          None \<Rightarrow> return_act ()
        | Some failure \<Rightarrow>
            seq (enter_promotion_failure failure now resume_admission) (\<lambda>_. return_act ())))"

definition promote_validated_with_admission ::
  "environment \<Rightarrow> bool \<Rightarrow> u64 \<Rightarrow> bool \<Rightarrow> (coordinator_error, cluster_snapshot) act" where
  "promote_validated_with_admission env prerequisites_ready now resume_admission =
     (if \<not> prerequisites_ready \<or> \<not> env_lease_valid env 0 then fail_act CePrerequisiteMissing
      else
        seq get_snapshot (\<lambda>current.
        seq (apply_event CeTransition (cs_generation current) WorkerHelloAccepted) (\<lambda>promoting.
        seq block_transition (\<lambda>_.
        on_result (promote_inner env promoting resume_admission)
          (\<lambda>snapshot. seq (change_failures note_success) (\<lambda>_. return_act snapshot))
          (\<lambda>e. seq (recover_promotion env now resume_admission e) (\<lambda>_. fail_act e))))))"

section \<open>Demotion and planned restart\<close>

definition demote_with_admission :: "environment \<Rightarrow> bool \<Rightarrow> (coordinator_error, cluster_snapshot) act" where
  "demote_with_admission env resume_admission =
     seq get_snapshot (\<lambda>current.
     seq (apply_event CeTransition (cs_generation current) BeginDemotion) (\<lambda>demoting.
     seq block_transition (\<lambda>_.
     seq (drain_both env (cs_generation demoting)) (\<lambda>_.
     seq (if resume_admission then return_act () else change_gate reset_blocked_generation) (\<lambda>_.
     seq (call (CoordinatorStop (env_coordinator_stop env)) (env_coordinator_stop env) CeCoordinator) (\<lambda>_.
     seq (call (PeerStopWorker (cs_generation demoting) (env_peer_stop_worker env))
           (env_peer_stop_worker env) CePeer) (\<lambda>_.
     seq (call (StandaloneStart (cs_generation demoting) (env_standalone_start env))
           (env_standalone_start env) CeStandalone) (\<lambda>_.
     seq (apply_event CeTransition (cs_generation demoting) PairingReady) (\<lambda>paired.
     serve_snapshot True resume_admission paired)))))))))"

text \<open>The two events that publish a finished demotion.\<close>

definition demote_cluster :: "u64 \<Rightarrow> (coordinator_error, cluster_snapshot) act" where
  "demote_cluster gen =
     seq (apply_event CeTransition gen BeginDemotion) (\<lambda>demoting.
     apply_event CeTransition (cs_generation demoting) PairingReady)"

definition restore_paired_after_planned_restart ::
  "environment \<Rightarrow> u64 \<Rightarrow> (coordinator_error, unit) act" where
  "restore_paired_after_planned_restart env gen =
     seq (call (StandaloneStart gen (env_standalone_start env)) (env_standalone_start env) CeStandalone) (\<lambda>_.
     seq (demote_cluster gen) (\<lambda>paired.
     seq (serve_snapshot True True paired) (\<lambda>_. return_act ())))"

definition stop_for_planned_restart :: "environment \<Rightarrow> (coordinator_error, cluster_snapshot) act" where
  "stop_for_planned_restart env =
     seq get_snapshot (\<lambda>current.
     if cs_state current \<noteq> DistributedReady
     then fail_act (CeTransition (InvalidTransition (cs_state current) BeginDemotion))
     else
       seq block_transition (\<lambda>_.
       on_result (call (CoordinatorStop (env_coordinator_stop env)) (env_coordinator_stop env) CeCoordinator)
         (\<lambda>_. on_result (call (PeerStopWorker (cs_generation current) (env_peer_stop_worker env))
                  (env_peer_stop_worker env) CePeer)
            (\<lambda>_. seq (demote_cluster (cs_generation current)) (\<lambda>paired.
                  seq (set_target (cs_target paired) True) (\<lambda>_. return_act paired)))
            (\<lambda>e. seq (restore_paired_after_planned_restart env (cs_generation current)) (\<lambda>_. fail_act e)))
         (\<lambda>e. seq (serve_snapshot True True current) (\<lambda>_. fail_act e))))"

section \<open>Back-off, operator reconcile and route loss\<close>

abbreviation record_promotion_failure ::
  "cluster_failure \<Rightarrow> u64 \<Rightarrow> (coordinator_error, cluster_snapshot) act" where
  "record_promotion_failure failure now \<equiv> enter_promotion_failure failure now True"

definition reconcile_backoff :: "u64 \<Rightarrow> (coordinator_error, cluster_snapshot) act" where
  "reconcile_backoff now w =
     (if cs_state (rw_cluster w) \<noteq> Backoff \<or> \<not> can_retry (rw_failures w) now
      then return_act (rw_cluster w) w
      else seq (apply_event CeTransition (cs_generation (rw_cluster w)) BackoffElapsed)
             (serve_snapshot True True) w)"

definition operator_reconcile :: "(coordinator_error, cluster_snapshot) act" where
  "operator_reconcile =
     seq (change_failures tracker_reset) (\<lambda>_.
     seq get_snapshot (\<lambda>current.
     if cs_state current \<noteq> ManualInterventionRequired then return_act current
     else seq (apply_event CeTransition (cs_generation current) OperatorReconcile)
            (serve_snapshot True True)))"

text \<open>One round of the route monitor: the events other tasks applied to the cluster before the
  wait for a loss ended, its result, and the same for the wait for the route to return. A list
  that ends before the monitor does stands for a wait that has not ended yet.\<close>

record route_round =
  rr_before_loss :: "cluster_event list"
  rr_loss :: bool
  rr_before_ready :: "cluster_event list"
  rr_ready :: start_outcome

definition others :: "cluster_event list \<Rightarrow> world \<Rightarrow> world" where
  "others es w = w\<lparr>rw_cluster := fst (state_machine (rw_cluster w) es)\<rparr>"

definition stale_monitor ::
  "(coordinator_error, cluster_snapshot) act \<Rightarrow> (coordinator_error, cluster_snapshot) act" where
  "stale_monitor m w =
     (if cs_state (rw_cluster w) \<noteq> DistributedReady then (Inr (rw_cluster w), w) else m w)"

fun wait_route_loss_and_demote ::
  "environment \<Rightarrow> route_round list \<Rightarrow> world \<Rightarrow>
   ((coordinator_error + cluster_snapshot) \<times> world) option" where
  "wait_route_loss_and_demote env [] w = None"
| "wait_route_loss_and_demote env (r # rs) w =
     (let w1 = others (rr_before_loss r) w in
      if \<not> rr_loss r then Some (stale_monitor (fail_act CeCoordinator) w1)
      else
        let w2 = others (rr_before_ready r) w1 in
        case rr_ready r of
          Started \<Rightarrow> wait_route_loss_and_demote env rs w2
        | StartFailed \<Rightarrow> Some (stale_monitor (fail_act CeCoordinator) w2)
        | StartTimeout \<Rightarrow> Some (stale_monitor (demote_with_admission env True) w2))"

section \<open>Publication\<close>

lemma drain_both_shuts:
  assumes "calm env" "undrained w"
    and "\<And>v. shut v \<Longrightarrow> rw_cluster v = rw_cluster w \<Longrightarrow> Q () v" "\<And>e v. shut v \<Longrightarrow> E e v"
  shows "wp (drain_both env gen) Q E w"
  unfolding drain_both_def
  using assms by (intro wp_seqI drain_shuts log_shut wp_drainedI wp_requireI) auto

lemma record_failure_keeps:
  "(\<And>d t. Q d (w\<lparr>rw_failures := t\<rparr>)) \<Longrightarrow> (\<And>e. E e w) \<Longrightarrow>
   wp (record_failure failure now) Q E w"
  by (auto simp: wp_def record_failure_def split: sum.split prod.split)

lemma failures_irrelevant [simp]:
  "exclusive (w\<lparr>rw_failures := t\<rparr>) = exclusive w"
  by (simp add: exclusive_def)

lemma publish_or_block:
  assumes "undrained w" "rw_cluster w = c" "\<And>v. published v \<Longrightarrow> Q c v"
  shows "wp (seq (set_target (cs_target c) (available (cs_target c))) (\<lambda>_.
      seq (if available (cs_target c) \<and> resume then change_gate start_serving else change_gate block) (\<lambda>_.
      return_act c))) Q E w"
  using assms by (simp add: wp_eqs published_def undrained_def serving_def start_serving_def block_def)

lemma change_failures_keeps:
  "(\<And>t. Q () (w\<lparr>rw_failures := t\<rparr>)) \<Longrightarrow> wp (change_failures f) Q E w"
  by (simp add: change_failures_def wp_modify)

lemma demote_cluster_shut:
  assumes "shut w" "\<And>c v b. shut v \<Longrightarrow> rw_cluster v = c \<Longrightarrow>
      transition b (event_new (cs_generation b) PairingReady) = Inr c \<Longrightarrow> Q c v"
    and "\<And>e v. shut v \<Longrightarrow> E e v"
  shows "wp (demote_cluster gen) Q E w"
  unfolding demote_cluster_def
  by (intro wp_seqI apply_shut [OF assms(1)] apply_shut) (auto intro: assms)

lemma backoff_elapsed_ready:
  "transition c (event_new gen BackoffElapsed) = Inr n \<Longrightarrow> cs_state c = Backoff \<Longrightarrow> cs_state n \<in> ready_states"
  by (auto simp: transition_new snapshot_new_def split: if_splits)

text \<open>Every operation keeps what a gate contract demands.\<close>

context gate_contract
begin

lemma recover_paired_keeps:
  assumes "undrained w"
  shows "wp (recover_paired env resume) (\<lambda>_. P) (\<lambda>_. P) w"
  unfolding recover_paired_def
  by (intro wp_seqI wp_snapshotI wp_requireI block_transition_shuts [OF assms] shut_rules)
    (auto simp: ready_kind_def intro: serve_ready shut_undrained shut_kept publish)

lemma recover_solo_keeps:
  assumes "undrained w"
  shows "wp (recover_solo env resume) (\<lambda>_. P) (\<lambda>_. P) w"
  unfolding recover_solo_def
  by (intro wp_seqI wp_snapshotI wp_requireI block_transition_shuts [OF assms] shut_rules)
    (auto simp: ready_kind_def intro: serve_ready shut_undrained shut_kept publish)

lemma enter_promotion_failure_keeps:
  assumes "P w"
  shows "wp (enter_promotion_failure f now resume) (\<lambda>_. P) (\<lambda>_. P) w"
  unfolding enter_promotion_failure_def
proof (intro wp_seqI record_failure_keeps wp_snapshotI)
  fix d t
  let ?v = "w\<lparr>rw_failures := t\<rparr>"
  have v: "P ?v" using assms by simp
  let ?k = "case d of RetryBackoff x \<Rightarrow> EnterBackoff | RetryManualIntervention \<Rightarrow> RequireManualIntervention"
  show "wp (apply_event CeTransition (cs_generation (rw_cluster ?v)) ?k)
     (\<lambda>a. wp (seq (set_target (cs_target a) (available (cs_target a)))
               (\<lambda>_. seq (if available (cs_target a) \<and> resume then change_gate start_serving
                          else change_gate block)
                     (\<lambda>_. return_act a)))
           (\<lambda>_. P) (\<lambda>_. P))
     (\<lambda>_. P) ?v"
    using v by (intro apply_undrained [OF undrained [OF v]]) (simp_all add: publish_or_block publish)
qed (use assms in simp)

lemma promote_inner_keeps:
  assumes "calm env" "undrained w"
  shows "wp (promote_inner env promoting resume) (\<lambda>_. P) (\<lambda>_. P) w"
  unfolding promote_inner_def
  by (intro wp_seqI wp_ifI wp_returnI wp_requireI drain_both_shuts [OF assms] shut_rules)
    (auto simp: ready_kind_def intro: serve_ready shut_undrained shut_kept publish)

lemma recover_promotion_keeps:
  assumes "undrained w"
  shows "wp (recover_promotion env now resume e) (\<lambda>_. P) (\<lambda>_. P) w"
  unfolding recover_promotion_def
  by (auto intro!: wp_ifI wp_seqI wp_mono [OF recover_solo_keeps [OF assms]]
      wp_mono [OF recover_paired_keeps [OF assms]] simp: wp_return
      split: option.split intro: wp_mono [OF enter_promotion_failure_keeps])

lemma promote_keeps:
  assumes "calm env" "P w"
  shows "wp (promote_validated_with_admission env ok now resume) (\<lambda>_. P) (\<lambda>_. P) w"
proof -
  have inner: "wp (on_result (promote_inner env c resume)
      (\<lambda>snapshot. seq (change_failures note_success) (\<lambda>_. return_act snapshot))
      (\<lambda>e. seq (recover_promotion env now resume e) (\<lambda>_. fail_act e)))
      (\<lambda>_. P) (\<lambda>_. P) v" if "shut v" for c v
    by (rule wp_onI, rule wp_mono [OF promote_inner_keeps [OF assms(1) shut_undrained [OF that]]])
      (auto simp: change_failures_def wp_eqs intro: wp_mono [OF recover_promotion_keeps] undrained)
  show ?thesis
    unfolding promote_validated_with_admission_def
    by (intro wp_ifI wp_failI wp_seqI wp_snapshotI apply_undrained [OF undrained [OF assms(2)]]
        block_transition_shuts) (simp_all add: assms(2) inner)
qed

lemma demote_keeps:
  assumes "calm env" "P w"
  shows "wp (demote_with_admission env resume) (\<lambda>_. P) (\<lambda>_. P) w"
  unfolding demote_with_admission_def
  by (intro wp_seqI wp_snapshotI wp_ifI wp_returnI apply_undrained [OF undrained [OF assms(2)]]
      block_transition_shuts drain_both_shuts [OF assms(1)] shut_rules)
    (auto simp: ready_kind_def assms intro: serve_ready shut_undrained shut_kept publish)

lemma restore_paired_keeps:
  assumes "shut w"
  shows "wp (restore_paired_after_planned_restart env gen) (\<lambda>_. P) (\<lambda>_. P) w"
  unfolding restore_paired_after_planned_restart_def
  by (intro wp_seqI demote_cluster_shut call_shut [OF assms])
    (auto simp: ready_kind_def wp_return intro: shut_kept publish intro!: serve_ready shut_undrained)

lemma planned_restart_keeps:
  assumes "P w"
  shows "wp (stop_for_planned_restart env) (\<lambda>_. P) (\<lambda>_. P) w"
proof -
  let ?c = "rw_cluster w"
  have again: "wp (seq (serve_snapshot True True ?c) (\<lambda>_. fail_act e)) (\<lambda>_. P) (\<lambda>_. P) v"
    if "shut v" "rw_cluster v = ?c" "cs_state ?c = DistributedReady" for v and e :: coordinator_error
    by (rule wp_seqI, rule serve_published)
      (use that in \<open>auto simp: wp_fail shut_undrained ready_states_def shut_def intro: coherent_ready_available publish\<close>)
  have restored: "wp (seq (restore_paired_after_planned_restart env g) (\<lambda>_. fail_act e)) (\<lambda>_. P) (\<lambda>_. P) v"
    if "shut v" for v g and e :: coordinator_error
    by (rule wp_seqI, rule wp_mono [OF restore_paired_keeps [OF that]]) (simp_all add: wp_fail)
  have stopped: "wp (seq (demote_cluster g) (\<lambda>paired. seq (set_target (cs_target paired) True) (\<lambda>_. return_act paired)))
      (\<lambda>_. P) (\<lambda>_. P) v" if "shut v" for v g
    by (intro wp_seqI demote_cluster_shut [OF that] set_target_shut wp_returnI) (auto intro: shut_kept)
  show ?thesis
    unfolding stop_for_planned_restart_def
    by (intro wp_seqI wp_snapshotI wp_ifI wp_failI wp_onI block_transition_shuts [OF undrained [OF assms]]
        call_shut) (auto simp: assms wp_seq [THEN iffD1, OF stopped] wp_seq [THEN iffD1, OF restored]
        wp_seq [THEN iffD1, OF again])
qed

lemma reconcile_backoff_keeps:
  assumes "P w"
  shows "P (snd (reconcile_backoff now w))"
proof (cases "cs_state (rw_cluster w) \<noteq> Backoff \<or> \<not> can_retry (rw_failures w) now")
  case True
  with assms show ?thesis by (simp add: reconcile_backoff_def return_act_def)
next
  case False
  have "wp (seq (apply_event CeTransition (cs_generation (rw_cluster w)) BackoffElapsed) (serve_snapshot True True))
     (\<lambda>_. P) (\<lambda>_. P) w"
    by (rule wp_seqI, rule apply_undrained [OF undrained [OF assms]], rule serve_at_ready)
      (use False assms backoff_elapsed_ready in \<open>auto intro: publish\<close>)
  with False show ?thesis unfolding wp_result by (simp add: reconcile_backoff_def)
qed

lemma operator_reconcile_keeps:
  assumes "P w"
  shows "wp operator_reconcile (\<lambda>_. P) (\<lambda>_. P) w"
  unfolding operator_reconcile_def
proof (intro wp_seqI change_failures_keeps wp_snapshotI wp_ifI wp_returnI)
  fix t
  let ?v = "w\<lparr>rw_failures := t\<rparr>"
  show v: "P ?v" using assms by simp
  show "wp (apply_event CeTransition (cs_generation (rw_cluster ?v)) OperatorReconcile)
     (\<lambda>a. wp (serve_snapshot True True a) (\<lambda>_. P) (\<lambda>_. P)) (\<lambda>_. P) ?v"
    by (rule apply_undrained [OF undrained [OF v]])
      (use v in \<open>auto simp: ready_kind_def intro: serve_ready publish\<close>)
qed

end

section \<open>One child at a time\<close>

lemma promote_inner_exclusive:
  assumes "exclusive w"
  shows "wp (promote_inner env promoting resume) (\<lambda>_. exclusive) (\<lambda>_. exclusive) w"
  by (rule exclusiveE [OF assms], unfold promote_inner_def drain_both_def,
      intro wp_seqI wp_ifI wp_returnI wp_drainedI log_rules) (simp_all add: exclusive_simps)

lemma recover_paired_exclusive:
  assumes "exclusive w"
  shows "wp (recover_paired env resume) (\<lambda>_. exclusive) (\<lambda>_. exclusive) w"
  by (rule exclusiveE [OF assms], unfold recover_paired_def, intro wp_seqI wp_snapshotI log_rules)
    (simp_all add: exclusive_simps)

lemma recover_solo_exclusive:
  assumes "exclusive w"
  shows "wp (recover_solo env resume) (\<lambda>_. exclusive) (\<lambda>_. exclusive) w"
  by (rule exclusiveE [OF assms], unfold recover_solo_def, intro wp_seqI wp_snapshotI log_rules)
    (simp_all add: exclusive_simps)

lemma enter_promotion_failure_exclusive:
  assumes "exclusive w"
  shows "wp (enter_promotion_failure f now resume) (\<lambda>_. exclusive) (\<lambda>_. exclusive) w"
  unfolding enter_promotion_failure_def
  by (intro wp_seqI record_failure_keeps wp_snapshotI wp_ifI wp_returnI log_rules)
    (use assms in \<open>auto simp: exclusive_def\<close>)

lemma recover_promotion_exclusive:
  assumes "exclusive w"
  shows "wp (recover_promotion env now resume e) (\<lambda>_. exclusive) (\<lambda>_. exclusive) w"
  unfolding recover_promotion_def
  by (auto intro!: wp_ifI wp_seqI wp_mono [OF recover_solo_exclusive [OF assms]]
      wp_mono [OF recover_paired_exclusive [OF assms]] simp: wp_return
      split: option.split intro: wp_mono [OF enter_promotion_failure_exclusive])

lemma promote_exclusive:
  assumes "exclusive w"
  shows "wp (promote_validated_with_admission env ok now resume) (\<lambda>_. exclusive) (\<lambda>_. exclusive) w"
proof -
  have inner: "wp (on_result (promote_inner env c resume)
      (\<lambda>snapshot. seq (change_failures note_success) (\<lambda>_. return_act snapshot))
      (\<lambda>e. seq (recover_promotion env now resume e) (\<lambda>_. fail_act e)))
      (\<lambda>_. exclusive) (\<lambda>_. exclusive) v" if "exclusive v" for c v
    by (rule wp_onI, rule wp_mono [OF promote_inner_exclusive [OF that]])
      (auto simp: change_failures_def wp_eqs intro: wp_mono [OF recover_promotion_exclusive])
  show ?thesis
    unfolding promote_validated_with_admission_def
    by (intro wp_ifI wp_failI wp_seqI wp_snapshotI log_rules)
      (auto simp: assms intro!: inner intro: same_log_exclusive [OF assms])
qed

lemma demote_exclusive:
  assumes "exclusive w"
  shows "wp (demote_with_admission env resume) (\<lambda>_. exclusive) (\<lambda>_. exclusive) w"
  by (rule exclusiveE [OF assms], unfold demote_with_admission_def drain_both_def,
      intro wp_seqI wp_snapshotI wp_ifI wp_returnI wp_drainedI log_rules) (simp_all add: exclusive_simps)

lemma planned_restart_exclusive:
  assumes "exclusive w"
  shows "wp (stop_for_planned_restart env) (\<lambda>_. exclusive) (\<lambda>_. exclusive) w"
  by (rule exclusiveE [OF assms],
      unfold stop_for_planned_restart_def restore_paired_after_planned_restart_def demote_cluster_def,
      intro wp_seqI wp_snapshotI wp_ifI wp_returnI wp_failI wp_onI log_rules) (simp_all add: exclusive_simps)

lemma reconcile_backoff_log: "rw_log (snd (reconcile_backoff now w)) = rw_log w"
  by (simp add: reconcile_backoff_def return_act_def seq_def apply_event_def serve_snapshot_def set_target_def
      change_gate_def modify_act_def split: sum.split)

lemma operator_reconcile_exclusive:
  assumes "exclusive w"
  shows "wp operator_reconcile (\<lambda>_. exclusive) (\<lambda>_. exclusive) w"
  unfolding operator_reconcile_def
  by (intro wp_seqI change_failures_keeps wp_snapshotI wp_ifI wp_returnI log_rules)
    (use assms in \<open>auto simp: exclusive_def\<close>)

section \<open>How a promotion ends\<close>

text \<open>The calls that undo a promotion succeed.\<close>

definition undo_works :: "environment \<Rightarrow> bool" where
  "undo_works env \<longleftrightarrow> env_coordinator_stop env \<and> env_peer_stop_worker env \<and> env_standalone_start env"

lemma recover_paired_settles:
  assumes "undo_works env" "cs_state (rw_cluster w) \<in> {AwaitingWorkerHello, Promoting, DistributedStarting}"
  shows "wp (recover_paired env resume) (\<lambda>_. at_rest {PairedStandaloneReady} resume) (\<lambda>_ _. False) w"
  unfolding recover_paired_def
  using assms
  by (intro wp_seqI wp_snapshotI cluster_kept require_log apply_known serve_settles)
    (auto simp: undo_works_def)

lemma recover_solo_settles:
  assumes "undo_works env" "cs_state (rw_cluster w) \<in> {AwaitingWorkerHello, Promoting, DistributedStarting}"
  shows "wp (recover_solo env resume) (\<lambda>_. at_rest {SoloStandaloneReady} resume) (\<lambda>_ _. False) w"
  unfolding recover_solo_def
  using assms
  by (intro wp_seqI wp_snapshotI cluster_kept require_log apply_known serve_settles)
    (auto simp: undo_works_def)

lemma promote_inner_settles:
  assumes "cs_state (rw_cluster w) = Promoting" "promoting = rw_cluster w"
  shows "wp (promote_inner env promoting resume) (\<lambda>_. at_rest {DistributedReady} resume)
     (\<lambda>_ v. cs_state (rw_cluster v) \<in> {Promoting, DistributedStarting}) w"
  unfolding promote_inner_def drain_both_def
  using assms
  by (intro wp_seqI wp_ifI wp_returnI wp_drainedI wp_requireI cluster_kept apply_known serve_settles) auto

lemma enter_failure_settles:
  assumes "failure_action f = FaPromotionBackoff"
    and "cs_state (rw_cluster w) = PairedStandaloneReady"
  shows "wp (enter_promotion_failure f now resume) (\<lambda>_. at_rest {Backoff, ManualInterventionRequired} resume)
     (\<lambda>_ _. False) w"
proof -
  obtain t d where "tracker_record (rw_failures w) f now = Inr (t, d)"
    using tracker_record_eligible [OF assms(1)] by blast
  with assms(2) show ?thesis
    by (cases d) (auto simp: enter_promotion_failure_def record_failure_def wp_def seq_def get_snapshot_def
        apply_event_def transition_new snapshot_new_def set_target_def change_gate_def modify_act_def
        return_act_def at_rest_def serving_def start_serving_def block_def)
qed

text \<open>The state a failed promotion is left in.\<close>

definition fallback_states :: "coordinator_error \<Rightarrow> cluster_state set" where
  "fallback_states e =
     (if e = CeLeaseLost then {SoloStandaloneReady}
      else if e = CeStartupTimeout then {Backoff, ManualInterventionRequired}
      else {PairedStandaloneReady})"

lemma recover_promotion_settles:
  assumes "undo_works env" "cs_state (rw_cluster w) \<in> {Promoting, DistributedStarting}"
  shows "wp (recover_promotion env now resume e) (\<lambda>_. at_rest (fallback_states e) resume) (\<lambda>_ _. False) w"
proof -
  have st: "cs_state (rw_cluster w) \<in> {AwaitingWorkerHello, Promoting, DistributedStarting}" using assms(2) by simp
  consider "e = CeLeaseLost" | "e = CeStartupTimeout" | "e \<noteq> CeLeaseLost" "promotion_failure_for_error e = None" "e \<noteq> CeStartupTimeout"
    by (cases e) (simp_all add: promotion_failure_for_error_def)
  then show ?thesis
  proof cases
    case 1
    then show ?thesis
      by (simp add: recover_promotion_def wp_seq wp_return fallback_states_def)
        (rule wp_mono [OF recover_solo_settles [OF assms(1) st]], simp_all add: wp_return)
  next
    case 2
    then show ?thesis
      by (simp add: recover_promotion_def wp_seq wp_return promotion_failure_for_error_def fallback_states_def)
        (rule wp_mono [OF recover_paired_settles [OF assms(1) st]],
          auto simp: at_rest_def wp_seq wp_return intro!: wp_mono [OF enter_failure_settles])
  next
    case 3
    then show ?thesis
      by (simp add: recover_promotion_def wp_seq wp_return fallback_states_def)
        (rule wp_mono [OF recover_paired_settles [OF assms(1) st]], simp_all add: wp_return)
  qed
qed

section \<open>Histories of operations\<close>

datatype coordinator_op =
  CoPromote environment bool u64 bool
| CoDemote environment bool
| CoPlannedRestart environment
| CoRecordFailure cluster_failure u64
| CoBackoff u64
| CoOperatorReconcile

fun coordinator_act :: "coordinator_op \<Rightarrow> (coordinator_error, cluster_snapshot) act" where
  "coordinator_act (CoPromote env ok now resume) = promote_validated_with_admission env ok now resume"
| "coordinator_act (CoDemote env resume) = demote_with_admission env resume"
| "coordinator_act (CoPlannedRestart env) = stop_for_planned_restart env"
| "coordinator_act (CoRecordFailure f now) = record_promotion_failure f now"
| "coordinator_act (CoBackoff now) = reconcile_backoff now"
| "coordinator_act CoOperatorReconcile = operator_reconcile"

definition coordinator_run :: "world \<Rightarrow> coordinator_op list \<Rightarrow> world" where
  "coordinator_run = foldl (\<lambda>w op. snd (coordinator_act op w))"

fun calm_op :: "coordinator_op \<Rightarrow> bool" where
  "calm_op (CoPromote env _ _ _) = calm env"
| "calm_op (CoDemote env _) = calm env"
| "calm_op _ = True"

context gate_contract
begin

lemma coordinator_act_keeps: "P w \<Longrightarrow> calm_op op \<Longrightarrow> P (snd (coordinator_act op w))"
  by (cases op)
    (simp_all add: wp_result [symmetric] promote_keeps demote_keeps planned_restart_keeps
      enter_promotion_failure_keeps operator_reconcile_keeps,
     simp add: wp_result reconcile_backoff_keeps)

end

lemma coordinator_act_exclusive: "exclusive w \<Longrightarrow> exclusive (snd (coordinator_act op w))"
  by (cases op)
    (simp_all add: wp_result [symmetric] promote_exclusive demote_exclusive planned_restart_exclusive
      enter_promotion_failure_exclusive operator_reconcile_exclusive,
     simp add: wp_result exclusive_def reconcile_backoff_log)

section \<open>Properties\<close>

text \<open>
  The proxy serves only what the cluster has published: whatever the children, the peer and
  the lease answer, and however often operations fail halfway, after every sequence of
  promotions, demotions, planned restarts, recorded failures, back-offs and reconciles the gate
  is either not serving, or serves the target of the current snapshot, which is reachable, with
  no drain under way. Only the tasks that act during a drain must not start the gate.
\<close>
lemma coordinator_serves_published:
  assumes "published w" "list_all calm_op ops"
  shows "published (coordinator_run w ops)"
  using assms unfolding coordinator_run_def
  by (induction ops arbitrary: w) (simp_all add: pub.coordinator_act_keeps)

definition sample_environment :: environment where
  "sample_environment = \<lparr>env_waiting = [DropPermit], env_between = [], env_lease_valid = (\<lambda>n. True),
     env_standalone_start = True, env_standalone_stop = True, env_standalone_running = Some True,
     env_coordinator_start = StartTimeout, env_coordinator_ready = Started, env_coordinator_stop = True,
     env_worker_start = Started, env_worker_running = Some True, env_worker_stop = True,
     env_peer_drain = True, env_peer_stop_worker = True\<rparr>"

definition sample_world :: "cluster_state \<Rightarrow> world" where
  "sample_world st = \<lparr>rw_cluster = snapshot_new 5 Coordinator PairedStandalone st True None,
     rw_gate = \<lparr>the_gate = \<lparr>ag_state = Serving, ag_closed = False, ag_in_flight = 1, ag_max_in_flight = 4,
       ag_drain_generation = None\<rparr>, held = 1\<rparr>,
     rw_target = LocalStandalone, rw_target_ready = True,
     rw_failures = \<lparr>pt_backoff_millis = 60000, pt_maximum = 3, pt_status = pf_clear\<rparr>,
     rw_log = [StandaloneStart 1 True]\<rparr>"

lemma sample_world_published: "published (sample_world PairedStandaloneReady)"
  by (simp add: sample_world_def published_def undrained_def serving_def available_def coherent_def
      mode_fits_def snapshot_new_def resolve_target_def)

text \<open>
  A node never has two children: whatever the calls answer, no sequence of operations of
  the coordinator starts the distributed coordinator while the standalone may still run, nor the
  standalone while the distributed coordinator may still run. A child may run from the moment
  its start is called, even if the start fails or times out, until a stop has succeeded.
\<close>
lemma coordinator_one_child:
  assumes "one_child (False, False) (rw_log w)"
  shows "one_child (False, False) (rw_log (coordinator_run w ops))"
proof -
  have "exclusive w \<Longrightarrow> exclusive (coordinator_run w ops)"
    unfolding coordinator_run_def
    by (induction ops arbitrary: w) (simp_all add: coordinator_act_exclusive)
  with assms show ?thesis by (simp add: exclusive_def)
qed



end
