(* ===== verification/Worker_Runtime.thy ===== *)
theory Worker_Runtime
  imports Runtime_World
begin

text \<open>
  The runtime that turns a paired worker into a distributed worker
  (\<open>WorkerDistributedRuntime\<close> of \<open>src/cluster/worker.rs\<close>). It owns the admission gate
  and the two children of the worker; the cluster state machine is driven by its caller. The
  lease is checked up to three times in \<open>prepare\<close> (\<open>env_lease_valid env n\<close>), and once
  per poll in \<open>wait_for_failure\<close>.
\<close>

section \<open>Errors\<close>

datatype worker_error =
  WeInvalidTiming
| WeDrain drain_error
| WeStandalone
| WeWorker
| WeStartupTimeout
| WeEarlyExit
| WeLeaseLost
| WeCleanup worker_error

fun worker_cluster_failure :: "worker_error \<Rightarrow> cluster_failure" where
  "worker_cluster_failure WeStartupTimeout = CfHelloTimeout"
| "worker_cluster_failure WeEarlyExit = CfHelloTimeout"
| "worker_cluster_failure WeLeaseLost = CfPeerLeaseLost"
| "worker_cluster_failure (WeDrain _) = CfDrainTimeout"
| "worker_cluster_failure WeStandalone = CfChildIdentityUnknown"
| "worker_cluster_failure WeWorker = CfChildIdentityUnknown"
| "worker_cluster_failure (WeCleanup _) = CfChildIdentityUnknown"
| "worker_cluster_failure WeInvalidTiming = CfStateCorrupt False"

text \<open>The durations are numbers of nanoseconds.\<close>

definition worker_runtime_new :: "nat \<Rightarrow> nat \<Rightarrow> nat \<Rightarrow> worker_error option" where
  "worker_runtime_new drain_timeout startup_timeout poll_interval =
     (if drain_timeout = 0 \<or> startup_timeout = 0 \<or> poll_interval = 0 then Some WeInvalidTiming else None)"

section \<open>Operations\<close>

definition cleanup_failure :: "environment \<Rightarrow> worker_error \<Rightarrow> ('e, worker_error) act" where
  "cleanup_failure env cause =
     seq (change_gate block) (\<lambda>_.
     seq (log_call (WorkerStop (env_worker_stop env))) (\<lambda>_.
     return_act (if env_worker_stop env then cause else WeCleanup cause)))"

definition fail_and_cleanup :: "environment \<Rightarrow> worker_error \<Rightarrow> (worker_error, 'a) act" where
  "fail_and_cleanup env cause = seq (cleanup_failure env cause) fail_act"

definition worker_prepare :: "environment \<Rightarrow> u64 \<Rightarrow> (worker_error, unit) act" where
  "worker_prepare env gen =
     seq (run_drain env gen) (\<lambda>drained.
     seq (require_drained WeDrain drained) (\<lambda>_.
     if \<not> env_lease_valid env 0 then fail_and_cleanup env WeLeaseLost
     else on_result (call (StandaloneStop (env_standalone_stop env)) (env_standalone_stop env) WeStandalone)
       (\<lambda>_.
         if \<not> env_lease_valid env 1 then fail_and_cleanup env WeLeaseLost
         else on_result (timed_call (WorkerStart gen (env_worker_start env)) (env_worker_start env)
                 WeWorker WeStartupTimeout)
           (\<lambda>_.
             if \<not> env_lease_valid env 2 then fail_and_cleanup env WeLeaseLost
             else case env_worker_running env of
               Some True \<Rightarrow> return_act ()
             | Some False \<Rightarrow> fail_and_cleanup env WeEarlyExit
             | None \<Rightarrow> fail_and_cleanup env WeWorker)
           (fail_and_cleanup env))
       (fail_and_cleanup env)))"

definition worker_cancel :: "environment \<Rightarrow> (worker_error, unit) act" where
  "worker_cancel env =
     seq (change_gate block) (\<lambda>_.
     call (WorkerStop (env_worker_stop env)) (env_worker_stop env) WeWorker)"

text \<open>The polls of \<open>wait_for_failure\<close>: the lease, and the answer of \<open>is_running\<close>. A
  list that ends before a failure is seen stands for a monitor that is still waiting.\<close>

fun wait_for_failure :: "environment \<Rightarrow> (bool \<times> bool option) list \<Rightarrow> world \<Rightarrow> (worker_error \<times> world) option" where
  "wait_for_failure env [] w = None"
| "wait_for_failure env ((lease, running) # polls) w =
     (let failed = (\<lambda>cause. case cleanup_failure env cause w of
          (Inr e, v) \<Rightarrow> Some (e, v) | (Inl e, v) \<Rightarrow> Some (e, v))
      in if \<not> lease then failed WeLeaseLost
         else case running of
           Some True \<Rightarrow> wait_for_failure env polls w
         | Some False \<Rightarrow> failed WeEarlyExit
         | None \<Rightarrow> failed WeWorker)"

section \<open>Publication and children\<close>

lemma wp_caseI: "(x = None \<Longrightarrow> wp m Q E w) \<Longrightarrow> (x = Some True \<Longrightarrow> wp n Q E w) \<Longrightarrow> (x = Some False \<Longrightarrow> wp k Q E w) \<Longrightarrow>
   wp (case x of Some True \<Rightarrow> n | Some False \<Rightarrow> k | None \<Rightarrow> m) Q E w"
  by (cases x) (auto split: bool.split)

lemma fail_and_cleanup_shuts:
  "undrained w \<Longrightarrow> (\<And>e v. shut v \<Longrightarrow> rw_cluster v = rw_cluster w \<Longrightarrow> E e v) \<Longrightarrow> wp (fail_and_cleanup env cause) Q E w"
  unfolding fail_and_cleanup_def cleanup_failure_def
  by (intro wp_seqI block_shuts log_shut wp_returnI wp_failI) auto

lemma worker_prepare_shuts:
  assumes "calm env" "undrained w"
  shows "wp (worker_prepare env gen) (\<lambda>_ v. shut v \<and> rw_cluster v = rw_cluster w)
     (\<lambda>_ v. shut v \<and> rw_cluster v = rw_cluster w) w"
  unfolding worker_prepare_def
  using assms
  by (intro wp_seqI wp_drainedI wp_ifI wp_onI wp_caseI wp_returnI drain_shuts fail_and_cleanup_shuts shut_rules)
    (auto intro: shut_undrained)

lemma worker_cancel_shuts:
  assumes "undrained w"
  shows "wp (worker_cancel env) (\<lambda>_ v. shut v \<and> rw_cluster v = rw_cluster w)
     (\<lambda>_ v. shut v \<and> rw_cluster v = rw_cluster w) w"
  unfolding worker_cancel_def
  by (intro wp_seqI block_shuts [OF assms] call_shut) auto

lemma fail_and_cleanup_log:
  "(\<And>e v. rw_log v = rw_log w @ [WorkerStop (env_worker_stop env)] \<Longrightarrow> E e v) \<Longrightarrow>
   wp (fail_and_cleanup env cause) Q E w"
  unfolding fail_and_cleanup_def cleanup_failure_def
  by (intro wp_seqI log_rules wp_returnI wp_failI) auto

lemma worker_prepare_exclusive:
  assumes "exclusive w"
  shows "wp (worker_prepare env gen) (\<lambda>_. exclusive) (\<lambda>_. exclusive) w"
  by (rule exclusiveE [OF assms], unfold worker_prepare_def,
      intro wp_seqI wp_drainedI wp_ifI wp_onI wp_caseI wp_returnI log_rules fail_and_cleanup_log)
    (auto simp: exclusive_simps)

lemma worker_cancel_exclusive:
  assumes "exclusive w"
  shows "wp (worker_cancel env) (\<lambda>_. exclusive) (\<lambda>_. exclusive) w"
  by (rule exclusiveE [OF assms], unfold worker_cancel_def, intro wp_seqI log_rules)
    (simp_all add: exclusive_simps)

text \<open>A preparation that succeeds leaves the worker's child running alone and the gate blocked
  with nothing in flight; one that fails leaves no child that was not stopped, unless the stop
  itself failed and says so.\<close>

lemma worker_prepare_children:
  assumes "exclusive w" "worker_prepare env gen w = (r, v)"
  shows "case r of
      Inr _ \<Rightarrow> may_run (rw_log v) = (False, True) \<and> env_worker_running env = Some True
    | Inl (WeDrain _) \<Rightarrow> rw_log v = rw_log w
    | Inl (WeCleanup _) \<Rightarrow> \<not> env_worker_stop env
    | Inl _ \<Rightarrow> \<not> snd (may_run (rw_log v))"
proof -
  from assms(1) obtain s d where sd: "foldl child_step (False, False) (rw_log w) = (s, d)"
    by (elim exclusiveE)
  have "wp (worker_prepare env gen)
     (\<lambda>_ u. may_run (rw_log u) = (False, True) \<and> env_worker_running env = Some True)
     (\<lambda>e u. case e of WeDrain _ \<Rightarrow> rw_log u = rw_log w | WeCleanup _ \<Rightarrow> \<not> env_worker_stop env
        | _ \<Rightarrow> \<not> snd (may_run (rw_log u))) w"
    unfolding worker_prepare_def
    by (simp add: wp_eqs fail_and_cleanup_def cleanup_failure_def Let_def may_run_def sd
        split: option.split start_outcome.split bool.split)
  with assms(2) show ?thesis by (auto simp: wp_def split: sum.splits worker_error.splits)
qed

end
