(* ===== verification/Mode_Runtime.thy ===== *)
theory Mode_Runtime
  imports Runtime_World Control_Plane
begin

text \<open>
  The runtime of a node that runs its own child and pairs with its peer (\<open>ModeRuntime\<close> of
  \<open>src/cluster/runtime.rs\<close>). The role is fixed when the runtime is spawned and is an argument
  here. The owner of an event only reaches the log lines and is left out.
\<close>

section \<open>Operations\<close>

datatype mode_error = MeTransition transition_error | MeDrain drain_error | MeLocal

definition apply_proxy_snapshot :: "cluster_snapshot \<Rightarrow> ('e, unit) act" where
  "apply_proxy_snapshot c = set_target (cs_target c) (available (cs_target c))"

text \<open>The two lines that end an operation: publish the snapshot and serve.\<close>

definition publish_and_serve :: "cluster_snapshot \<Rightarrow> ('e, cluster_snapshot) act" where
  "publish_and_serve c =
     seq (apply_proxy_snapshot c) (\<lambda>_. seq (change_gate start_serving) (\<lambda>_. return_act c))"

definition boot :: "local_role \<Rightarrow> u64 \<Rightarrow> ('e, unit) act" where
  "boot role baseline = modify_act (\<lambda>w. w\<lparr>rw_cluster := booting_at role baseline\<rparr>)"

definition spawn_ready_at :: "environment \<Rightarrow> local_role \<Rightarrow> u64 \<Rightarrow> (mode_error, cluster_snapshot) act" where
  "spawn_ready_at env role baseline =
     seq (boot role baseline) (\<lambda>_.
     on_result
       (seq (apply_event MeTransition baseline BeginSoloStandalone) (\<lambda>starting.
        seq (call (StandaloneStart (cs_generation starting) (env_standalone_start env))
              (env_standalone_start env) MeLocal) (\<lambda>_.
        apply_event MeTransition (cs_generation starting) LocalStandaloneReady)))
       publish_and_serve
       (\<lambda>e. seq (log_call (StandaloneStop (env_standalone_stop env))) (\<lambda>_. fail_act e)))"

definition spawn_manual_at :: "local_role \<Rightarrow> u64 \<Rightarrow> (mode_error, cluster_snapshot) act" where
  "spawn_manual_at role baseline =
     seq (boot role baseline) (\<lambda>_.
     seq (apply_event MeTransition baseline RequireManualIntervention) (\<lambda>manual.
     seq (apply_proxy_snapshot manual) (\<lambda>_.
     seq (change_gate block) (\<lambda>_.
     return_act manual))))"

definition form_pair :: "environment \<Rightarrow> local_role \<Rightarrow> cluster_snapshot \<Rightarrow> (mode_error, cluster_snapshot) act" where
  "form_pair env role cur =
     seq (apply_event MeTransition (cs_generation cur) BeginPairing) (\<lambda>pairing.
     seq (if role = Worker
          then
            seq (run_drain env (cs_generation pairing)) (\<lambda>drained.
            seq (require_drained MeDrain drained) (\<lambda>_.
            call (StandaloneStop (env_standalone_stop env)) (env_standalone_stop env) MeLocal))
          else change_gate block) (\<lambda>_.
     seq (apply_event MeTransition (cs_generation pairing) PairingReady)
       publish_and_serve))"

definition fallback_to_solo :: "environment \<Rightarrow> local_role \<Rightarrow> cluster_snapshot \<Rightarrow> (mode_error, cluster_snapshot) act" where
  "fallback_to_solo env role cur =
     seq block_transition (\<lambda>_.
     seq (apply_event MeTransition (cs_generation cur) PeerLost) (\<lambda>starting.
     seq (if role = Worker
          then call (StandaloneStart (cs_generation starting) (env_standalone_start env))
                 (env_standalone_start env) MeLocal
          else return_act ()) (\<lambda>_.
     seq (apply_event MeTransition (cs_generation starting) LocalStandaloneReady)
       publish_and_serve)))"

definition two_node_states :: "cluster_state set" where
  "two_node_states = {Pairing, PairedStandaloneReady, AwaitingWorkerHello, Promoting,
     DistributedStarting, DistributedReady, Demoting}"

definition reconcile_peer_with_presence ::
  "environment \<Rightarrow> local_role \<Rightarrow> bool \<Rightarrow> (mode_error, cluster_snapshot) act" where
  "reconcile_peer_with_presence env role present =
     seq get_snapshot (\<lambda>current.
     if role = Unknown then return_act current
     else if cs_state current = SoloStandaloneReady \<and> present then form_pair env role current
     else if cs_state current \<in> two_node_states \<and> \<not> present then fallback_to_solo env role current
     else return_act current)"

definition mode_reconcile_peer ::
  "environment \<Rightarrow> local_role \<Rightarrow> peer_lease \<Rightarrow> u64 \<Rightarrow> (mode_error, cluster_snapshot) act" where
  "mode_reconcile_peer env role lease now = reconcile_peer_with_presence env role (peer_present lease now)"

definition reconcile_local :: "environment \<Rightarrow> (mode_error, cluster_snapshot) act" where
  "reconcile_local env =
     seq get_snapshot (\<lambda>current.
     if cs_state current \<noteq> SoloStandaloneReady then return_act current
     else case env_standalone_running env of
       None \<Rightarrow> fail_act MeLocal
     | Some True \<Rightarrow> return_act current
     | Some False \<Rightarrow>
         seq block_transition (\<lambda>_.
         seq (apply_event MeTransition (cs_generation current) LocalStandaloneLost) (\<lambda>starting.
         seq (call (StandaloneStart (cs_generation starting) (env_standalone_start env))
               (env_standalone_start env) MeLocal) (\<lambda>_.
         seq (apply_event MeTransition (cs_generation starting) LocalStandaloneReady)
           publish_and_serve))))"

section \<open>Publication\<close>

lemma publish_and_serve_eq: "publish_and_serve c = serve_snapshot (available (cs_target c)) True c"
  by (simp add: publish_and_serve_def apply_proxy_snapshot_def serve_snapshot_def)

lemma wp_runningI:
  "(x = None \<Longrightarrow> wp m Q E w) \<Longrightarrow> (x = Some True \<Longrightarrow> wp n Q E w) \<Longrightarrow> (x = Some False \<Longrightarrow> wp k Q E w) \<Longrightarrow>
   wp (case x of None \<Rightarrow> m | Some True \<Rightarrow> n | Some False \<Rightarrow> k) Q E w"
  by (cases x) (auto split: bool.split)

context gate_contract
begin

lemma form_pair_keeps:
  assumes "calm env" "P w"
  shows "wp (form_pair env role (rw_cluster w)) (\<lambda>_. P) (\<lambda>_. P) w"
  unfolding form_pair_def publish_and_serve_eq
  by (intro wp_seqI wp_ifI wp_drainedI apply_undrained [OF undrained [OF assms(2)]]
      drain_shuts [OF assms(1)] block_shuts shut_rules)
    (auto simp: ready_kind_def assms intro: serve_ready shut_undrained shut_kept publish)

lemma fallback_keeps:
  assumes "P w"
  shows "wp (fallback_to_solo env role (rw_cluster w)) (\<lambda>_. P) (\<lambda>_. P) w"
  unfolding fallback_to_solo_def publish_and_serve_eq
  by (intro wp_seqI wp_ifI wp_returnI block_transition_shuts [OF undrained [OF assms]] shut_rules)
    (auto simp: ready_kind_def intro: serve_ready shut_undrained shut_kept publish)

lemma reconcile_peer_keeps:
  assumes "calm env" "P w"
  shows "wp (reconcile_peer_with_presence env role present) (\<lambda>_. P) (\<lambda>_. P) w"
  unfolding reconcile_peer_with_presence_def
  by (intro wp_seqI wp_snapshotI wp_ifI wp_returnI)
    (simp_all add: form_pair_keeps fallback_keeps assms)

lemma reconcile_local_keeps:
  assumes "P w"
  shows "wp (reconcile_local env) (\<lambda>_. P) (\<lambda>_. P) w"
  unfolding reconcile_local_def publish_and_serve_eq
  by (intro wp_seqI wp_snapshotI wp_ifI wp_runningI wp_returnI wp_failI
      block_transition_shuts [OF undrained [OF assms]] shut_rules)
    (auto simp: ready_kind_def assms intro: serve_ready shut_undrained shut_kept publish)

end

text \<open>A freshly spawned runtime publishes, whatever the proxy held before, if its gate was shut.\<close>

lemma boot_shut:
  "\<not> serving w \<Longrightarrow> (\<And>v. shut v \<Longrightarrow> rw_cluster v = booting_at role baseline \<Longrightarrow> Q () v) \<Longrightarrow>
   wp (boot role baseline) Q E w"
  by (simp add: boot_def wp_modify shut_def serving_def)

lemma spawn_ready_publishes:
  assumes "\<not> serving w"
  shows "wp (spawn_ready_at env role baseline) (\<lambda>_. published) (\<lambda>_. published) w"
  unfolding spawn_ready_at_def publish_and_serve_eq
  by (intro wp_seqI wp_onI boot_shut [OF assms] wp_failI shut_rules)
    (auto simp: ready_kind_def intro: serve_ready shut_undrained shut_published)

lemma spawn_manual_publishes:
  assumes "\<not> serving w"
  shows "wp (spawn_manual_at role baseline) (\<lambda>_. published) (\<lambda>_. published) w"
  unfolding spawn_manual_at_def apply_proxy_snapshot_def
  by (intro wp_seqI boot_shut [OF assms] block_shuts wp_returnI shut_rules)
    (auto intro: shut_undrained shut_published)

section \<open>Falling back and getting stuck\<close>

lemma fallback_settles:
  assumes "cs_state (rw_cluster w) \<in> two_node_states" "env_standalone_start env"
  shows "wp (fallback_to_solo env role (rw_cluster w)) (\<lambda>_. at_rest {SoloStandaloneReady} True) (\<lambda>_ _. False) w"
  unfolding fallback_to_solo_def publish_and_serve_eq
  using assms
  by (intro wp_seqI wp_ifI wp_returnI cluster_kept apply_known serve_settles)
    (auto simp: two_node_states_def)

text \<open>
  A worker whose requests do not end within the drain timeout while it pairs is left
  stranded: the attempt fails with the timeout, the cluster stays in \<open>Pairing\<close> with a gate
  that does not serve, and every further reconciliation with the peer present changes nothing.
  Only the loss of the peer ends it.
\<close>
lemma pairing_timeout_strands_worker:
  assumes "cs_state (rw_cluster w) = SoloStandaloneReady" "calm env" "published w"
    and "fst (drain (rw_gate w) (cs_generation (rw_cluster w) + 1) (env_waiting env) (env_between env)) = Some Timeout"
  shows "\<exists>v. reconcile_peer_with_presence env Worker True w = (Inl (MeDrain Timeout), v)
    \<and> cs_state (rw_cluster v) = Pairing \<and> \<not> serving v
    \<and> (\<forall>env'. reconcile_peer_with_presence env' Worker True v = (Inr (rw_cluster v), v))"
proof -
  have "ag_state (the_gate (snd (drain (rw_gate w) (cs_generation (rw_cluster w) + 1) (env_waiting env) (env_between env)))) \<noteq> Serving"
    using assms(3) by (intro drain_not_serving [OF assms(2)]) (simp add: published_def undrained_def serving_def)
  with assms(1,4) show ?thesis
    by (auto simp: reconcile_peer_with_presence_def seq_def get_snapshot_def form_pair_def apply_event_def
        transition_new snapshot_new_def run_drain_def require_drained_def fail_act_def return_act_def
        two_node_states_def serving_def split: prod.splits)
qed

definition busy_worker :: world where
  "busy_worker = \<lparr>rw_cluster = snapshot_new 2 Worker SoloStandalone SoloStandaloneReady True None,
     rw_gate = \<lparr>the_gate = \<lparr>ag_state = Serving, ag_closed = False, ag_in_flight = 2, ag_max_in_flight = 4,
       ag_drain_generation = None\<rparr>, held = 2\<rparr>,
     rw_target = LocalStandalone, rw_target_ready = True,
     rw_failures = \<lparr>pt_backoff_millis = 60000, pt_maximum = 3, pt_status = pf_clear\<rparr>, rw_log = []\<rparr>"

definition slow_environment :: environment where
  "slow_environment = \<lparr>env_waiting = [DropPermit], env_between = [], env_lease_valid = (\<lambda>n. True),
     env_standalone_start = True, env_standalone_stop = True, env_standalone_running = Some True,
     env_coordinator_start = Started, env_coordinator_ready = Started, env_coordinator_stop = True,
     env_worker_start = Started, env_worker_running = Some True, env_worker_stop = True,
     env_peer_drain = True, env_peer_stop_worker = True\<rparr>"

end
