(* ===== verification/Planned_Restart.thy ===== *)
theory Planned_Restart
  imports Sds_Prelude
begin

text \<open>
  The gate of a planned restart on the worker (\<open>PlannedRestartGate\<close> of
  \<open>src/cluster/production.rs\<close>): one atomic byte that hands a \<open>Pair\<close> received while the
  distributed child is still stopping over to the task that stops it. The methods with a
  compare-and-exchange loop are modelled twice: as the loop, fed with the values that the loads
  and the exchanges happen to see, and as the atomic step the loop implements.
\<close>

section \<open>States and methods\<close>

datatype restart_state = Idle | ChildRunning | ChildStopped | PairPending | PairCompleting

datatype pair_action = Run | RunAfterChildStop | Defer | AlreadyCompleting

definition restart_active :: "restart_state \<Rightarrow> bool" where
  "restart_active s \<longleftrightarrow> s \<noteq> Idle"

text \<open>A compare-and-exchange whose failure is ignored.\<close>

definition exchange :: "restart_state \<Rightarrow> restart_state \<Rightarrow> restart_state \<Rightarrow> restart_state" where
  "exchange expected new s = (if s = expected then new else s)"

definition begin_restart :: "restart_state \<Rightarrow> restart_state" where
  "begin_restart = exchange Idle ChildRunning"

definition cancel_restart :: "restart_state \<Rightarrow> restart_state" where
  "cancel_restart s = Idle"

definition blocks_worker_prepare :: "restart_state \<Rightarrow> bool" where
  "blocks_worker_prepare s \<longleftrightarrow> s \<in> {ChildRunning, PairPending}"

definition retry_pair_after_failure :: "restart_state \<Rightarrow> restart_state" where
  "retry_pair_after_failure = exchange PairCompleting ChildStopped"

text \<open>What an iteration does with the value it loaded: return at once, or try to exchange that
  value for another one and return if the exchange succeeds.\<close>

fun pair_iteration :: "restart_state \<Rightarrow> pair_action \<times> restart_state option" where
  "pair_iteration Idle = (Run, None)"
| "pair_iteration ChildRunning = (Defer, Some PairPending)"
| "pair_iteration ChildStopped = (RunAfterChildStop, Some PairCompleting)"
| "pair_iteration PairPending = (Defer, None)"
| "pair_iteration PairCompleting = (AlreadyCompleting, None)"

fun stopped_iteration :: "restart_state \<Rightarrow> bool \<times> restart_state option" where
  "stopped_iteration Idle = (False, None)"
| "stopped_iteration ChildStopped = (False, None)"
| "stopped_iteration PairCompleting = (False, None)"
| "stopped_iteration ChildRunning = (False, Some ChildStopped)"
| "stopped_iteration PairPending = (True, Some PairCompleting)"

text \<open>The loop: each element of the list is the value the load sees and the value the exchange
  finds. The result is the value returned, the state at the moment that decided it, and the
  state written there; \<open>None\<close> if the list ends first.\<close>

fun exchange_loop ::
  "(restart_state \<Rightarrow> 'r \<times> restart_state option) \<Rightarrow> (restart_state \<times> restart_state) list \<Rightarrow>
   ('r \<times> restart_state \<times> restart_state) option" where
  "exchange_loop iter [] = None"
| "exchange_loop iter ((loaded, found) # rest) =
     (case iter loaded of
        (r, None) \<Rightarrow> Some (r, loaded, loaded)
      | (r, Some new) \<Rightarrow> if found = loaded then Some (r, found, new) else exchange_loop iter rest)"

definition pair_action_loop where
  "pair_action_loop = exchange_loop pair_iteration"

definition note_child_stopped_loop where
  "note_child_stopped_loop = exchange_loop stopped_iteration"

text \<open>The atomic steps.\<close>

definition atomically :: "(restart_state \<Rightarrow> 'r \<times> restart_state option) \<Rightarrow> restart_state \<Rightarrow> 'r \<times> restart_state" where
  "atomically iter s = (fst (iter s), case snd (iter s) of None \<Rightarrow> s | Some new \<Rightarrow> new)"

definition pair_action :: "restart_state \<Rightarrow> pair_action \<times> restart_state" where
  "pair_action = atomically pair_iteration"

definition note_child_stopped :: "restart_state \<Rightarrow> bool \<times> restart_state" where
  "note_child_stopped = atomically stopped_iteration"

section \<open>Histories\<close>

datatype restart_op = Begin | Cancel | Pair | ChildIsStopped | Retry

fun restart_next :: "restart_state \<Rightarrow> restart_op \<Rightarrow> restart_state" where
  "restart_next s Begin = begin_restart s"
| "restart_next s Cancel = cancel_restart s"
| "restart_next s Pair = snd (pair_action s)"
| "restart_next s ChildIsStopped = snd (note_child_stopped s)"
| "restart_next s Retry = retry_pair_after_failure s"

text \<open>The step makes its caller complete the deferred pairing.\<close>

fun completes :: "restart_state \<Rightarrow> restart_op \<Rightarrow> bool" where
  "completes s Pair \<longleftrightarrow> fst (pair_action s) = RunAfterChildStop"
| "completes s ChildIsStopped \<longleftrightarrow> fst (note_child_stopped s)"
| "completes s _ \<longleftrightarrow> False"

definition restart_run :: "restart_state \<Rightarrow> restart_op list \<Rightarrow> restart_state" where
  "restart_run = foldl restart_next"

lemmas restart_defs = begin_restart_def cancel_restart_def pair_action_def note_child_stopped_def
  retry_pair_after_failure_def exchange_def atomically_def

section \<open>Lemmas\<close>

lemma exchange_loop_atomic: "exchange_loop iter xs = Some (r, s, t) \<Longrightarrow> atomically iter s = (r, t)"
proof (induction iter xs rule: exchange_loop.induct)
  case (2 iter loaded found rest)
  then show ?case by (auto simp: atomically_def split: prod.splits option.splits if_splits)
qed simp

text \<open>Without interference the loop returns in its first round.\<close>

lemma exchange_loop_returns: "\<exists>r t. exchange_loop iter ((s, s) # rest) = Some (r, s, t)"
  by (cases "iter s") (auto split: option.splits)

text \<open>What the child is known to have done since the last restart began, as a ghost of the
  history: the state in which it is stopped or completing is reached only through a report.\<close>

definition stop_known :: "restart_op list \<Rightarrow> bool" where
  "stop_known ops \<longleftrightarrow> (\<exists>xs ys. ops = xs @ ChildIsStopped # ys \<and> restart_active (restart_run Idle xs)
     \<and> Cancel \<notin> set ys)"

lemma stop_known_now: "restart_active (restart_run Idle ops) \<Longrightarrow> stop_known (ops @ [ChildIsStopped])"
  unfolding stop_known_def by (rule exI [of _ ops], rule exI [of _ "[]"]) simp

lemma stop_known_later:
  assumes "stop_known ops" "op \<noteq> Cancel"
  shows "stop_known (ops @ [op])"
proof -
  obtain xs ys where "ops = xs @ ChildIsStopped # ys" "restart_active (restart_run Idle xs)" "Cancel \<notin> set ys"
    using assms(1) by (auto simp: stop_known_def)
  with assms(2) show ?thesis
    unfolding stop_known_def by (intro exI [of _ xs] exI [of _ "ys @ [op]"]) simp
qed

lemma stopped_state_known:
  "restart_run Idle ops \<in> {ChildStopped, PairCompleting} \<Longrightarrow> stop_known ops"
proof (induction ops rule: rev_induct)
  case (snoc op ops)
  then show ?case
    by (cases op; cases "restart_run Idle ops")
      (auto simp: restart_run_def restart_defs restart_active_def
        intro: stop_known_later stop_known_now [unfolded restart_run_def])
qed (simp add: restart_run_def)

lemma completing_until:
  "s = PairCompleting \<Longrightarrow> Cancel \<notin> set ops \<Longrightarrow> Retry \<notin> set ops \<Longrightarrow> restart_run s ops = PairCompleting"
proof (induction ops arbitrary: s)
  case (Cons op ops)
  then show ?case by (cases op) (auto simp: restart_run_def restart_defs)
qed (simp add: restart_run_def)

lemma completes_next: "completes s op \<Longrightarrow> restart_next s op = PairCompleting"
  by (cases op; cases s) (auto simp: restart_defs)

section \<open>Properties\<close>

text \<open>
  A pairing that arrives during a planned restart is completed safely: in every history of
  the gate, whoever is told to complete the deferred pairing, the task that received the
  \<open>Pair\<close> or the task that stopped the child, the child has been reported stopped during
  this restart, and nobody is told to complete it again unless in between the restart was
  cancelled, or the completion failed and was put back.
\<close>
lemma deferred_pair_completed_once:
  assumes "completes (restart_run Idle ops) op"
  shows "stop_known (ops @ [op])
    \<and> (completes (restart_run Idle (ops @ op # between)) op' \<longrightarrow> Cancel \<in> set between \<or> Retry \<in> set between)"
proof (intro conjI impI)
  show "stop_known (ops @ [op])"
    using assms stopped_state_known [of ops]
    by (cases op; cases "restart_run Idle ops")
      (auto simp: restart_defs restart_active_def intro: stop_known_later stop_known_now)
  show "Cancel \<in> set between \<or> Retry \<in> set between"
    if again: "completes (restart_run Idle (ops @ op # between)) op'"
  proof (rule ccontr)
    assume "\<not> ?thesis"
    with completing_until [OF completes_next [OF assms], of between]
    have "restart_run Idle (ops @ op # between) = PairCompleting" by (simp add: restart_run_def)
    with again show False by (cases op') (simp_all add: restart_defs)
  qed
qed



end
