(* ===== verification/Production_Node.thy ===== *)
theory Production_Node
  imports Mode_Runtime Worker_Runtime Coordinator_Runtime Planned_Restart Role_Control Policy_Control
begin

text \<open>
  The node of a layer-parallel cluster as the production runtime assembles it
  (\<open>src/cluster/production.rs\<close> and \<open>src/cluster/production/\<close>): the world of its runtimes,
  its side of the control protocol, the gate of a planned restart, the recovery from the loss of
  the peer, the latches and the operation policy. This theory models the recovery
  (\<open>recovery.rs\<close>), the reconciliation (\<open>reconcile.rs\<close>), the control requests and
  their effects (\<open>effects.rs\<close>, \<open>worker.rs\<close>), pairing, promotion and demotion
  (\<open>pairing.rs\<close>), and the planned restart and operator reconcile
  (\<open>production.rs\<close>). Tensor-parallel nodes take other paths and are not modelled here, so
  \<open>inner.tp\<close> is absent. An operation of the node runs to its end before the next one,
  except where it waits: there the requests that arrive are part of its inputs.
\<close>

section \<open>State\<close>

datatype role_control = CoordinatorSide coordinator_control | WorkerSide worker_control

record node =
  pn_world :: world
  pn_control :: role_control
  pn_restart :: restart_state
  pn_completed_generation :: u64
  pn_pairing_blocked :: bool
  pn_recovery_owner :: bool
  pn_policy :: operation_policy
  pn_policy_epoch :: u64
  pn_policy_pending :: bool
  pn_lease_expires_at :: u64
  pn_auto_promote :: bool
  pn_auto_pair :: bool

text \<open>The client's errors: an answer \<open>412 Precondition Failed\<close> is the peer's deployment
  mismatch, everything else is a failure of the request.\<close>

datatype send_error = SendFailed | SendMismatch

text \<open>\<open>Ds4HelloError\<close>, as far as a promotion distinguishes it, and
  \<open>PromotionHelloError\<close>; a preflight error is a bad layer range (\<open>None\<close>) or an error
  of the client.\<close>

datatype hello_error = HelloTimeout | HelloMismatch | HelloRejected

datatype promotion_hello_error =
  PhRendezvous hello_error
| PhControl control_error
| PhPreflight "send_error option"
| PhWorkerStartupTimeout

datatype node_error =
  NeTransition transition_error
| NeMode mode_error
| NeCoordinator coordinator_error
| NeWorker worker_error
| NeControl control_error
| NeDistributedStop
| NeStandalone
| NeState cluster_state
| NeSend send_error
| NeWrongRole
| NeRecoveryOwner
| NePolicyGate
| NePromotion promotion_hello_error
| NeDrainAck
| NeRouteMonitor

type_synonym 'a nact = "(node, node_error, 'a) sact"

fun control_lease :: "role_control \<Rightarrow> peer_lease" where
  "control_lease (CoordinatorSide c) = cp_lease (co_processor c)"
| "control_lease (WorkerSide w) = cp_lease (wk_processor w)"

fun control_role :: "role_control \<Rightarrow> local_role" where
  "control_role (CoordinatorSide c) = Coordinator"
| "control_role (WorkerSide w) = Worker"

abbreviation pn_role :: "node \<Rightarrow> local_role" where
  "pn_role n \<equiv> control_role (pn_control n)"

abbreviation pn_snapshot :: "node \<Rightarrow> cluster_snapshot" where
  "pn_snapshot n \<equiv> rw_cluster (pn_world n)"

definition pn_peer_present :: "node \<Rightarrow> u64 \<Rightarrow> bool" where
  "pn_peer_present n now = peer_present (control_lease (pn_control n)) now"

text \<open>\<open>LeaseStatus\<close>\<close>

definition lease_update :: "control_response \<Rightarrow> node \<Rightarrow> node" where
  "lease_update r n =
     (case rsp_lease_expires_at r of None \<Rightarrow> n | Some t \<Rightarrow> n\<lparr>pn_lease_expires_at := t\<rparr>)"

definition lease_valid :: "node \<Rightarrow> u64 \<Rightarrow> bool" where
  "lease_valid n now \<longleftrightarrow> now < pn_lease_expires_at n"

section \<open>Actions of a node\<close>

definition on_world :: "('e \<Rightarrow> node_error) \<Rightarrow> ('e, 'a) act \<Rightarrow> 'a nact" where
  "on_world wrap m n = (case m (pn_world n) of (r, w) \<Rightarrow> (map_sum wrap id r, n\<lparr>pn_world := w\<rparr>))"

definition get_node :: "node nact" where
  "get_node n = (Inr n, n)"

abbreviation node_snapshot :: "cluster_snapshot nact" where
  "node_snapshot \<equiv> on_world NeTransition get_snapshot"

abbreviation node_apply :: "u64 \<Rightarrow> cluster_event_kind \<Rightarrow> cluster_snapshot nact" where
  "node_apply gen k \<equiv> on_world id (apply_event NeTransition gen k)"

lemma wp_on_world [wp_eqs]:
  "wp (on_world wrap m) Q E n =
     wp m (\<lambda>a w. Q a (n\<lparr>pn_world := w\<rparr>)) (\<lambda>e w. E (wrap e) (n\<lparr>pn_world := w\<rparr>)) (pn_world n)"
  by (simp add: wp_def on_world_def split: prod.splits sum.splits)

lemma wp_get_node [wp_eqs]: "wp get_node Q E n = Q n n"
  by (simp add: wp_def get_node_def)

section \<open>Recovery from the loss of the peer\<close>

definition reset_for_repair :: "u64 \<Rightarrow> node \<Rightarrow> node" where
  "reset_for_repair now n = n\<lparr>pn_control :=
     (case pn_control n of
        CoordinatorSide c \<Rightarrow> CoordinatorSide (coordinator_reset_for_repair c now)
      | WorkerSide w \<Rightarrow> WorkerSide (worker_reset_for_repair w now))\<rparr>"

definition stop_distributed_child :: "environment \<Rightarrow> local_role \<Rightarrow> (node_error, unit) act" where
  "stop_distributed_child env role =
     (case role of
        Coordinator \<Rightarrow> call (CoordinatorStop (env_coordinator_stop env)) (env_coordinator_stop env) NeDistributedStop
      | Worker \<Rightarrow> call (WorkerStop (env_worker_stop env)) (env_worker_stop env) NeDistributedStop
      | Unknown \<Rightarrow> return_act ())"

text \<open>The stages of \<open>recover_to_solo\<close> after the early returns.\<close>

definition begin_recovery :: "cluster_snapshot \<Rightarrow> cluster_event_kind \<Rightarrow> (node_error, cluster_snapshot) act" where
  "begin_recovery cur event =
     seq block_transition (\<lambda>_.
     if cs_state cur = SoloStandaloneStarting then return_act cur
     else apply_event NeTransition (cs_generation cur) event)"

definition finish_recovery :: "environment \<Rightarrow> local_role \<Rightarrow> cluster_snapshot \<Rightarrow> (node_error, cluster_snapshot) act" where
  "finish_recovery env role starting =
     seq (stop_distributed_child env role) (\<lambda>_.
     seq (call (StandaloneStart (cs_generation starting) (env_standalone_start env))
           (env_standalone_start env) NeStandalone) (\<lambda>_.
     seq (apply_event NeTransition (cs_generation starting) LocalStandaloneReady)
       (serve_snapshot True True)))"

definition recover_to_solo :: "environment \<Rightarrow> u64 \<Rightarrow> cluster_event_kind \<Rightarrow> cluster_snapshot nact" where
  "recover_to_solo env now event =
     seq get_node (\<lambda>n.
     let cur = pn_snapshot n in
     if restart_active (pn_restart n) then return_act cur
     else if cs_state cur = SoloStandaloneReady
     then
       (if event = cluster_event_kind.DeploymentMismatch
        then on_world id (seq (apply_event NeTransition (cs_generation cur) event) (serve_snapshot True True))
        else return_act cur)
     else if cs_generation cur \<le> pn_completed_generation n then return_act cur
     else
       seq (on_world id (begin_recovery cur event)) (\<lambda>starting.
       seq (modify_act (reset_for_repair now)) (\<lambda>_.
       seq (on_world id (finish_recovery env (pn_role n) starting)) (\<lambda>ready.
       seq (modify_act (\<lambda>n. n\<lparr>pn_completed_generation := cs_generation ready\<rparr>)) (\<lambda>_.
       return_act ready)))))"

definition recover_from_peer_loss :: "environment \<Rightarrow> u64 \<Rightarrow> cluster_snapshot nact" where
  "recover_from_peer_loss env now =
     seq get_node (\<lambda>n.
     if restart_active (pn_restart n) then return_act (pn_snapshot n)
     else recover_to_solo env now PeerLost)"

definition recover_from_forced_policy :: "environment \<Rightarrow> u64 \<Rightarrow> cluster_snapshot nact" where
  "recover_from_forced_policy env now = recover_to_solo env now PeerLost"

definition recover_from_deployment_mismatch :: "environment \<Rightarrow> u64 \<Rightarrow> cluster_snapshot nact" where
  "recover_from_deployment_mismatch env now =
     seq (modify_act (\<lambda>n. n\<lparr>pn_pairing_blocked := True\<rparr>)) (\<lambda>_.
     recover_to_solo env now cluster_event_kind.DeploymentMismatch)"

section \<open>Reconciliation\<close>

definition requires_solo_fallback :: "cluster_state \<Rightarrow> bool" where
  "requires_solo_fallback s \<longleftrightarrow> s \<in> {Pairing, PairedStandaloneReady, AwaitingWorkerHello, Promoting,
     DistributedStarting, DistributedReady, Demoting, Backoff, SoloStandaloneStarting}"

definition suppress_automatic_pairing :: "cluster_state \<Rightarrow> bool \<Rightarrow> bool \<Rightarrow> bool" where
  "suppress_automatic_pairing s present blocked \<longleftrightarrow> s = SoloStandaloneReady \<and> present \<and> blocked"

definition promotion_gate :: "node \<Rightarrow> bool \<Rightarrow> automatic_promotion_verdict" where
  "promotion_gate n present =
     automatic_promotion_gate (pn_policy n) (pn_policy_pending n) (pn_auto_promote n) (pn_pairing_blocked n)
       (pn_policy_epoch n) present (pn_policy_epoch n)"

definition node_reconcile_peer :: "environment \<Rightarrow> u64 \<Rightarrow> cluster_snapshot nact" where
  "node_reconcile_peer env now =
     seq get_node (\<lambda>n.
     let state = cs_state (pn_snapshot n); present = pn_peer_present n now in
     if restart_active (pn_restart n) then return_act (pn_snapshot n)
     else if \<not> present \<and> requires_solo_fallback state then recover_from_peer_loss env now
     else if suppress_automatic_pairing state present (pn_pairing_blocked n) then return_act (pn_snapshot n)
     else if pn_role n = Coordinator \<and> promotion_gate n present \<noteq> AllowPromotion
     then return_act (pn_snapshot n)
     else on_world NeMode (reconcile_peer_with_presence env (pn_role n) present))"

definition reconcile_periodic :: "environment \<Rightarrow> u64 \<Rightarrow> cluster_snapshot nact" where
  "reconcile_periodic env now =
     seq get_node (\<lambda>n.
     if pn_role n = Coordinator \<and> cs_state (pn_snapshot n) = Backoff
     then (if \<not> pn_peer_present n now then recover_from_peer_loss env now
           else on_world NeCoordinator (reconcile_backoff now))
     else node_reconcile_peer env now)"

text \<open>The answer of the peer to \<open>GET /v1/node\<close> decides whether the route is still trusted.\<close>

definition node_invalidate_route :: "node \<Rightarrow> node" where
  "node_invalidate_route n = n\<lparr>pn_control :=
     (case pn_control n of
        CoordinatorSide c \<Rightarrow> CoordinatorSide (c\<lparr>co_processor := (co_processor c)\<lparr>cp_lease := invalidate_route (cp_lease (co_processor c))\<rparr>\<rparr>)
      | WorkerSide w \<Rightarrow> WorkerSide (w\<lparr>wk_processor := (wk_processor w)\<lparr>cp_lease := invalidate_route (cp_lease (wk_processor w))\<rparr>\<rparr>))\<rparr>"

definition node_reconcile :: "environment \<Rightarrow> send_error + control_response \<Rightarrow> u64 \<Rightarrow> cluster_snapshot nact" where
  "node_reconcile env answer now =
     seq get_node (\<lambda>n.
     if restart_active (pn_restart n) then return_act (pn_snapshot n)
     else case answer of
       Inr r \<Rightarrow> seq (modify_act (lease_update r)) (\<lambda>_. reconcile_periodic env now)
     | Inl _ \<Rightarrow> seq (modify_act node_invalidate_route) (\<lambda>_. reconcile_periodic env now))"

section \<open>Effects of control commands\<close>

text \<open>What an effect reads from outside: the answers of the children, the peer's answer to a
  message sent to it and to \<open>GET /v1/node\<close>, fresh request identifiers, and the clock when it
  reconciles.\<close>

record effect_inputs =
  ei_env :: environment
  ei_send :: "control_message \<Rightarrow> send_error + control_response"
  ei_node :: "send_error + control_response"
  ei_request_id :: "nat \<Rightarrow> string"
  ei_now :: u64

definition send_via ::
  "(send_error \<Rightarrow> 'e) \<Rightarrow> effect_inputs \<Rightarrow> control_message \<Rightarrow> (node, 'e, control_response) sact" where
  "send_via wrap i m = (case ei_send i m of Inl e \<Rightarrow> fail_act (wrap e) | Inr r \<Rightarrow> return_act r)"

abbreviation send_message :: "effect_inputs \<Rightarrow> control_message \<Rightarrow> control_response nact" where
  "send_message \<equiv> send_via NeSend"

text \<open>A message of one side's control; composing it may change the phase.\<close>

definition coordinator_message ::
  "(control_error \<Rightarrow> 'e) \<Rightarrow> (coordinator_control \<Rightarrow> control_error + control_message \<times> coordinator_control) \<Rightarrow>
   'e \<Rightarrow> (node, 'e, control_message) sact" where
  "coordinator_message wrap f wrong_role n =
     (case pn_control n of
        WorkerSide _ \<Rightarrow> (Inl wrong_role, n)
      | CoordinatorSide c \<Rightarrow>
          (case f c of
             Inl e \<Rightarrow> (Inl (wrap e), n)
           | Inr (m, c') \<Rightarrow> (Inr m, n\<lparr>pn_control := CoordinatorSide c'\<rparr>)))"

definition worker_message ::
  "(worker_control \<Rightarrow> control_error + control_message \<times> worker_control) \<Rightarrow> control_message nact" where
  "worker_message f n =
     (case pn_control n of
        CoordinatorSide _ \<Rightarrow> (Inl NeWrongRole, n)
      | WorkerSide w \<Rightarrow>
          (case f w of
             Inl e \<Rightarrow> (Inl (NeControl e), n)
           | Inr (m, w') \<Rightarrow> (Inr m, n\<lparr>pn_control := WorkerSide w'\<rparr>)))"

definition require_worker :: "unit nact" where
  "require_worker n = (if pn_role n = Worker then (Inr (), n) else (Inl NeWrongRole, n))"

text \<open>The stage of \<open>prepare_worker\<close> after the worker's child has started.\<close>

definition publish_worker_route :: "u64 \<Rightarrow> (node_error, unit) act" where
  "publish_worker_route gen =
     seq (apply_event NeTransition gen WorkerHelloAccepted) (\<lambda>promoting.
     seq (apply_event NeTransition (cs_generation promoting) DistributedChildStarted) (\<lambda>starting.
     seq (apply_event NeTransition (cs_generation starting) DistributedRouteReady) (\<lambda>ready.
     set_target (cs_target ready) True)))"

definition prepare_worker :: "effect_inputs \<Rightarrow> unit nact" where
  "prepare_worker i =
     seq require_worker (\<lambda>_.
     seq node_snapshot (\<lambda>cur.
     if cs_state cur \<noteq> PairedStandaloneReady then fail_act (NeState (cs_state cur))
     else
       seq (node_apply (cs_generation cur) BeginPromotion) (\<lambda>awaiting.
       seq (on_world NeWorker (worker_prepare (ei_env i) (cs_generation awaiting))) (\<lambda>_.
       seq (on_world id (publish_worker_route (cs_generation awaiting))) (\<lambda>_.
       seq (worker_message (\<lambda>w. worker_ready_message w (ei_request_id i 0) (cs_generation awaiting))) (\<lambda>m.
       seq (send_message i m) (\<lambda>_. return_act ())))))))"

definition worker_drained :: "effect_inputs \<Rightarrow> unit nact" where
  "worker_drained i =
     seq (worker_message (\<lambda>w. drained_message w (ei_request_id i 0))) (\<lambda>m.
     seq (send_message i m) (\<lambda>_. return_act ()))"

text \<open>\<open>control_generation\<close>, \<open>local_descriptor\<close> (\<open>pairing.rs\<close>) and the reciprocal
  \<open>Pair\<close> of \<open>complete_pair_effect\<close>.\<close>

definition control_processor_of :: "role_control \<Rightarrow> control_processor" where
  "control_processor_of c = (case c of CoordinatorSide c \<Rightarrow> co_processor c | WorkerSide w \<Rightarrow> wk_processor w)"

definition control_generation :: "node \<Rightarrow> u64" where
  "control_generation n =
     (case pl_descriptor (control_lease (pn_control n)) of
        None \<Rightarrow> generation (control_processor_of (pn_control n))
      | Some d \<Rightarrow> nd_generation d)"

fun descriptor_mode :: "stable_mode \<Rightarrow> control_mode" where
  "descriptor_mode SoloStandalone = CmSoloStandalone"
| "descriptor_mode PairedStandalone = CmPairedStandalone"
| "descriptor_mode DistributedLayerParallel = CmDistributedLayerParallel"
| "descriptor_mode DistributedTensorParallel = CmDistributedTensorParallel"

definition local_descriptor :: "node \<Rightarrow> node_descriptor" where
  "local_descriptor n = (cp_local (control_processor_of (pn_control n)))
     \<lparr>nd_generation := control_generation n, nd_mode := descriptor_mode (cs_mode (pn_snapshot n))\<rparr>"

definition pair_reply :: "effect_inputs \<Rightarrow> node \<Rightarrow> control_message" where
  "pair_reply i n = \<lparr>msg_request_id = ei_request_id i 1, msg_generation = control_generation n,
     msg_deployment_id = nd_deployment_id (local_descriptor n), msg_command = CmdPair (local_descriptor n)\<rparr>"

definition clear_planned_restart :: "unit nact" where
  "clear_planned_restart = modify_act (\<lambda>n. n\<lparr>pn_restart := cancel_restart (pn_restart n)\<rparr>)"

definition complete_pair_effect :: "effect_inputs \<Rightarrow> bool \<Rightarrow> unit nact" where
  "complete_pair_effect i planned =
     on_result
       (seq get_node (\<lambda>n.
        seq (if pn_role n = Worker
             then seq (send_message i (pair_reply i n)) (\<lambda>r. modify_act (lease_update r))
             else return_act ()) (\<lambda>_.
        seq clear_planned_restart (\<lambda>_.
        seq (node_reconcile_peer (ei_env i) (ei_now i)) (\<lambda>_. return_act ())))))
       return_act
       (\<lambda>e. seq (if planned
                 then modify_act (\<lambda>n. n\<lparr>pn_restart := retry_pair_after_failure (pn_restart n)\<rparr>)
                 else return_act ()) (\<lambda>_. fail_act e))"

definition stop_worker_cluster :: "cluster_snapshot \<Rightarrow> (node_error, cluster_snapshot) act" where
  "stop_worker_cluster cur =
     (case cs_state cur of
        DistributedReady \<Rightarrow>
          seq (apply_event NeTransition (cs_generation cur) BeginDemotion) (\<lambda>demoting.
          apply_event NeTransition (cs_generation demoting) PairingReady)
      | AwaitingWorkerHello \<Rightarrow> apply_event NeTransition (cs_generation cur) PromotionFailed
      | Promoting \<Rightarrow> apply_event NeTransition (cs_generation cur) PromotionFailed
      | DistributedStarting \<Rightarrow> apply_event NeTransition (cs_generation cur) PromotionFailed
      | PairedStandaloneReady \<Rightarrow> return_act cur
      | s \<Rightarrow> fail_act (NeState s))"

definition stop_worker :: "effect_inputs \<Rightarrow> unit nact" where
  "stop_worker i =
     seq get_node (\<lambda>n.
     if pn_role n \<noteq> Worker then return_act ()
     else
       seq (on_world NeWorker (worker_cancel (ei_env i))) (\<lambda>_.
       seq (on_world id (seq (stop_worker_cluster (pn_snapshot n)) (serve_snapshot True True))) (\<lambda>_.
       seq get_node (\<lambda>n.
       seq (modify_act (\<lambda>n. n\<lparr>pn_restart := snd (note_child_stopped (pn_restart n))\<rparr>)) (\<lambda>_.
       if fst (note_child_stopped (pn_restart n)) then complete_pair_effect i True
       else return_act ())))))"

definition begin_pair_effect :: "effect_inputs \<Rightarrow> unit nact" where
  "begin_pair_effect i =
     seq get_node (\<lambda>n.
     if pn_role n \<noteq> Worker then complete_pair_effect i False
     else
       seq (modify_act (\<lambda>n. n\<lparr>pn_restart := snd (pair_action (pn_restart n))\<rparr>)) (\<lambda>_.
       case fst (pair_action (pn_restart n)) of
         Run \<Rightarrow> complete_pair_effect i False
       | RunAfterChildStop \<Rightarrow> complete_pair_effect i True
       | Defer \<Rightarrow> return_act ()
       | AlreadyCompleting \<Rightarrow> return_act ()))"

definition apply_effect :: "effect_inputs \<Rightarrow> control_command \<Rightarrow> unit nact" where
  "apply_effect i c =
     (case c of
        CmdPair _ \<Rightarrow> begin_pair_effect i
      | CmdPrepareWorker \<Rightarrow> prepare_worker i
      | CmdBeginDrain \<Rightarrow> worker_drained i
      | CmdCancelGeneration \<Rightarrow> stop_worker i
      | CmdDemote \<Rightarrow> stop_worker i
      | CmdWorkerEvent WeExited \<Rightarrow>
          seq get_node (\<lambda>n.
          if pn_role n = Coordinator
          then seq (recover_from_peer_loss (ei_env i) (ei_now i)) (\<lambda>_. return_act ())
          else return_act ())
      | CmdDistributedReady \<Rightarrow> on_world id (change_gate start_serving)
      | CmdPrepareRestart \<Rightarrow> modify_act (\<lambda>n. n\<lparr>pn_restart := begin_restart (pn_restart n)\<rparr>)
      | CmdCancelRestart \<Rightarrow> clear_planned_restart
      | _ \<Rightarrow> return_act ())"

section \<open>Control requests\<close>

definition effect_requires_ack :: "control_command \<Rightarrow> bool" where
  "effect_requires_ack c =
     (case c of
        CmdPair _ \<Rightarrow> True | CmdPrepareWorker \<Rightarrow> True | CmdCancelGeneration \<Rightarrow> True
      | CmdDistributedReady \<Rightarrow> True | CmdDemote \<Rightarrow> True | CmdPrepareRestart \<Rightarrow> True
      | CmdCancelRestart \<Rightarrow> True | CmdWorkerEvent WeExited \<Rightarrow> True | _ \<Rightarrow> False)"

definition effect_requires_ack_for_runtime :: "control_command \<Rightarrow> bool \<Rightarrow> bool" where
  "effect_requires_ack_for_runtime c planned \<longleftrightarrow> effect_requires_ack c \<and> \<not> (planned \<and> c = CmdDemote)"

text \<open>One side's control on a request.\<close>

definition side_handle ::
  "role_control \<Rightarrow> control_endpoint \<Rightarrow> control_message \<Rightarrow> authenticated_peer \<Rightarrow> bool \<Rightarrow> u64 \<Rightarrow>
   (control_error + control_response) \<times> role_control" where
  "side_handle s ep m auth route now =
     (case s of
        CoordinatorSide c \<Rightarrow> apsnd CoordinatorSide (coordinator_handle c ep m auth route now)
      | WorkerSide w \<Rightarrow> apsnd WorkerSide (worker_handle w ep m auth route now))"

definition side_descriptor ::
  "role_control \<Rightarrow> authenticated_peer \<Rightarrow> bool \<Rightarrow> u64 \<Rightarrow> (control_error + control_response) \<times> role_control" where
  "side_descriptor s auth route now =
     (case s of
        CoordinatorSide c \<Rightarrow>
          apsnd (\<lambda>p. CoordinatorSide (c\<lparr>co_processor := p\<rparr>)) (descriptor_response (co_processor c) auth route now)
      | WorkerSide w \<Rightarrow>
          apsnd (\<lambda>p. WorkerSide (w\<lparr>wk_processor := p\<rparr>)) (descriptor_response (wk_processor w) auth route now))"

definition on_control ::
  "(role_control \<Rightarrow> (control_error + control_response) \<times> role_control) \<Rightarrow> control_response nact" where
  "on_control f n = (case f (pn_control n) of (r, s) \<Rightarrow> (map_sum NeControl id r, n\<lparr>pn_control := s\<rparr>))"

text \<open>
  \<open>ProductionClusterRuntime::handle\<close> after authentication and decoding. The effect of a
  command runs before the next operation of the node; \<open>route\<close> is the network evidence, and
  \<open>now\<close>, \<open>later\<close> are the clock before and after the effect. A deployment mismatch closes
  the latch at once; the recovery it schedules is an operation of its own.
\<close>

definition node_handle ::
  "effect_inputs \<Rightarrow> control_endpoint \<Rightarrow> control_message \<Rightarrow> authenticated_peer \<Rightarrow> bool \<Rightarrow> u64 \<Rightarrow> u64 \<Rightarrow>
   control_response nact" where
  "node_handle i ep m auth route now later =
     seq get_node (\<lambda>n.
     if ep = EpNode then on_control (\<lambda>s. side_descriptor s auth route now)
     else if pn_role n = Worker \<and> msg_command m = CmdPrepareWorker \<and> blocks_worker_prepare (pn_restart n)
     then fail_act (NeControl PlannedRestartInProgress)
     else
       on_result (on_control (\<lambda>s. side_handle s ep m auth route now))
         (\<lambda>r.
           seq (if effect_requires_ack_for_runtime (msg_command m) (restart_active (pn_restart n))
                then
                  seq (apply_effect i (msg_command m)) (\<lambda>_.
                  seq (on_control (\<lambda>s. side_descriptor s auth route later)) (\<lambda>refreshed.
                  return_act (refreshed\<lparr>rsp_status := rsp_status r\<rparr>)))
                else on_result (apply_effect i (msg_command m)) (\<lambda>_. return_act r) (\<lambda>_. return_act r)) (\<lambda>r.
           seq (modify_act (lease_update r)) (\<lambda>_. return_act r)))
         (\<lambda>e.
           seq (if e = NeControl control_error.DeploymentMismatch
                then modify_act (\<lambda>n. n\<lparr>pn_pairing_blocked := True\<rparr>) else return_act ()) (\<lambda>_.
           fail_act e)))"

section \<open>Requests that arrive while an operation waits\<close>

record control_request =
  rq_inputs :: effect_inputs
  rq_endpoint :: control_endpoint
  rq_message :: control_message
  rq_peer :: authenticated_peer
  rq_route :: bool
  rq_now :: u64
  rq_later :: u64

definition serve_request :: "control_request \<Rightarrow> control_response nact" where
  "serve_request q =
     node_handle (rq_inputs q) (rq_endpoint q) (rq_message q) (rq_peer q) (rq_route q) (rq_now q) (rq_later q)"

definition serve_requests :: "control_request list \<Rightarrow> node \<Rightarrow> node" where
  "serve_requests qs n = foldl (\<lambda>n q. snd (serve_request q n)) n qs"

text \<open>The request's part in the control alone, for the waits inside an operation of the cluster:
  the effects of other requests wait until that operation ends, and \<open>Drained\<close> has none.\<close>

definition receive :: "control_request \<Rightarrow> role_control \<Rightarrow> role_control" where
  "receive q s = snd (side_handle s (rq_endpoint q) (rq_message q) (rq_peer q) (rq_route q) (rq_now q))"

definition receive_all :: "control_request list \<Rightarrow> node \<Rightarrow> node" where
  "receive_all qs n = n\<lparr>pn_control := foldl (\<lambda>s q. receive q s) (pn_control n) qs\<rparr>"

section \<open>Pairing\<close>

definition propose_session :: "u64 \<Rightarrow> u64 nact" where
  "propose_session peer n =
     (case pn_control n of
        WorkerSide _ \<Rightarrow> (Inl NeWrongRole, n)
      | CoordinatorSide c \<Rightarrow>
          (case propose_candidate c peer of
             (candidate, c') \<Rightarrow> (Inr candidate, n\<lparr>pn_control := CoordinatorSide c'\<rparr>)))"

definition pair_offer :: "effect_inputs \<Rightarrow> u64 \<Rightarrow> node \<Rightarrow> control_message" where
  "pair_offer i candidate n = (pair_reply i n)\<lparr>msg_generation := candidate\<rparr>"

definition mismatch_or_fail :: "effect_inputs \<Rightarrow> send_error \<Rightarrow> cluster_snapshot nact" where
  "mismatch_or_fail i e =
     (if e = SendMismatch
      then seq (recover_from_deployment_mismatch (ei_env i) (ei_now i)) (\<lambda>_. node_snapshot)
      else fail_act (NeSend e))"

definition node_pair :: "effect_inputs \<Rightarrow> cluster_snapshot nact" where
  "node_pair i =
     seq get_node (\<lambda>n.
     if pn_role n \<noteq> Coordinator then fail_act NeWrongRole
     else if pn_recovery_owner n then fail_act NeRecoveryOwner
     else case ei_node i of
       Inl e \<Rightarrow> mismatch_or_fail i e
     | Inr peer \<Rightarrow>
         seq (propose_session (rsp_generation peer)) (\<lambda>candidate.
         seq get_node (\<lambda>n.
         case ei_send i (pair_offer i candidate n) of
           Inl e \<Rightarrow> mismatch_or_fail i e
         | Inr r \<Rightarrow>
             seq (modify_act (lease_update r)) (\<lambda>_.
             node_reconcile_peer (ei_env i) (ei_now i)))))"

section \<open>Promotion\<close>

text \<open>What a promotion reads from outside: whether the configured layer range parses, the result
  of binding the rendezvous port and of the hello, the requests that arrive until the hello and
  between two looks at the worker's phase (the list ends at the startup deadline), the requests
  that arrive while the worker drains, and the clock.\<close>

record promote_inputs =
  pi_inputs :: effect_inputs
  pi_layers_ok :: bool
  pi_bind :: "hello_error option"
  pi_before_hello :: "control_request list"
  pi_hello :: "hello_error option"
  pi_polls :: "control_request list list"
  pi_drain_polls :: "control_request list list"
  pi_ready_at :: u64
  pi_promoted_at :: u64

definition in_phase :: "control_phase \<Rightarrow> node \<Rightarrow> bool" where
  "in_phase ph n = (case pn_control n of CoordinatorSide c \<Rightarrow> co_phase c = ph | WorkerSide _ \<Rightarrow> False)"

fun await_phase :: "control_phase \<Rightarrow> 'e \<Rightarrow> (node \<Rightarrow> node) list \<Rightarrow> (node, 'e, unit) sact" where
  "await_phase ph elapsed [] n = (if in_phase ph n then (Inr (), n) else (Inl elapsed, n))"
| "await_phase ph elapsed (meanwhile # rest) n =
     (if in_phase ph n then (Inr (), n) else await_phase ph elapsed rest (meanwhile n))"

definition require_none :: "('e \<Rightarrow> 'f) \<Rightarrow> 'e option \<Rightarrow> ('s, 'f, unit) sact" where
  "require_none wrap r = (case r of None \<Rightarrow> return_act () | Some e \<Rightarrow> fail_act (wrap e))"

definition compose_prepare :: "string \<Rightarrow> coordinator_control \<Rightarrow> control_error + control_message \<times> coordinator_control" where
  "compose_prepare rid c =
     and_then (prepare_worker_message c rid) (\<lambda>m.
     and_then (note_prepare_sent c (msg_generation m)) (\<lambda>c. Inr (m, c)))"

definition prepare_and_accept_hello :: "promote_inputs \<Rightarrow> (node, promotion_hello_error, unit) sact" where
  "prepare_and_accept_hello p =
     seq (require_ok (pi_layers_ok p) (PhPreflight None)) (\<lambda>_.
     seq (require_none PhRendezvous (pi_bind p)) (\<lambda>_.
     seq (coordinator_message PhControl (compose_prepare (ei_request_id (pi_inputs p) 2)) (PhPreflight None)) (\<lambda>prepare.
     seq (send_via (\<lambda>e. PhPreflight (Some e)) (pi_inputs p) prepare) (\<lambda>r.
     seq (modify_act (lease_update r)) (\<lambda>_.
     seq (modify_act (serve_requests (pi_before_hello p))) (\<lambda>_.
     seq (require_none PhRendezvous (pi_hello p)) (\<lambda>_.
     await_phase WorkerReady PhWorkerStartupTimeout (map serve_requests (pi_polls p)))))))))"

definition quietly :: "'a nact \<Rightarrow> unit nact" where
  "quietly m = on_result m (\<lambda>_. return_act ()) (\<lambda>_. return_act ())"

definition recover_preflight_promotion :: "effect_inputs \<Rightarrow> unit nact" where
  "recover_preflight_promotion i =
     seq (quietly (seq
       (coordinator_message NeControl (\<lambda>c. cancel_generation_message c (ei_request_id i 3)) NeWrongRole)
       (send_message i))) (\<lambda>_.
     seq node_snapshot (\<lambda>cur.
     if cs_state cur \<in> {AwaitingWorkerHello, Promoting, DistributedStarting}
     then quietly (on_world id
       (seq (apply_event NeTransition (cs_generation cur) PromotionFailed) (serve_snapshot True True)))
     else return_act ()))"

definition is_deployment_mismatch :: "promotion_hello_error \<Rightarrow> bool" where
  "is_deployment_mismatch e \<longleftrightarrow> e \<in> {PhControl control_error.DeploymentMismatch, PhRendezvous HelloMismatch,
     PhPreflight (Some SendMismatch)}"

definition retry_with_backoff :: "promotion_hello_error \<Rightarrow> bool" where
  "retry_with_backoff e \<longleftrightarrow> e \<in> {PhRendezvous HelloTimeout, PhWorkerStartupTimeout}"

definition promotion_hello_failed :: "effect_inputs \<Rightarrow> promotion_hello_error \<Rightarrow> cluster_snapshot nact" where
  "promotion_hello_failed i e =
     seq (if is_deployment_mismatch e
          then quietly (recover_from_deployment_mismatch (ei_env i) (ei_now i))
          else recover_preflight_promotion i) (\<lambda>_.
     seq (if retry_with_backoff e
          then quietly (on_world NeCoordinator (record_promotion_failure CfHelloTimeout (ei_now i)))
          else return_act ()) (\<lambda>_.
     fail_act (NePromotion e)))"

text \<open>\<open>PeerLifecycle\<close>: the two calls of an operation to the peer, as exchanges of the control.\<close>

definition compose_begin_drain :: "string \<Rightarrow> coordinator_control \<Rightarrow> control_error + control_message \<times> coordinator_control" where
  "compose_begin_drain rid c =
     and_then (begin_drain_message c rid) (\<lambda>m.
     and_then (note_begin_drain_sent c (msg_generation m)) (\<lambda>c. Inr (m, c)))"

definition peer_begin_drain :: "promote_inputs \<Rightarrow> unit nact" where
  "peer_begin_drain p =
     seq (coordinator_message NeControl (compose_begin_drain (ei_request_id (pi_inputs p) 4)) NeWrongRole) (\<lambda>m.
     seq (send_message (pi_inputs p) m) (\<lambda>_.
     await_phase Drained NeDrainAck (map receive_all (pi_drain_polls p))))"

definition peer_stop_worker :: "promote_inputs \<Rightarrow> unit nact" where
  "peer_stop_worker p =
     seq (coordinator_message NeControl
       (\<lambda>c. and_then (demote_message c (ei_request_id (pi_inputs p) 5)) (\<lambda>m. Inr (m, c))) NeWrongRole) (\<lambda>m.
     seq (send_message (pi_inputs p) m) (\<lambda>_.
     seq (coordinator_message NeControl
       (\<lambda>c. and_then (note_demote_complete c (msg_generation m)) (\<lambda>c. Inr (m, c))) NeWrongRole) (\<lambda>_.
     return_act ())))"

fun is_peer_drain :: "lifecycle_call \<Rightarrow> bool" where
  "is_peer_drain (PeerBeginDrain _ _) = True"
| "is_peer_drain _ = False"

fun is_peer_stop :: "lifecycle_call \<Rightarrow> bool" where
  "is_peer_stop (PeerStopWorker _ _) = True"
| "is_peer_stop _ = False"

text \<open>
  An operation of the coordinator's runtime whose calls to the peer are these exchanges. An
  operation that stops the worker has asked it to drain before (\<open>drains\<close>), a planned restart
  does not drain; the exchanges it did not reach leave no trace.
\<close>

definition with_peer ::
  "bool \<Rightarrow> promote_inputs \<Rightarrow> (environment \<Rightarrow> (coordinator_error, cluster_snapshot) act) \<Rightarrow> cluster_snapshot nact" where
  "with_peer drains p m n =
     (let (drained, n1) = (if drains then peer_begin_drain p n else (Inr (), n));
          (stopped, n2) = peer_stop_worker p n1;
          env = (ei_env (pi_inputs p))\<lparr>env_peer_drain := \<not> isl drained, env_peer_stop_worker := \<not> isl stopped\<rparr>;
          (r, w) = m env (pn_world n);
          calls = drop (length (rw_log (pn_world n))) (rw_log w)
      in (map_sum NeCoordinator id r,
          n\<lparr>pn_world := w,
            pn_control := (if list_ex is_peer_stop calls then pn_control n2
                           else if list_ex is_peer_drain calls then pn_control n1
                           else pn_control n)\<rparr>))"

definition promote_internal :: "promote_inputs \<Rightarrow> bool \<Rightarrow> cluster_snapshot nact" where
  "promote_internal p resume_admission =
     seq get_node (\<lambda>n.
     if pn_role n \<noteq> Coordinator then fail_act NeWrongRole
     else if cs_state (pn_snapshot n) \<noteq> PairedStandaloneReady then fail_act (NeState (cs_state (pn_snapshot n)))
     else if promotion_gate n True \<noteq> AllowPromotion then fail_act NePolicyGate
     else
       seq (node_apply (cs_generation (pn_snapshot n)) BeginPromotion) (\<lambda>_.
       on_result (prepare_and_accept_hello p)
         (\<lambda>_.
           seq get_node (\<lambda>n.
           let ready = in_phase WorkerReady n \<and> pn_peer_present n (pi_ready_at p) in
           seq (with_peer True p (\<lambda>env.
             promote_validated_with_admission env ready (pi_promoted_at p) resume_admission)) (\<lambda>snapshot.
           seq (coordinator_message NeControl
             (\<lambda>c. distributed_ready_message c (ei_request_id (pi_inputs p) 6)) NeWrongRole) (\<lambda>m.
           seq (send_message (pi_inputs p) m) (\<lambda>_.
           return_act snapshot)))))
         (promotion_hello_failed (pi_inputs p))))"

definition node_promote :: "promote_inputs \<Rightarrow> cluster_snapshot nact" where
  "node_promote p =
     seq get_node (\<lambda>n.
     if pn_recovery_owner n then fail_act NeRecoveryOwner else promote_internal p True)"

definition promote_for_recovery :: "promote_inputs \<Rightarrow> cluster_snapshot nact" where
  "promote_for_recovery p = promote_internal p False"

section \<open>Demotion and route loss\<close>

definition demote_for_recovery :: "promote_inputs \<Rightarrow> cluster_snapshot nact" where
  "demote_for_recovery p =
     seq get_node (\<lambda>n.
     if pn_role n \<noteq> Coordinator then fail_act NeWrongRole
     else with_peer True p (\<lambda>env. demote_with_admission env False))"

definition node_demote :: "promote_inputs \<Rightarrow> cluster_snapshot nact" where
  "node_demote p =
     seq get_node (\<lambda>n.
     if pn_role n \<noteq> Coordinator then fail_act NeWrongRole
     else if pn_recovery_owner n then fail_act NeRecoveryOwner
     else with_peer True p (\<lambda>env. demote_with_admission env True))"

text \<open>The answer of the monitor when a wait on the child fails, and when the route stays down past
  the grace period.\<close>

definition route_monitor_failed :: "cluster_snapshot nact" where
  "route_monitor_failed =
     seq get_node (\<lambda>n.
     if restart_active (pn_restart n) \<or> cs_state (pn_snapshot n) = SoloStandaloneReady
     then return_act (pn_snapshot n) else fail_act NeRouteMonitor)"

definition route_stayed_down :: "promote_inputs \<Rightarrow> cluster_snapshot nact" where
  "route_stayed_down p =
     seq get_node (\<lambda>n.
     if restart_active (pn_restart n) then return_act (pn_snapshot n)
     else
       let present = (pn_role n = Coordinator \<and> pn_peer_present n (ei_now (pi_inputs p)));
           distributed = (cs_state (pn_snapshot n) \<in> {DistributedReady, DistributedStarting})
       in if \<not> present \<or> \<not> distributed
          then recover_from_peer_loss (ei_env (pi_inputs p)) (ei_now (pi_inputs p))
          else with_peer True p (\<lambda>env. demote_with_admission env True))"

text \<open>One round of the monitor: what other tasks did before its wait for a loss ended, whether that
  wait succeeded, and the same for the wait for the route to return.\<close>

record route_watch =
  wt_before_loss :: "node \<Rightarrow> node"
  wt_loss :: bool
  wt_before_ready :: "node \<Rightarrow> node"
  wt_ready :: start_outcome

fun handle_route_loss ::
  "promote_inputs \<Rightarrow> route_watch list \<Rightarrow> node \<Rightarrow> ((node_error + cluster_snapshot) \<times> node) option" where
  "handle_route_loss p [] n = None"
| "handle_route_loss p (r # rs) n =
     (if restart_active (pn_restart n) then Some (Inr (pn_snapshot n), n)
      else
        let n1 = wt_before_loss r n in
        if \<not> wt_loss r then Some (route_monitor_failed n1)
        else
          let n2 = wt_before_ready r n1 in
          case wt_ready r of
            Started \<Rightarrow> handle_route_loss p rs n2
          | StartFailed \<Rightarrow> Some (route_monitor_failed n2)
          | StartTimeout \<Rightarrow> Some (route_stayed_down p n2))"

section \<open>Worker child monitor, operator reconcile and planned restart\<close>

definition notify_worker_child_exit :: "effect_inputs \<Rightarrow> unit nact" where
  "notify_worker_child_exit i =
     seq get_node (\<lambda>n.
     if pn_role n \<noteq> Worker then return_act ()
     else
       seq (worker_message (\<lambda>w. child_exited_message w (ei_request_id i 7))) (\<lambda>m.
       seq (send_message i m) (\<lambda>_. return_act ())))"

text \<open>\<open>monitor_worker_child\<close> once \<open>wait_for_failure\<close> has seen the failure \<open>cause\<close>, up
  to the grace period for the peer's lease; the end of that period is an operation of its own.\<close>

definition worker_child_failed :: "effect_inputs \<Rightarrow> worker_error \<Rightarrow> unit nact" where
  "worker_child_failed i cause =
     seq (on_world NeWorker (cleanup_failure (ei_env i) cause)) (\<lambda>_.
     seq get_node (\<lambda>n.
     if restart_active (pn_restart n) then return_act ()
     else
       seq (modify_act (\<lambda>n. n\<lparr>pn_pairing_blocked := True\<rparr>)) (\<lambda>_.
       seq (quietly (notify_worker_child_exit i)) (\<lambda>_.
       quietly (recover_from_peer_loss (ei_env i) (ei_now i))))))"

definition unblock_automatic_pairing :: "node \<Rightarrow> node" where
  "unblock_automatic_pairing n = n\<lparr>pn_pairing_blocked := False\<rparr>"

text \<open>The result is whether a manual intervention was cleared.\<close>

definition node_operator_reconcile :: "bool nact" where
  "node_operator_reconcile =
     seq (modify_act unblock_automatic_pairing) (\<lambda>_.
     seq get_node (\<lambda>n.
     let was_manual = (cs_state (pn_snapshot n) = ManualInterventionRequired) in
     if pn_role n = Coordinator
     then seq (on_world NeCoordinator operator_reconcile) (\<lambda>_. return_act was_manual)
     else if was_manual
     then seq (node_apply (cs_generation (pn_snapshot n)) OperatorReconcile) (\<lambda>_. return_act was_manual)
     else return_act was_manual))"

definition begin_planned_restart :: "node \<Rightarrow> node" where
  "begin_planned_restart n = n\<lparr>pn_restart := begin_restart (pn_restart n)\<rparr>"

definition prepare_peer_for_planned_restart :: "effect_inputs \<Rightarrow> bool nact" where
  "prepare_peer_for_planned_restart i =
     seq get_node (\<lambda>n.
     if pn_role n \<noteq> Coordinator \<or> cs_state (pn_snapshot n) \<noteq> DistributedReady then return_act False
     else
       seq (coordinator_message NeControl
         (\<lambda>c. and_then (prepare_restart_message c (ei_request_id i 8)) (\<lambda>m. Inr (m, c))) NeWrongRole) (\<lambda>m.
       seq (send_message i m) (\<lambda>_. return_act True)))"

definition cancel_peer_planned_restart :: "effect_inputs \<Rightarrow> unit nact" where
  "cancel_peer_planned_restart i =
     seq get_node (\<lambda>n.
     if pn_role n \<noteq> Coordinator then return_act ()
     else
       seq (coordinator_message NeControl
         (\<lambda>c. and_then (cancel_restart_message c (ei_request_id i 9)) (\<lambda>m. Inr (m, c))) NeWrongRole) (\<lambda>m.
       seq (send_message i m) (\<lambda>_. return_act ())))"

definition stop_distributed :: "environment \<Rightarrow> unit nact" where
  "stop_distributed env = seq get_node (\<lambda>n. on_world id (stop_distributed_child env (pn_role n)))"

definition node_stop_for_planned_restart :: "promote_inputs \<Rightarrow> unit nact" where
  "node_stop_for_planned_restart p =
     seq get_node (\<lambda>n.
     if pn_role n = Coordinator \<and> cs_state (pn_snapshot n) = DistributedReady
     then seq (with_peer False p stop_for_planned_restart) (\<lambda>_. return_act ())
     else stop_distributed (ei_env (pi_inputs p)))"

section \<open>The reconcile task\<close>

text \<open>One tick of \<open>start_reconcile_task\<close>. The promotion is a task of its own, which runs at
  once here, and only one runs at a time (\<open>promotion_running\<close>).\<close>

definition reconcile_tick :: "effect_inputs \<Rightarrow> promote_inputs \<Rightarrow> bool \<Rightarrow> unit nact" where
  "reconcile_tick i p promotion_running =
     seq get_node (\<lambda>n.
     if restart_active (pn_restart n) then return_act ()
     else
       seq (quietly (node_reconcile (ei_env i) (ei_node i) (ei_now i))) (\<lambda>_.
       seq get_node (\<lambda>n.
       let state = cs_state (pn_snapshot n) in
       if restart_active (pn_restart n) then return_act ()
       else if state = SoloStandaloneReady \<and> pn_role n = Coordinator \<and> pn_auto_pair n
         \<and> pn_policy n = Automatic \<and> \<not> pn_policy_pending n \<and> \<not> pn_pairing_blocked n
       then quietly (node_pair i)
       else if state = PairedStandaloneReady \<and> pn_role n = Coordinator \<and> pn_auto_promote n
         \<and> \<not> pn_recovery_owner n \<and> \<not> promotion_running
       then quietly (node_promote p)
       else return_act ())))"

end
