(* ===== verification/Node_Invariant.thy ===== *)
theory Node_Invariant
  imports Production_Node
begin

text \<open>
  What the operations of a node keep, whatever the children, the peer and the clock answer: the
  role, that the gate serves only what is published, and that at most one child runs. The proofs
  follow the structure of the operations by one rule per control structure, for any invariant.
\<close>

section \<open>Keeping an invariant\<close>

definition kept :: "('s \<Rightarrow> bool) \<Rightarrow> ('s, 'e, 'a) sact \<Rightarrow> 's \<Rightarrow> bool" where
  "kept I m s \<longleftrightarrow> (I s \<longrightarrow> I (snd (m s)))"

named_theorems kept_rules \<open>one rule per control structure\<close>

lemma keptI: "(I s \<Longrightarrow> wp m (\<lambda>_. I) (\<lambda>_. I) s) \<Longrightarrow> kept I m s"
  unfolding wp_result by (simp add: kept_def)

lemma keptD: "kept I m s \<Longrightarrow> I s \<Longrightarrow> I (snd (m s))"
  by (simp add: kept_def)

lemma kept_return [kept_rules]: "kept I (return_act a) s"
  by (simp add: kept_def return_act_def)

lemma kept_fail [kept_rules]: "kept I (fail_act e) s"
  by (simp add: kept_def fail_act_def)

lemma kept_seq: "kept I m s \<Longrightarrow> (\<And>a t. kept I (f a) t) \<Longrightarrow> kept I (seq m f) s"
  by (auto simp: kept_def seq_def split: prod.splits sum.splits)

lemma kept_get [kept_rules]: "kept I (f n) n \<Longrightarrow> kept I (seq get_node f) n"
  by (simp add: kept_def seq_def get_node_def)

lemma kept_on_result_seen:
  "kept I m s \<Longrightarrow> (\<And>a t. m s = (Inr a, t) \<Longrightarrow> kept I (f a) t) \<Longrightarrow>
   (\<And>e t. m s = (Inl e, t) \<Longrightarrow> kept I (g e) t) \<Longrightarrow> kept I (on_result m f g) s"
  by (auto simp: kept_def on_result_def split: prod.splits sum.splits)

lemma kept_on_result [kept_rules]:
  "kept I m s \<Longrightarrow> (\<And>a t. kept I (f a) t) \<Longrightarrow> (\<And>e t. kept I (g e) t) \<Longrightarrow> kept I (on_result m f g) s"
  by (simp add: kept_on_result_seen)

lemma kept_if [kept_rules]:
  "(b \<Longrightarrow> kept I m s) \<Longrightarrow> (\<not> b \<Longrightarrow> kept I m' s) \<Longrightarrow> kept I (if b then m else m') s"
  by simp

lemma kept_sum [kept_rules]:
  "(\<And>a. kept I (f a) s) \<Longrightarrow> (\<And>b. kept I (g b) s) \<Longrightarrow> kept I (case x of Inl a \<Rightarrow> f a | Inr b \<Rightarrow> g b) s"
  by (simp split: sum.split)

lemma kept_pair_action [kept_rules]:
  "kept I m1 s \<Longrightarrow> kept I m2 s \<Longrightarrow> kept I m3 s \<Longrightarrow> kept I m4 s \<Longrightarrow>
   kept I (case a of Run \<Rightarrow> m1 | RunAfterChildStop \<Rightarrow> m2 | Defer \<Rightarrow> m3 | AlreadyCompleting \<Rightarrow> m4) s"
  by (simp split: pair_action.split)

lemma kept_let [kept_rules]: "(\<And>x. kept I (f x) s) \<Longrightarrow> kept I (let x = v in f x) s"
  by simp

lemma kept_modify: "(I s \<Longrightarrow> I (f s)) \<Longrightarrow> kept I (modify_act f) s"
  by (simp add: kept_def modify_act_def)

lemma kept_send [kept_rules]: "kept I (send_via wrap i m) s"
  by (simp add: kept_def send_via_def return_act_def fail_act_def split: sum.split)

lemma kept_require [kept_rules]: "kept I (require_ok b e) s" "kept I (require_none wrap r) s"
  by (simp_all add: kept_def require_ok_def require_none_def return_act_def fail_act_def split: option.split)

lemma kept_require_worker [kept_rules]: "kept I require_worker s"
  by (simp add: kept_def require_worker_def)

lemma kept_quietly [kept_rules]: "kept I m s \<Longrightarrow> kept I (quietly m) s"
  unfolding quietly_def by (intro kept_on_result kept_return)

lemma kept_snapshot [kept_rules]: "kept I node_snapshot n"
  by (simp add: kept_def on_world_def get_snapshot_def)

lemma kept_conj: "kept I m s \<Longrightarrow> kept J m s \<Longrightarrow> kept (\<lambda>s. I s \<and> J s) m s"
  by (simp add: kept_def)

lemma kept_foldl: "(\<And>x s. kept I (f x) s) \<Longrightarrow> I s \<Longrightarrow> I (foldl (\<lambda>s x. snd (f x s)) s xs)"
  by (induction xs arbitrary: s) (simp_all add: kept_def)

lemma kept_await [kept_rules]:
  "(\<And>f n. f \<in> set fs \<Longrightarrow> I n \<Longrightarrow> I (f n)) \<Longrightarrow> kept I (await_phase ph e fs) n"
  unfolding kept_def
  by (induction ph e fs n rule: await_phase.induct) auto

section \<open>The role\<close>

abbreviation has_role :: "local_role \<Rightarrow> node \<Rightarrow> bool" where
  "has_role r n \<equiv> pn_role n = r"

lemma role_on_world [kept_rules]: "kept (has_role r) (on_world wrap m) n"
  by (simp add: kept_def on_world_def split: prod.split)

lemma role_modify [kept_rules]:
  "(\<And>n. pn_role (f n) = pn_role n) \<Longrightarrow> kept (has_role r) (modify_act f) n"
  by (simp add: kept_def modify_act_def)

lemma role_worker_message [kept_rules]: "kept (has_role r) (worker_message f) n"
  by (auto simp: kept_def worker_message_def split: role_control.splits sum.splits)

lemma role_coordinator_message [kept_rules]: "kept (has_role r) (coordinator_message wrap f e) n"
  by (auto simp: kept_def coordinator_message_def split: role_control.splits sum.splits)

lemma side_handle_role [simp]: "control_role (snd (side_handle s ep m auth route now)) = control_role s"
  by (simp add: side_handle_def split: role_control.split)

lemma side_descriptor_role [simp]: "control_role (snd (side_descriptor s auth route now)) = control_role s"
  by (simp add: side_descriptor_def split: role_control.split)

lemma receive_role [simp]: "control_role (receive q s) = control_role s"
  by (simp add: receive_def)

lemma receive_all_role [simp]: "pn_role (receive_all qs n) = pn_role n"
proof -
  have "control_role (foldl (\<lambda>s q. receive q s) s qs) = control_role s" for s
    by (induction qs arbitrary: s) simp_all
  then show ?thesis by (simp add: receive_all_def)
qed

lemma on_control_role [kept_rules]:
  "(\<And>s. control_role (snd (f s)) = control_role s) \<Longrightarrow> kept (has_role r) (on_control f) n"
  by (simp add: kept_def on_control_def split: prod.split) (metis snd_conv)

lemma role_changes [simp]:
  "pn_role (lease_update r n) = pn_role n" "pn_role (node_invalidate_route n) = pn_role n"
  "pn_role (reset_for_repair now n) = pn_role n" "pn_role (unblock_automatic_pairing n) = pn_role n"
  "pn_role (begin_planned_restart n) = pn_role n"
  by (simp_all add: lease_update_def node_invalidate_route_def reset_for_repair_def unblock_automatic_pairing_def
      begin_planned_restart_def split: option.split role_control.split)

lemma role_recover [kept_rules]:
  "kept (has_role r) (recover_to_solo env now event) n"
  unfolding recover_to_solo_def Let_def by (intro kept_get kept_rules kept_seq) simp_all

lemma role_recoveries [kept_rules]:
  "kept (has_role r) (recover_from_peer_loss env now) n"
  "kept (has_role r) (recover_from_forced_policy env now) n"
  "kept (has_role r) (recover_from_deployment_mismatch env now) n"
  unfolding recover_from_peer_loss_def recover_from_forced_policy_def recover_from_deployment_mismatch_def
  by - (intro kept_get kept_rules kept_seq; simp)+

lemma role_reconcile_peer [kept_rules]: "kept (has_role r) (node_reconcile_peer env now) n"
  unfolding node_reconcile_peer_def Let_def by (intro kept_get kept_rules kept_seq)

lemma role_reconcile [kept_rules]:
  "kept (has_role r) (reconcile_periodic env now) n" "kept (has_role r) (node_reconcile env answer now) n"
  unfolding node_reconcile_def reconcile_periodic_def
  by - (intro kept_get kept_rules kept_seq; simp)+

lemma role_effects [kept_rules]:
  "kept (has_role r) (complete_pair_effect i planned) n" "kept (has_role r) (prepare_worker i) n"
  "kept (has_role r) (worker_drained i) n" "kept (has_role r) clear_planned_restart n"
  unfolding complete_pair_effect_def prepare_worker_def worker_drained_def clear_planned_restart_def
  by - (intro kept_get kept_rules kept_seq; simp)+

lemma role_stop_worker [kept_rules]:
  "kept (has_role r) (stop_worker i) n" "kept (has_role r) (begin_pair_effect i) n"
  unfolding stop_worker_def begin_pair_effect_def
  by - (intro kept_get kept_rules kept_seq; simp)+

lemma kept_effect:
  assumes "\<And>d. c = CmdPair d \<Longrightarrow> kept I (begin_pair_effect i) n"
    and "c = CmdPrepareWorker \<Longrightarrow> kept I (prepare_worker i) n"
    and "c = CmdBeginDrain \<Longrightarrow> kept I (worker_drained i) n"
    and "c = CmdCancelGeneration \<or> c = CmdDemote \<Longrightarrow> kept I (stop_worker i) n"
    and "kept I (recover_from_peer_loss (ei_env i) (ei_now i)) n"
    and "c = CmdDistributedReady \<Longrightarrow> kept I (on_world id (change_gate start_serving)) n"
    and "kept I (modify_act (\<lambda>n. n\<lparr>pn_restart := begin_restart (pn_restart n)\<rparr>) :: unit nact) n"
    and "kept I clear_planned_restart n"
  shows "kept I (apply_effect i c) n"
  using assms
  by (auto simp: apply_effect_def kept_return intro!: kept_get kept_if kept_seq
      split: control_command.split worker_event_kind.split)

lemma kept_node_handle:
  assumes "\<And>n now. kept I (on_control (\<lambda>s. side_descriptor s auth route now)) n"
    and "kept I (on_control (\<lambda>s. side_handle s ep m auth route now)) n"
    and "\<And>r t. on_control (\<lambda>s. side_handle s ep m auth route now) n = (Inr r, t) \<Longrightarrow>
           kept I (apply_effect i (msg_command m)) t"
    and "\<And>n r. I n \<Longrightarrow> I (lease_update r n)" "\<And>n. I n \<Longrightarrow> I (n\<lparr>pn_pairing_blocked := True\<rparr>)"
  shows "kept I (node_handle i ep m auth route now later) n"
  unfolding node_handle_def
  by (intro kept_get kept_if kept_fail kept_on_result_seen kept_seq kept_on_result kept_return kept_modify assms)

lemma role_handle [kept_rules]: "kept (has_role r) (node_handle i ep m auth route now later) n"
  by (rule kept_node_handle) (auto intro!: kept_effect kept_rules)

lemma role_requests [simp]: "pn_role (serve_requests qs n) = pn_role n"
  unfolding serve_requests_def
  by (rule kept_foldl [where I = "has_role (pn_role n)"]) (auto simp: serve_request_def intro: kept_rules)

lemma role_propose [kept_rules]: "kept (has_role r) (propose_session g) n"
  by (simp add: kept_def propose_session_def split: role_control.split prod.split)

lemma role_pair [kept_rules]: "kept (has_role r) (node_pair i) n"
  unfolding node_pair_def mismatch_or_fail_def by (intro kept_get kept_rules kept_seq; simp)

lemma role_hello [kept_rules]:
  "kept (has_role r) (prepare_and_accept_hello p) n" "kept (has_role r) (promotion_hello_failed i e) n"
  unfolding prepare_and_accept_hello_def promotion_hello_failed_def recover_preflight_promotion_def
  by - (intro kept_get kept_rules kept_seq; auto)+

lemma role_peer_calls [kept_rules]:
  "kept (has_role r) (peer_begin_drain p) n" "kept (has_role r) (peer_stop_worker p) n"
  unfolding peer_begin_drain_def peer_stop_worker_def
  by - (intro kept_get kept_rules kept_seq; auto)+

lemma role_with_peer [kept_rules]: "kept (has_role r) (with_peer drains p m) n"
proof -
  have "pn_role (snd (peer_begin_drain p n)) = pn_role n" "pn_role (snd (peer_stop_worker p k)) = pn_role k" for k
    using role_peer_calls [THEN keptD] by auto
  then show ?thesis
    by (auto simp: kept_def with_peer_def Let_def split: prod.split) (metis snd_conv)+
qed

section \<open>What a request does to the phase of a worker\<close>

text \<open>
  The worker's phase is ahead of \<open>WorkerPreparing\<close> only while its cluster is distributed and
  the proxy already points to the published target: this is what makes it safe to open the gate
  on \<open>DistributedReady\<close>.
\<close>

definition armed :: "role_control \<Rightarrow> bool" where
  "armed s = (case s of CoordinatorSide _ \<Rightarrow> False | WorkerSide w \<Rightarrow> wk_phase w \<in> {WorkerReady, Draining, Drained})"

lemma armed_worker: "armed s \<Longrightarrow> control_role s = Worker"
  by (simp add: armed_def split: role_control.splits)

text \<open>A request is fresh if the processor has no record of its identifier.\<close>

definition fresh_request :: "role_control \<Rightarrow> control_message \<Rightarrow> bool" where
  "fresh_request s m \<longleftrightarrow> cp_processed (control_processor_of s) (msg_generation m, msg_request_id m) = None"

lemma fresh_applied:
  assumes "handle_validated validate p ep msg auth route now = (Inr r, p')"
  shows "(cp_processed p (msg_generation msg, msg_request_id msg) = None \<longrightarrow> rsp_status r = response_status.Applied)
    \<and> (rsp_status r = response_status.Applied \<longrightarrow> validate (msg_command msg) = None)"
  using assms
proof (cases rule: handle_validated_cases)
  case current
  have adopt: "cp_processed (adopt_generation p msg) k = Some x \<Longrightarrow> cp_processed p k = Some x" for k x
    by (simp add: adopt_generation_def advance_generation_def split: if_splits)
  from current(2) show ?thesis
    by (cases rule: handle_current_cases)
      (auto simp: response_def dest: adopt split: option.splits)
qed auto

lemma worker_effect_disarms:
  assumes "worker_valid ph present c" "wk_phase w = ph" "armed (WorkerSide (worker_effect w c))"
  shows "armed (WorkerSide w)"
  using assms by (cases c) (auto simp: armed_def worker_valid_def split: worker_event_kind.splits)

lemma side_handle_disarms:
  assumes "armed (snd (side_handle s ep m auth route now))"
  shows "armed s"
proof (cases s)
  case (CoordinatorSide c)
  with assms show ?thesis by (simp add: side_handle_def armed_def)
next
  case (WorkerSide w)
  obtain r p where h: "handle_validated (validate_worker_command (wk_phase w) (peer_present (cp_lease (wk_processor w)) now))
      (wk_processor w) ep m auth route now = (r, p)" by fastforce
  have same: "armed (WorkerSide (w\<lparr>wk_processor := p\<rparr>)) = armed s" for p using WorkerSide by (simp add: armed_def)
  have "armed s" if "r = Inr a" "rsp_status a = response_status.Applied"
      "armed (WorkerSide (worker_effect (w\<lparr>wk_processor := p\<rparr>) (msg_command m)))" for a
  proof -
    have "worker_valid (wk_phase w) (peer_present (cp_lease (wk_processor w)) now) (msg_command m)"
      using fresh_applied h that(1,2) by (fastforce simp: validate_worker_command_def split: if_splits)
    from worker_effect_disarms [OF this _ that(3)] same show ?thesis by simp
  qed
  with assms WorkerSide h same show ?thesis
    by (auto simp: side_handle_def worker_handle_def Let_def split: if_splits sum.splits)
qed

text \<open>What a fresh request that is accepted leaves: an effect that stops the worker's child finds
  the phase reset, an effect that opens the gate finds it ahead.\<close>

definition effect_ready :: "control_command \<Rightarrow> role_control \<Rightarrow> bool" where
  "effect_ready c s \<longleftrightarrow> (c = CmdCancelGeneration \<or> c = CmdDemote \<longrightarrow> \<not> armed s)
     \<and> (c = CmdDistributedReady \<longrightarrow> armed s)"

lemma side_handle_effect_ready:
  assumes "side_handle s ep m auth route now = (Inr r, t)" "control_role s = Worker \<longrightarrow> fresh_request s m"
  shows "effect_ready (msg_command m) t"
proof (cases s)
  case (CoordinatorSide c)
  then have "\<not> armed t" "msg_command m \<noteq> CmdDistributedReady"
    using assms(1) side_handle_disarms [of s ep m auth route now]
    by (auto simp: armed_def [of "CoordinatorSide c"] side_handle_def coordinator_handle_def)
  then show ?thesis by (simp add: effect_ready_def)
next
  case (WorkerSide w)
  obtain v p where h: "handle_validated (validate_worker_command (wk_phase w) (peer_present (cp_lease (wk_processor w)) now))
      (wk_processor w) ep m auth route now = (v, p)" by fastforce
  with assms(1) WorkerSide have v: "v = Inr r"
    by (auto simp: side_handle_def worker_handle_def Let_def split: if_splits sum.splits)
  have "rsp_status r = response_status.Applied"
    using fresh_applied h v assms(2) WorkerSide by (fastforce simp: fresh_request_def control_processor_of_def)
  with assms(1) WorkerSide h v have "t = WorkerSide (worker_effect (w\<lparr>wk_processor := p\<rparr>) (msg_command m))"
    by (auto simp: side_handle_def worker_handle_def Let_def split: if_splits)
  then show ?thesis by (auto simp: effect_ready_def armed_def)
qed

lemma side_descriptor_armed [simp]: "armed (snd (side_descriptor s auth route now)) = armed s"
  by (simp add: side_descriptor_def armed_def split: role_control.split)

section \<open>The contract of an invariant\<close>

text \<open>
  What the parts of the node owe an invariant \<open>I\<close>, in environments that are \<open>good\<close>: a
  change of the control keeps it unless it moves a worker's phase ahead, and so does every
  operation of the runtimes at the places where the node calls it. All operations of the node
  then keep it.
\<close>

fun op_environments :: "coordinator_op \<Rightarrow> environment list" where
  "op_environments (CoPromote env _ _ _) = [env]"
| "op_environments (CoDemote env _) = [env]"
| "op_environments (CoPlannedRestart env) = [env]"
| "op_environments _ = []"

locale node_invariant =
  fixes I :: "node \<Rightarrow> bool" and good :: "environment \<Rightarrow> bool"
  assumes control: "\<lbrakk>I n; pn_world n' = pn_world n; pn_role n' = pn_role n;
      armed (pn_control n') \<Longrightarrow> armed (pn_control n)\<rbrakk> \<Longrightarrow> I n'"
    and good_peer: "good env \<Longrightarrow> good (env\<lparr>env_peer_drain := a, env_peer_stop_worker := b\<rparr>)"
    and recover: "event \<in> {PeerLost, cluster_event_kind.DeploymentMismatch} \<Longrightarrow>
      kept I (recover_to_solo env now event) n"
    and pairing: "\<lbrakk>good env; present \<or> cs_state (pn_snapshot n) \<notin> two_node_states\<rbrakk> \<Longrightarrow>
      kept I (on_world NeMode (reconcile_peer_with_presence env (pn_role n) present)) n"
    and prepare: "good (ei_env i) \<Longrightarrow> kept I (prepare_worker i) n"
    and stop: "\<lbrakk>pn_role n = Worker; \<not> armed (pn_control n)\<rbrakk> \<Longrightarrow>
      kept I (seq (on_world NeWorker (worker_cancel env)) (\<lambda>_.
        on_world id (seq (stop_worker_cluster (pn_snapshot n)) (serve_snapshot True True)))) n"
    and serve: "armed (pn_control n) \<Longrightarrow> kept I (on_world id (change_gate start_serving)) n"
    and coordinator: "\<lbrakk>pn_role n = Coordinator; list_all good (op_environments op)\<rbrakk> \<Longrightarrow>
      kept I (on_world NeCoordinator (coordinator_act op)) n"
    and promotion: "\<lbrakk>pn_role n = Coordinator; cs_state (pn_snapshot n) = PairedStandaloneReady\<rbrakk> \<Longrightarrow>
      kept I (node_apply gen BeginPromotion) n"
    and preflight: "pn_role n = Coordinator \<Longrightarrow>
      kept I (on_world id (seq (apply_event NeTransition gen PromotionFailed) (serve_snapshot True True))) n"
    and cleanup: "kept I (on_world NeWorker (cleanup_failure env cause)) n"
    and stop_child: "kept I (on_world id (stop_distributed_child env role)) n"
begin

lemma modify: "(\<And>n. pn_world (f n) = pn_world n \<and> pn_role (f n) = pn_role n \<and> armed (pn_control (f n)) = armed (pn_control n)) \<Longrightarrow>
   kept I (modify_act f) n"
  by (rule kept_modify) (erule control, auto)

lemma settings:
  "kept I (modify_act (lease_update r)) n" "kept I (modify_act node_invalidate_route) n"
  "kept I (modify_act (\<lambda>n. n\<lparr>pn_pairing_blocked := b\<rparr>)) n" "kept I (modify_act unblock_automatic_pairing) n"
  "kept I (modify_act (\<lambda>n. n\<lparr>pn_restart := f (pn_restart n)\<rparr>)) n" "kept I (modify_act begin_planned_restart) n"
  by - (rule modify, simp add: lease_update_def node_invalidate_route_def unblock_automatic_pairing_def
      begin_planned_restart_def armed_def split: option.split role_control.split)+

lemma coordinator_messages: "kept I (coordinator_message wrap f e) n"
  by (auto simp: kept_def coordinator_message_def armed_def elim!: control split: role_control.splits sum.splits)

lemma propose: "kept I (propose_session g) n"
  by (auto simp: kept_def propose_session_def armed_def elim!: control split: role_control.splits prod.splits)

lemma worker_messages:
  assumes "\<And>w m w'. f w = Inr (m, w') \<Longrightarrow> armed (WorkerSide w') \<Longrightarrow> armed (WorkerSide w)"
  shows "kept I (worker_message f) n"
  using assms
  by (auto simp: kept_def worker_message_def elim!: control split: role_control.splits sum.splits)

lemma drained: "kept I (worker_message (\<lambda>w. drained_message w rid)) n"
  by (rule worker_messages) (auto simp: drained_message_def armed_def split: if_splits)

lemma exited: "kept I (worker_message (\<lambda>w. child_exited_message w rid)) n"
  by (rule worker_messages) (auto simp: child_exited_message_def armed_def split: if_splits)

lemma descriptor: "kept I (on_control (\<lambda>s. side_descriptor s auth route now)) n"
  unfolding kept_def on_control_def
  using side_descriptor_role [of "pn_control n" auth route now] side_descriptor_armed [of "pn_control n" auth route now]
  by (auto elim!: control simp del: side_descriptor_role side_descriptor_armed split: prod.split)

lemma handled: "kept I (on_control (\<lambda>s. side_handle s ep m auth route now)) n"
  unfolding kept_def on_control_def
  using side_handle_role [of "pn_control n" ep m auth route now] side_handle_disarms [of "pn_control n" ep m auth route now]
  by (auto elim!: control simp del: side_handle_role split: prod.split)

lemmas basic = settings coordinator_messages propose drained exited descriptor

lemma recoveries:
  "kept I (recover_from_peer_loss env now) n" "kept I (recover_from_forced_policy env now) n"
  "kept I (recover_from_deployment_mismatch env now) n"
  unfolding recover_from_peer_loss_def recover_from_forced_policy_def recover_from_deployment_mismatch_def
  by - (intro kept_get kept_rules kept_seq basic recover; simp)+

lemma reconcile_peer: "good env \<Longrightarrow> kept I (node_reconcile_peer env now) n"
  unfolding node_reconcile_peer_def Let_def
  by (intro kept_get kept_rules pairing recoveries) (auto simp: requires_solo_fallback_def two_node_states_def)

lemma backoff: "pn_role n = Coordinator \<Longrightarrow> kept I (on_world NeCoordinator (reconcile_backoff now)) n"
  using coordinator [of n "CoBackoff now"] by simp

lemma reconcile:
  assumes "good env"
  shows "kept I (reconcile_periodic env now) n" "kept I (node_reconcile env answer now) n"
proof -
  show periodic: "kept I (reconcile_periodic env now) n" for n
    unfolding reconcile_periodic_def
    by (intro kept_get kept_rules backoff recoveries reconcile_peer assms) simp
  show "kept I (node_reconcile env answer now) n"
    unfolding node_reconcile_def by (intro kept_get kept_rules kept_seq basic periodic)
qed

lemma complete_pair:
  "good (ei_env i) \<Longrightarrow> kept I (complete_pair_effect i planned) n"
  unfolding complete_pair_effect_def clear_planned_restart_def
  by (intro kept_get kept_rules kept_seq basic reconcile_peer)

lemma stop_worker_kept:
  assumes "good (ei_env i)" "\<not> armed (pn_control n)"
  shows "kept I (stop_worker i) n"
proof -
  have assoc: "seq m (\<lambda>a. seq (f a) g) = seq (seq m f) g" for m :: "unit nact" and f :: "unit \<Rightarrow> cluster_snapshot nact" and g :: "cluster_snapshot \<Rightarrow> unit nact"
    by (simp add: seq_def fun_eq_iff split: prod.split sum.split)
  show ?thesis
    unfolding stop_worker_def assoc
    by (intro kept_get kept_rules kept_seq [OF stop] basic complete_pair assms kept_seq; use assms in simp)
qed

lemma begin_pair: "good (ei_env i) \<Longrightarrow> kept I (begin_pair_effect i) n"
  unfolding begin_pair_effect_def by (intro kept_get kept_rules kept_seq basic complete_pair)

end

section \<open>Requests and operations of the coordinator\<close>

abbreviation request_ok :: "(environment \<Rightarrow> bool) \<Rightarrow> control_request \<Rightarrow> bool" where
  "request_ok good q \<equiv> good (ei_env (rq_inputs q))"

context node_invariant
begin

lemma effect: "good (ei_env i) \<Longrightarrow> effect_ready c (pn_control n) \<Longrightarrow> kept I (apply_effect i c) n"
  unfolding effect_ready_def
  by (rule kept_effect)
    (auto simp: worker_drained_def clear_planned_restart_def
      intro!: begin_pair prepare stop_worker_kept recoveries serve basic kept_rules kept_seq)

lemma handle:
  assumes "good (ei_env i)" "pn_role n = Worker \<longrightarrow> fresh_request (pn_control n) m"
  shows "kept I (node_handle i ep m auth route now later) n"
proof (rule kept_node_handle)
  fix r t
  assume "on_control (\<lambda>s. side_handle s ep m auth route now) n = (Inr r, t)"
  then have "side_handle (pn_control n) ep m auth route now = (Inr r, pn_control t)"
    by (auto simp: on_control_def split: prod.splits) (case_tac x1, auto)
  from side_handle_effect_ready [OF this assms(2)] show "kept I (apply_effect i (msg_command m)) t"
    by (rule effect [OF assms(1)])
qed (auto intro: descriptor handled keptD [OF settings(1), simplified modify_act_def, simplified]
    keptD [OF settings(3), simplified modify_act_def, simplified])

text \<open>On a coordinator the invariant and the role are kept together.\<close>

abbreviation J :: "node \<Rightarrow> bool" where
  "J n \<equiv> I n \<and> has_role Coordinator n"

lemma asJ: "(pn_role n = Coordinator \<Longrightarrow> kept I m n) \<Longrightarrow> kept (has_role Coordinator) m n \<Longrightarrow> kept J m n"
  by (auto simp: kept_def)

lemma fromJ: "pn_role n = Coordinator \<Longrightarrow> kept J m n \<Longrightarrow> kept I m n"
  by (auto simp: kept_def)

lemma requests: "list_all (request_ok good) qs \<Longrightarrow> J n \<Longrightarrow> J (serve_requests qs n)"
proof (induction qs arbitrary: n)
  case Nil
  then show ?case by (simp add: serve_requests_def)
next
  case (Cons q qs)
  from Cons.prems have "kept J (serve_request q) n"
    unfolding serve_request_def by (intro asJ handle kept_rules) auto
  with Cons.prems have "J (snd (serve_request q n))" by (auto simp: kept_def)
  with Cons.IH [of "snd (serve_request q n)"] Cons.prems show ?case by (simp add: serve_requests_def)
qed

lemma pair: "good (ei_env i) \<Longrightarrow> kept I (node_pair i) n"
  unfolding node_pair_def mismatch_or_fail_def
  by (intro kept_get kept_rules kept_seq basic recoveries reconcile_peer)

lemma hello:
  assumes "list_all (request_ok good) (pi_before_hello p)" "list_all (list_all (request_ok good)) (pi_polls p)"
  shows "kept J (prepare_and_accept_hello p) n"
proof -
  have "J (f k)" if "f \<in> set (map serve_requests (pi_polls p))" "J k" for f k
    using that assms(2) requests by (auto simp: list_all_iff)
  moreover have "kept J (modify_act (serve_requests (pi_before_hello p))) k" for k
    by (rule kept_modify) (use requests [OF assms(1)] in blast)
  ultimately show ?thesis
    unfolding prepare_and_accept_hello_def
    by (intro kept_get kept_await kept_require kept_send kept_seq asJ [OF coordinator_messages]
        asJ [OF settings(1)] role_coordinator_message role_modify) auto
qed

lemma hello_failed: "kept J (promotion_hello_failed i e) n"
proof -
  have "kept J (on_world NeCoordinator (record_promotion_failure CfHelloTimeout (ei_now i))) k" for k
    using coordinator [of k "CoRecordFailure CfHelloTimeout (ei_now i)"] by (intro asJ role_on_world) simp
  then show ?thesis
    unfolding promotion_hello_failed_def recover_preflight_promotion_def
    by (intro kept_if kept_quietly kept_snapshot kept_return kept_fail kept_send kept_seq
        asJ [OF coordinator_messages] asJ [OF recoveries(3)] asJ [OF preflight]
        role_coordinator_message role_recoveries role_on_world)
qed

end

text \<open>What \<open>with_peer\<close> does to the world is the operation in an environment with the peer's
  answers; the control it leaves is still a coordinator's.\<close>

lemma with_peer_result:
  obtains a b where "pn_world (snd (with_peer drains p m n)) =
    snd (m ((ei_env (pi_inputs p))\<lparr>env_peer_drain := a, env_peer_stop_worker := b\<rparr>) (pn_world n))"
  by (simp add: with_peer_def Let_def case_prod_beta)

context node_invariant
begin

lemma peered:
  assumes "pn_role n = Coordinator" "good (ei_env (pi_inputs p))"
    and "\<And>env. good env \<Longrightarrow> kept I (on_world NeCoordinator (m env)) n"
  shows "kept I (with_peer drains p m) n"
proof -
  let ?n = "snd (with_peer drains p m n)"
  obtain a b where w: "pn_world ?n =
      snd (m ((ei_env (pi_inputs p))\<lparr>env_peer_drain := a, env_peer_stop_worker := b\<rparr>) (pn_world n))"
    (is "_ = snd (m ?env _)") by (rule with_peer_result)
  have role: "pn_role ?n = Coordinator" using role_with_peer [THEN keptD] assms(1) .
  have "I ?n" if "I n"
  proof (rule control)
    show "I (snd (on_world NeCoordinator (m ?env) n))"
      using keptD [OF assms(3) [OF good_peer [OF assms(2)]] that] .
    show "pn_world ?n = pn_world (snd (on_world NeCoordinator (m ?env) n))"
      using w by (simp add: on_world_def split: prod.split)
    show "pn_role ?n = pn_role (snd (on_world NeCoordinator (m ?env) n))"
      using role assms(1) by (simp add: on_world_def split: prod.split)
  qed (use role armed_worker in fastforce)
  then show ?thesis by (simp add: kept_def)
qed

lemma demoted: "pn_role n = Coordinator \<Longrightarrow> good (ei_env (pi_inputs p)) \<Longrightarrow>
   kept I (with_peer drains p (\<lambda>env. demote_with_admission env resume)) n"
  using coordinator [of n "CoDemote _ resume"] by (intro peered) simp_all

lemma demote: "good (ei_env (pi_inputs p)) \<Longrightarrow> kept I (node_demote p) n"
  "good (ei_env (pi_inputs p)) \<Longrightarrow> kept I (demote_for_recovery p) n"
  unfolding node_demote_def demote_for_recovery_def by - (intro kept_get kept_rules demoted; simp)+

text \<open>The requests that arrive during a promotion come with good environments.\<close>

abbreviation promote_good :: "promote_inputs \<Rightarrow> bool" where
  "promote_good p \<equiv> good (ei_env (pi_inputs p)) \<and> list_all (request_ok good) (pi_before_hello p)
     \<and> list_all (list_all (request_ok good)) (pi_polls p)"

lemma promote_inside:
  assumes "promote_good p" "pn_role n = Coordinator" "cs_state (pn_snapshot n) = PairedStandaloneReady"
  shows "kept J (seq (node_apply gen BeginPromotion) (\<lambda>_.
       on_result (prepare_and_accept_hello p)
         (\<lambda>_.
           seq get_node (\<lambda>n.
           let ready = in_phase WorkerReady n \<and> pn_peer_present n (pi_ready_at p) in
           seq (with_peer True p (\<lambda>env.
             promote_validated_with_admission env ready (pi_promoted_at p) resume)) (\<lambda>snapshot.
           seq (coordinator_message NeControl
             (\<lambda>c. distributed_ready_message c (ei_request_id (pi_inputs p) 6)) NeWrongRole) (\<lambda>m.
           seq (send_message (pi_inputs p) m) (\<lambda>_.
           return_act snapshot)))))
         (promotion_hello_failed (pi_inputs p)))) n"
proof -
  have "kept J (with_peer True p (\<lambda>env. promote_validated_with_admission env ok now resume)) k" for k ok now
  proof (intro asJ role_with_peer peered)
    show "kept I (on_world NeCoordinator (promote_validated_with_admission env ok now resume)) k"
      if "pn_role k = Coordinator" "good env" for env
      using coordinator [of k "CoPromote env ok now resume"] that by simp
  qed (use assms(1) in simp_all)
  then show ?thesis
    using assms unfolding Let_def
    by (intro kept_get kept_on_result kept_return kept_fail kept_send kept_seq hello hello_failed
        asJ [OF promotion] asJ [OF coordinator_messages] role_on_world role_coordinator_message) simp_all
qed

lemma promote: "promote_good p \<Longrightarrow> kept I (promote_internal p resume) n"
  unfolding promote_internal_def by (intro kept_get kept_rules fromJ promote_inside) auto

lemma promotions: "promote_good p \<Longrightarrow> kept I (node_promote p) n" "promote_good p \<Longrightarrow> kept I (promote_for_recovery p) n"
  unfolding node_promote_def promote_for_recovery_def by - (intro kept_get kept_rules promote; simp)+

lemma route_loss:
  "kept I route_monitor_failed n" "good (ei_env (pi_inputs p)) \<Longrightarrow> kept I (route_stayed_down p) n"
  unfolding route_monitor_failed_def route_stayed_down_def Let_def
  by - (intro kept_get kept_rules recoveries demoted; simp)+

lemma child_failed: "kept I (worker_child_failed i cause) n"
  unfolding worker_child_failed_def notify_worker_child_exit_def
  by (intro kept_get kept_rules kept_seq cleanup basic recoveries)

lemma planned_restart:
  "kept I (prepare_peer_for_planned_restart i) n" "kept I (cancel_peer_planned_restart i) n"
  "good (ei_env (pi_inputs p)) \<Longrightarrow> kept I (node_stop_for_planned_restart p) n"
proof -
  show "kept I (prepare_peer_for_planned_restart i) n" "kept I (cancel_peer_planned_restart i) n"
    unfolding prepare_peer_for_planned_restart_def cancel_peer_planned_restart_def
    by (intro kept_get kept_rules kept_seq basic)+
  have "kept I (with_peer False p stop_for_planned_restart) n"
    if "pn_role n = Coordinator" "good (ei_env (pi_inputs p))"
    using coordinator [of n "CoPlannedRestart _"] that by (intro peered) simp_all
  then show "good (ei_env (pi_inputs p)) \<Longrightarrow> kept I (node_stop_for_planned_restart p) n"
    unfolding node_stop_for_planned_restart_def stop_distributed_def
    by (intro kept_get kept_rules kept_seq stop_child) simp_all
qed

lemma operator:
  assumes "cs_state (pn_snapshot n) = ManualInterventionRequired \<longrightarrow> pn_role n = Coordinator"
  shows "kept I node_operator_reconcile n"
proof -
  have "kept I (on_world NeCoordinator operator_reconcile) n" if "pn_role n = Coordinator" for n
    using coordinator [of n CoOperatorReconcile] that by simp
  then have "kept I (seq get_node (\<lambda>n.
     let was_manual = (cs_state (pn_snapshot n) = ManualInterventionRequired) in
     if pn_role n = Coordinator
     then seq (on_world NeCoordinator operator_reconcile) (\<lambda>_. return_act was_manual)
     else if was_manual
     then seq (node_apply (cs_generation (pn_snapshot n)) OperatorReconcile) (\<lambda>_. return_act was_manual)
     else return_act was_manual)) (unblock_automatic_pairing n)"
    using assms by (intro kept_get) (auto simp: Let_def unblock_automatic_pairing_def intro!: kept_rules kept_seq)
  moreover have "I n \<Longrightarrow> I (unblock_automatic_pairing n)"
    using keptD [OF settings(4)] by (simp add: modify_act_def)
  ultimately show ?thesis
    unfolding node_operator_reconcile_def by (simp add: kept_def seq_def modify_act_def)
qed

lemma tick: "good (ei_env i) \<Longrightarrow> promote_good p \<Longrightarrow> kept I (reconcile_tick i p running) n"
  unfolding reconcile_tick_def Let_def
  by (intro kept_get kept_rules kept_seq reconcile pair promotions)

end

end
