(* ===== verification/Node_Safety.thy ===== *)
theory Node_Safety
  imports Node_Invariant
begin

text \<open>
  The operations of a node in any order, and what holds after every history: the gate serves only
  what the cluster has published, and at most one child may run. Then how a node gets out of a
  half-done operation: the loss of the peer always leads back to a serving solo node once the
  children answer, and nothing else does.
\<close>

section \<open>Histories\<close>

datatype node_op =
  OpTick effect_inputs promote_inputs bool
| OpReconcile effect_inputs
| OpRequest control_request
| OpPair effect_inputs
| OpPromote promote_inputs bool
| OpDemote promote_inputs bool
| OpRouteFailed
| OpRouteDown promote_inputs
| OpPeerLoss environment u64
| OpForcedPolicy environment u64
| OpMismatch environment u64
| OpChildFailed effect_inputs worker_error
| OpUnblock
| OpOperatorReconcile
| OpBeginRestart
| OpCancelRestart
| OpPreparePeer effect_inputs
| OpCancelPeer effect_inputs
| OpStopForRestart promote_inputs

definition discard :: "'a nact \<Rightarrow> unit nact" where
  "discard m = seq m (\<lambda>_. return_act ())"

fun node_act :: "node_op \<Rightarrow> unit nact" where
  "node_act (OpTick i p running) = reconcile_tick i p running"
| "node_act (OpReconcile i) = discard (node_reconcile (ei_env i) (ei_node i) (ei_now i))"
| "node_act (OpRequest q) = discard (serve_request q)"
| "node_act (OpPair i) = discard (node_pair i)"
| "node_act (OpPromote p resume) = discard (if resume then node_promote p else promote_for_recovery p)"
| "node_act (OpDemote p resume) = discard (if resume then node_demote p else demote_for_recovery p)"
| "node_act OpRouteFailed = discard route_monitor_failed"
| "node_act (OpRouteDown p) = discard (route_stayed_down p)"
| "node_act (OpPeerLoss env now) = discard (recover_from_peer_loss env now)"
| "node_act (OpForcedPolicy env now) = discard (recover_from_forced_policy env now)"
| "node_act (OpMismatch env now) = discard (recover_from_deployment_mismatch env now)"
| "node_act (OpChildFailed i cause) = worker_child_failed i cause"
| "node_act OpUnblock = modify_act unblock_automatic_pairing"
| "node_act OpOperatorReconcile = discard node_operator_reconcile"
| "node_act OpBeginRestart = modify_act begin_planned_restart"
| "node_act OpCancelRestart = clear_planned_restart"
| "node_act (OpPreparePeer i) = discard (prepare_peer_for_planned_restart i)"
| "node_act (OpCancelPeer i) = cancel_peer_planned_restart i"
| "node_act (OpStopForRestart p) = node_stop_for_planned_restart p"

definition node_run :: "node \<Rightarrow> node_op list \<Rightarrow> node" where
  "node_run = foldl (\<lambda>n op. snd (node_act op n))"

text \<open>The environments of an operation, those of the requests it serves while it waits
  included.\<close>

definition promote_environments :: "promote_inputs \<Rightarrow> environment list" where
  "promote_environments p = ei_env (pi_inputs p)
     # map (\<lambda>q. ei_env (rq_inputs q)) (pi_before_hello p @ concat (pi_polls p))"

fun node_environments :: "node_op \<Rightarrow> environment list" where
  "node_environments (OpTick i p _) = ei_env i # promote_environments p"
| "node_environments (OpReconcile i) = [ei_env i]"
| "node_environments (OpRequest q) = [ei_env (rq_inputs q)]"
| "node_environments (OpPair i) = [ei_env i]"
| "node_environments (OpPromote p _) = promote_environments p"
| "node_environments (OpDemote p _) = promote_environments p"
| "node_environments (OpRouteDown p) = promote_environments p"
| "node_environments (OpStopForRestart p) = promote_environments p"
| "node_environments _ = []"

text \<open>A worker is sent every request once, and an operator reconciles a node in manual
  intervention only if it is the coordinator.\<close>

fun op_fits :: "node \<Rightarrow> node_op \<Rightarrow> bool" where
  "op_fits n (OpRequest q) \<longleftrightarrow> pn_role n = Worker \<longrightarrow> fresh_request (pn_control n) (rq_message q)"
| "op_fits n OpOperatorReconcile \<longleftrightarrow>
     cs_state (pn_snapshot n) = ManualInterventionRequired \<longrightarrow> pn_role n = Coordinator"
| "op_fits n _ \<longleftrightarrow> True"

fun run_fits :: "(environment \<Rightarrow> bool) \<Rightarrow> node \<Rightarrow> node_op list \<Rightarrow> bool" where
  "run_fits good n [] \<longleftrightarrow> True"
| "run_fits good n (op # ops) \<longleftrightarrow>
     list_all good (node_environments op) \<and> op_fits n op \<and> run_fits good (snd (node_act op n)) ops"

lemma kept_discard: "kept I m n \<Longrightarrow> kept I (discard m) n"
  unfolding discard_def by (intro kept_seq kept_return)

context node_invariant
begin

lemma promote_environments_good: "list_all good (promote_environments p) \<longleftrightarrow> promote_good p"
  by (auto simp: promote_environments_def list_all_iff)

lemma node_act_kept:
  assumes "list_all good (node_environments op)" "op_fits n op"
  shows "kept I (node_act op) n"
  using assms promote_environments_good
  by (cases op)
    (auto simp: serve_request_def clear_planned_restart_def
      intro!: kept_discard tick reconcile handle pair promotions demote route_loss recoveries child_failed
        planned_restart operator settings)

lemma run_kept: "run_fits good n ops \<Longrightarrow> I n \<Longrightarrow> I (node_run n ops)"
proof (induction ops arbitrary: n)
  case (Cons op ops)
  then have "I (snd (node_act op n))" using keptD [OF node_act_kept] by simp
  with Cons show ?case by (simp add: node_run_def)
qed (simp add: node_run_def)

end

section \<open>The gate serves what is published\<close>

definition armed_safe :: "role_control \<Rightarrow> world \<Rightarrow> bool" where
  "armed_safe s w \<longleftrightarrow> (armed s \<longrightarrow> cs_state (rw_cluster w) = DistributedReady \<and> rw_target w = cs_target (rw_cluster w))"

definition node_ok :: "node \<Rightarrow> bool" where
  "node_ok n \<longleftrightarrow> offered (pn_world n) \<and> armed_safe (pn_control n) (pn_world n)"

lemma unarmed_ok: "offered w \<Longrightarrow> \<not> armed (pn_control n) \<Longrightarrow> node_ok (n\<lparr>pn_world := w\<rparr>)"
  by (simp add: node_ok_def armed_safe_def)

lemma shut_offered: "shut w \<Longrightarrow> offered w"
  by (rule off.shut_kept)

lemma on_world_unarmed:
  assumes "\<not> armed (pn_control n)" "wp m (\<lambda>_. offered) (\<lambda>_. offered) (pn_world n)"
  shows "kept node_ok (on_world wrap m) n"
  using assms unfolding wp_result
  by (auto simp: kept_def on_world_def intro: unarmed_ok split: prod.split)

lemma on_world_same:
  assumes "snd (m (pn_world n)) = pn_world n"
  shows "kept node_ok (on_world wrap m) n"
  using assms by (auto simp: kept_def on_world_def split: prod.split)

lemma begin_recovery_shuts:
  assumes "undrained w" "cur = rw_cluster w"
  shows "wp (begin_recovery cur event) (\<lambda>_. shut)
     (\<lambda>_ v. shut v \<and> rw_cluster v = cur \<and> next_stable cur event = None) w"
proof -
  have "wp (apply_event NeTransition (cs_generation cur) event) (\<lambda>_. shut)
     (\<lambda>_ v. shut v \<and> rw_cluster v = cur \<and> next_stable cur event = None) v" if sv: "shut v" "rw_cluster v = cur" for v
  proof (cases "next_stable cur event")
    case None
    with sv show ?thesis by (simp add: wp_apply_event transition_new)
  next
    case (Some r)
    then obtain c where "transition (rw_cluster v) (event_new (cs_generation cur) event) = Inr c"
      using sv(2) by (cases r) (auto simp: transition_new)
    with sv show ?thesis using transition_coherent by (simp add: wp_apply_event shut_def serving_def)
  qed
  then show ?thesis
    unfolding begin_recovery_def
    by (intro wp_seqI block_transition_shuts [OF assms(1)] wp_ifI wp_returnI) (simp_all add: assms(2))
qed

lemma stop_child_shut:
  "shut w \<Longrightarrow> (\<And>v. shut v \<Longrightarrow> Q () v) \<Longrightarrow> (\<And>e v. shut v \<Longrightarrow> E e v) \<Longrightarrow> wp (stop_distributed_child env role) Q E w"
  by (cases role) (auto simp: stop_distributed_child_def wp_return intro: call_shut)

lemma finish_recovery_publishes:
  assumes "shut w"
  shows "wp (finish_recovery env role starting) (\<lambda>_. published) (\<lambda>_. published) w"
  unfolding finish_recovery_def
  by (intro wp_seqI stop_child_shut [OF assms] shut_rules)
    (auto simp: ready_kind_def intro: serve_ready shut_undrained shut_published)

lemma reset_unarmed: "\<not> armed (pn_control (reset_for_repair now n))"
  by (simp add: armed_def reset_for_repair_def worker_reset_for_repair_def split: role_control.split)

lemma reset_world [simp]: "pn_world (reset_for_repair now n) = pn_world n"
  by (simp add: reset_for_repair_def)

lemma recovery_stages_ok:
  assumes ok: "node_ok n" and event: "event \<in> {PeerLost, cluster_event_kind.DeploymentMismatch}"
  shows "wp (seq (on_world id (begin_recovery (pn_snapshot n) event)) (\<lambda>starting.
       seq (modify_act (reset_for_repair now)) (\<lambda>_.
       seq (on_world id (finish_recovery env role starting)) (\<lambda>ready.
       seq (modify_act (\<lambda>n. n\<lparr>pn_completed_generation := cs_generation ready\<rparr>)) (\<lambda>_.
       return_act ready))))) (\<lambda>_. node_ok) (\<lambda>_. node_ok) n"
proof -
  have u: "undrained (pn_world n)" using ok by (simp add: node_ok_def off.undrained)
  have unarmed: "\<not> armed (pn_control n)" if "next_stable (pn_snapshot n) event = None"
    using ok event that by (auto simp: node_ok_def armed_safe_def split: if_splits)
  have finish: "wp (seq (modify_act (reset_for_repair now)) (\<lambda>_.
       seq (on_world id (finish_recovery env role starting)) (\<lambda>ready.
       seq (modify_act (\<lambda>n. n\<lparr>pn_completed_generation := cs_generation ready\<rparr>)) (\<lambda>_.
       return_act ready)))) (\<lambda>_. node_ok) (\<lambda>_. node_ok) (n\<lparr>pn_world := v\<rparr>)"
    if v: "shut v" for v starting
    unfolding wp_seq wp_modify wp_on_world reset_world
    by (rule wp_mono, simp, rule finish_recovery_publishes [OF v])
      (use reset_unarmed [of now "n\<lparr>pn_world := v\<rparr>"] in \<open>auto simp: wp_eqs node_ok_def armed_safe_def offered_def\<close>)
  show ?thesis
    by (rule wp_seqI, unfold wp_on_world, rule wp_mono [OF begin_recovery_shuts [OF u refl]])
      (use unarmed in \<open>auto simp: finish shut_offered intro: unarmed_ok\<close>)
qed

lemma mismatch_stays_ready:
  "cs_state c = SoloStandaloneReady \<Longrightarrow>
   transition c (event_new gen cluster_event_kind.DeploymentMismatch) = Inr n \<Longrightarrow> cs_state n \<in> ready_states"
  by (auto simp: transition_new snapshot_new_def ready_states_def split: if_splits)

lemma recover_to_solo_ok:
  assumes event: "event \<in> {PeerLost, cluster_event_kind.DeploymentMismatch}"
  shows "kept node_ok (recover_to_solo env now event) n"
proof (rule keptI)
  assume ok: "node_ok n"
  have "kept node_ok (on_world id (seq (apply_event NeTransition (cs_generation (pn_snapshot n)) cluster_event_kind.DeploymentMismatch)
      (serve_snapshot True True))) n" if solo: "cs_state (pn_snapshot n) = SoloStandaloneReady"
  proof (rule on_world_unarmed)
    show "\<not> armed (pn_control n)" using ok solo by (auto simp: node_ok_def armed_safe_def)
    have w: "offered (pn_world n)" using ok by (simp add: node_ok_def)
    show "wp (seq (apply_event NeTransition (cs_generation (pn_snapshot n)) cluster_event_kind.DeploymentMismatch)
        (serve_snapshot True True)) (\<lambda>_. offered) (\<lambda>_. offered) (pn_world n)"
      by (intro wp_seqI apply_undrained [OF off.undrained [OF w]] serve_at_ready)
        (auto dest: mismatch_stays_ready [OF solo] simp: w off.publish)
  qed
  then show "wp (recover_to_solo env now event) (\<lambda>_. node_ok) (\<lambda>_. node_ok) n"
    unfolding recover_to_solo_def
    using recovery_stages_ok [OF ok event] ok by (simp add: wp_eqs Let_def kept_def wp_result [symmetric])
qed

lemma pairing_ok:
  assumes "calm env" "present \<or> cs_state (pn_snapshot n) \<notin> two_node_states"
  shows "kept node_ok (on_world wrap (reconcile_peer_with_presence env role present)) n"
proof (cases "armed (pn_control n)")
  case True
  show ?thesis
  proof (rule keptI)
    assume "node_ok n"
    with True have "cs_state (pn_snapshot n) = DistributedReady" by (simp add: node_ok_def armed_safe_def)
    with assms(2) have "snd (reconcile_peer_with_presence env role present (pn_world n)) = pn_world n"
      by (simp add: reconcile_peer_with_presence_def seq_def get_snapshot_def return_act_def two_node_states_def)
    from on_world_same [where wrap = wrap and m = "reconcile_peer_with_presence env role present", OF this] \<open>node_ok n\<close>
    show "wp (on_world wrap (reconcile_peer_with_presence env role present)) (\<lambda>_. node_ok) (\<lambda>_. node_ok) n"
      by (simp add: kept_def wp_result)
  qed
next
  case False
  then show ?thesis
    using off.reconcile_peer_keeps [OF assms(1)] unfolding wp_result
    by (auto simp: kept_def on_world_def node_ok_def armed_safe_def split: prod.splits) (metis snd_conv)
qed

lemma route_shut:
  assumes "shut w"
  shows "wp (publish_worker_route gen)
     (\<lambda>_ v. shut v \<and> cs_state (rw_cluster v) = DistributedReady \<and> rw_target v = cs_target (rw_cluster v)) (\<lambda>_. shut) w"
proof -
  have ready: "transition c (event_new g DistributedRouteReady) = Inr c' \<Longrightarrow> cs_state c' = DistributedReady" for c g c'
    by (auto simp: transition_new snapshot_new_def split: if_splits)
  show ?thesis
    unfolding publish_worker_route_def
    by (intro wp_seqI apply_shut [OF assms] apply_shut) (use assms in \<open>auto simp: wp_set_target shut_def serving_def dest: ready\<close>)
qed

text \<open>The worker's own message that it is ready arms it, with the route already published.\<close>

lemma ready_message_ok:
  assumes "shut v" "cs_state (rw_cluster v) = DistributedReady" "rw_target v = cs_target (rw_cluster v)"
  shows "wp (seq (worker_message f) (\<lambda>m. seq (send_message i m) (\<lambda>_. return_act ())))
     (\<lambda>_. node_ok) (\<lambda>_. node_ok) (n\<lparr>pn_world := v\<rparr>)"
proof -
  have "wp (worker_message f) (\<lambda>_. node_ok) (\<lambda>_. node_ok) (n\<lparr>pn_world := v\<rparr>)"
    unfolding wp_result using assms shut_offered
    by (auto simp: worker_message_def node_ok_def armed_safe_def split: role_control.split sum.split)
  then show ?thesis
    by (rule wp_mono [THEN wp_seqI]) (auto simp: wp_eqs send_via_def split: sum.split)
qed

lemma prepare_stages_ok:
  assumes "calm (ei_env i)" "\<not> armed (pn_control n)" "undrained v"
  shows "wp (seq (on_world NeWorker (worker_prepare (ei_env i) gen)) (\<lambda>_.
       seq (on_world id (publish_worker_route gen)) (\<lambda>_.
       seq (worker_message f) (\<lambda>m. seq (send_message i m) (\<lambda>_. return_act ())))))
     (\<lambda>_. node_ok) (\<lambda>_. node_ok) (n\<lparr>pn_world := v\<rparr>)"
proof -
  have sh: "shut k \<Longrightarrow> node_ok (n\<lparr>pn_world := k\<rparr>)" for k by (simp add: unarmed_ok assms(2) shut_offered)
  have route: "wp (seq (on_world id (publish_worker_route gen)) (\<lambda>_.
       seq (worker_message f) (\<lambda>m. seq (send_message i m) (\<lambda>_. return_act ()))))
     (\<lambda>_. node_ok) (\<lambda>_. node_ok) (n\<lparr>pn_world := k\<rparr>)" if "shut k" for k
    by (rule wp_seqI, unfold wp_on_world, rule wp_mono, simp, rule route_shut [OF that])
      (simp_all add: ready_message_ok sh)
  show ?thesis
    by (rule wp_seqI, unfold wp_on_world, rule wp_mono, simp, rule worker_prepare_shuts [OF assms(1,3)])
      (simp_all add: route sh)
qed

lemma prepare_worker_ok:
  assumes "calm (ei_env i)"
  shows "kept node_ok (prepare_worker i) n"
proof (rule keptI)
  assume ok: "node_ok n"
  have u: "undrained (pn_world n)" using ok by (simp add: node_ok_def off.undrained)
  have unarmed: "\<not> armed (pn_control n)" if "cs_state (pn_snapshot n) = PairedStandaloneReady"
    using ok that by (auto simp: node_ok_def armed_safe_def)
  have require: "wp require_worker Q E n = (if pn_role n = Worker then Q () n else E NeWrongRole n)" for Q E
    by (simp add: wp_def require_worker_def)
  have start: "wp (node_apply gen BeginPromotion) (\<lambda>awaiting.
      wp (seq (on_world NeWorker (worker_prepare (ei_env i) (cs_generation awaiting))) (\<lambda>_.
       seq (on_world id (publish_worker_route (cs_generation awaiting))) (\<lambda>_.
       seq (worker_message (\<lambda>w. worker_ready_message w (ei_request_id i 0) (cs_generation awaiting))) (\<lambda>m.
       seq (send_message i m) (\<lambda>_. return_act ()))))) (\<lambda>_. node_ok) (\<lambda>_. node_ok)) (\<lambda>_. node_ok) n"
    if "\<not> armed (pn_control n)" for gen
    unfolding wp_on_world
    by (rule apply_undrained [OF u]) (use prepare_stages_ok [OF assms that] ok in simp_all)
  show "wp (prepare_worker i) (\<lambda>_. node_ok) (\<lambda>_. node_ok) n"
    unfolding prepare_worker_def wp_seq [of require_worker] require wp_seq [of node_snapshot]
    using start unarmed ok by (auto simp: wp_on_world wp_snapshot wp_seq [of "on_world id (apply_event _ _ _)"] wp_fail)
qed

lemma stop_cluster_offers:
  assumes "shut w" "rw_cluster w = cur"
  shows "wp (seq (stop_worker_cluster cur) (serve_snapshot True True)) (\<lambda>_. offered) (\<lambda>_. offered) w"
proof (cases "cs_state cur = PairedStandaloneReady")
  case True
  then show ?thesis
    using assms by (auto simp: stop_worker_cluster_def wp_seq wp_return ready_states_def
        intro!: serve_at_ready shut_undrained off.publish)
next
  case False
  have "wp (seq (apply_event NeTransition g PromotionFailed) (serve_snapshot True True)) (\<lambda>_. offered) (\<lambda>_. offered) w" for g
    by (intro wp_seqI apply_shut [OF assms(1)])
      (auto simp: ready_kind_def assms shut_offered intro: serve_ready shut_undrained off.publish)
  moreover have "wp (seq (seq (apply_event NeTransition g BeginDemotion) (\<lambda>demoting.
      apply_event NeTransition (cs_generation demoting) PairingReady)) (serve_snapshot True True))
      (\<lambda>_. offered) (\<lambda>_. offered) w" for g
    by (intro wp_seqI apply_shut [OF assms(1)] apply_shut)
      (auto simp: ready_kind_def assms shut_offered intro: serve_ready shut_undrained off.publish)
  ultimately show ?thesis
    using False shut_offered [OF assms(1)]
    by (auto simp: stop_worker_cluster_def wp_seq [of "fail_act _"] wp_fail split: cluster_state.split)
qed

lemma stop_ok:
  assumes "\<not> armed (pn_control n)"
  shows "kept node_ok (seq (on_world NeWorker (worker_cancel env)) (\<lambda>_.
      on_world id (seq (stop_worker_cluster (pn_snapshot n)) (serve_snapshot True True)))) n"
proof (rule keptI)
  assume "node_ok n"
  then have u: "undrained (pn_world n)" by (simp add: node_ok_def off.undrained)
  show "wp (seq (on_world NeWorker (worker_cancel env)) (\<lambda>_.
      on_world id (seq (stop_worker_cluster (pn_snapshot n)) (serve_snapshot True True)))) (\<lambda>_. node_ok) (\<lambda>_. node_ok) n"
    by (rule wp_seqI, unfold wp_on_world, rule wp_mono [OF worker_cancel_shuts [OF u]])
      (auto intro!: wp_mono [OF stop_cluster_offers] simp: unarmed_ok assms shut_offered)
qed

lemma open_armed_ok:
  assumes "armed (pn_control n)"
  shows "kept node_ok (on_world id (change_gate start_serving)) n"
proof (rule keptI)
  assume ok: "node_ok n"
  then have w: "undrained (pn_world n)" "cs_state (pn_snapshot n) = DistributedReady"
    "rw_target (pn_world n) = cs_target (pn_snapshot n)"
    using assms by (simp_all add: node_ok_def armed_safe_def off.undrained)
  have "cs_role (pn_snapshot n) \<noteq> Unknown \<Longrightarrow> available (cs_target (pn_snapshot n))"
    using w by (intro coherent_ready_available) (simp_all add: undrained_def ready_states_def)
  with w show "wp (on_world id (change_gate start_serving)) (\<lambda>_. node_ok) (\<lambda>_. node_ok) n"
    by (auto simp: wp_on_world wp_change_gate node_ok_def armed_safe_def offered_def published_def undrained_def
        serving_def start_serving_def)
qed

lemma coordinator_ok:
  assumes "pn_role n = Coordinator" "list_all calm (op_environments op)"
  shows "kept node_ok (on_world NeCoordinator (coordinator_act op)) n"
proof -
  have "\<not> armed (pn_control n)" using assms(1) armed_worker by fastforce
  moreover have "calm_op op" using assms(2) by (cases op) simp_all
  ultimately show ?thesis
    using off.coordinator_act_keeps by (auto simp: kept_def on_world_def node_ok_def armed_safe_def split: prod.split)
      (metis snd_conv)
qed

lemma promotion_ok:
  assumes "\<not> armed (pn_control n)" "cs_state (pn_snapshot n) = PairedStandaloneReady"
  shows "kept node_ok (node_apply gen BeginPromotion) n"
proof (rule keptI)
  assume "node_ok n"
  then have p: "published (pn_world n)" using assms(2) by (simp add: node_ok_def offered_def)
  have "offered v" if "undrained v" "rw_cluster v = c" "transition (pn_snapshot n) (event_new gen BeginPromotion) = Inr c"
    "v = (pn_world n)\<lparr>rw_cluster := c\<rparr>" for v c
    using that p assms(2) transition_role [OF that(3)]
    by (auto simp: offered_def published_def serving_def transition_new snapshot_new_def split: if_splits)
  then show "wp (node_apply gen BeginPromotion) (\<lambda>_. node_ok) (\<lambda>_. node_ok) n"
    using p \<open>node_ok n\<close> transition_coherent
    by (auto simp: wp_on_world wp_apply_event unarmed_ok assms(1) published_def undrained_def serving_def split: sum.split)
qed

lemma preflight_ok:
  assumes "\<not> armed (pn_control n)"
  shows "kept node_ok (on_world id (seq (apply_event NeTransition gen PromotionFailed) (serve_snapshot True True))) n"
proof (rule keptI)
  assume "node_ok n"
  then have w: "offered (pn_world n)" by (simp add: node_ok_def)
  have "wp (seq (apply_event NeTransition gen PromotionFailed) (serve_snapshot True True)) (\<lambda>_. offered) (\<lambda>_. offered) (pn_world n)"
    by (intro wp_seqI apply_undrained [OF off.undrained [OF w]])
      (auto simp: ready_kind_def w intro: serve_ready off.publish)
  then show "wp (on_world id (seq (apply_event NeTransition gen PromotionFailed) (serve_snapshot True True)))
      (\<lambda>_. node_ok) (\<lambda>_. node_ok) n"
    unfolding wp_on_world by (rule wp_mono) (simp_all add: unarmed_ok assms)
qed

lemma cleanup_ok: "kept node_ok (on_world NeWorker (cleanup_failure env cause)) n"
  by (rule keptI)
    (auto simp: wp_eqs cleanup_failure_def node_ok_def armed_safe_def offered_def published_def undrained_def
      serving_def block_def)

lemma stop_child_ok: "kept node_ok (on_world id (stop_distributed_child env role)) n"
  by (rule keptI, cases role)
    (auto simp: wp_eqs Let_def stop_distributed_child_def node_ok_def armed_safe_def offered_def published_def
      undrained_def serving_def)

interpretation nok: node_invariant node_ok calm
proof unfold_locales
  show "node_ok n'" if "node_ok n" "pn_world n' = pn_world n" "armed (pn_control n') \<Longrightarrow> armed (pn_control n)" for n n'
    using that by (auto simp: node_ok_def armed_safe_def)
  have unarmed: "\<not> armed (pn_control n)" if "pn_role n = Coordinator" for n
    using that armed_worker by fastforce
  show "kept node_ok (node_apply gen BeginPromotion) n"
    if "pn_role n = Coordinator" "cs_state (pn_snapshot n) = PairedStandaloneReady" for n gen
    using that by (intro promotion_ok unarmed)
  show "kept node_ok (on_world id (seq (apply_event NeTransition gen PromotionFailed) (serve_snapshot True True))) n"
    if "pn_role n = Coordinator" for n gen
    using that by (intro preflight_ok unarmed)
qed (simp_all add: calm_def recover_to_solo_ok pairing_ok prepare_worker_ok stop_ok open_armed_ok coordinator_ok
    cleanup_ok stop_child_ok)

section \<open>One child at a time\<close>

abbreviation node_exclusive :: "node \<Rightarrow> bool" where
  "node_exclusive n \<equiv> exclusive (pn_world n)"

lemma exclusive_on_world:
  assumes "exclusive (pn_world n) \<Longrightarrow> wp m (\<lambda>_. exclusive) (\<lambda>_. exclusive) (pn_world n)"
  shows "kept node_exclusive (on_world wrap m) n"
  using assms unfolding wp_result by (auto simp: kept_def on_world_def split: prod.split)

lemma exclusive_same_log:
  assumes "rw_log (snd (m (pn_world n))) = rw_log (pn_world n)"
  shows "kept node_exclusive (on_world wrap m) n"
  using assms by (auto simp: kept_def on_world_def exclusive_def split: prod.split)

text \<open>A recovery that gets as far as starting the standalone child has stopped the other one.\<close>

lemma finish_recovery_exclusive:
  assumes "exclusive w" "role \<noteq> Unknown"
  shows "wp (finish_recovery env role starting) (\<lambda>_. exclusive) (\<lambda>_. exclusive) w"
  using assms(2)
  by (rule_tac exclusiveE [OF assms(1)], unfold finish_recovery_def stop_distributed_child_def, cases role)
    (simp_all, (intro wp_seqI log_rules, simp_all add: exclusive_simps)+)

lemma recover_exclusive: "kept node_exclusive (recover_to_solo env now event) n"
proof -
  have role: "pn_role n \<noteq> Unknown" by (cases "pn_control n") simp_all
  have finish: "kept node_exclusive (on_world id (finish_recovery env (pn_role n) c)) k" for c k
    by (rule exclusive_on_world) (rule finish_recovery_exclusive [OF _ role])
  have start: "kept node_exclusive (on_world id (begin_recovery cur event)) k" for cur k
    by (rule exclusive_on_world)
      (simp add: begin_recovery_def wp_eqs block_transition_def exclusive_def split: sum.split)
  have mark: "kept node_exclusive (on_world id (seq (apply_event NeTransition g event) (serve_snapshot True True))) k" for g k
    by (rule exclusive_on_world) (simp add: wp_eqs serve_snapshot_def exclusive_def split: sum.split)
  show ?thesis
    unfolding recover_to_solo_def Let_def
    by (intro kept_get kept_rules kept_seq finish start mark kept_modify) simp_all
qed

lemma pairing_exclusive:
  assumes "present \<or> cs_state (pn_snapshot n) \<notin> two_node_states"
  shows "kept node_exclusive (on_world wrap (reconcile_peer_with_presence env role present)) n"
proof (rule exclusive_on_world)
  assume "exclusive (pn_world n)"
  then have "wp (form_pair env role cur) (\<lambda>_. exclusive) (\<lambda>_. exclusive) (pn_world n)" for cur
    by (rule_tac exclusiveE, assumption, unfold form_pair_def publish_and_serve_eq,
        intro wp_seqI wp_ifI wp_drainedI log_rules) (simp_all add: exclusive_simps)
  with assms \<open>exclusive (pn_world n)\<close>
  show "wp (reconcile_peer_with_presence env role present) (\<lambda>_. exclusive) (\<lambda>_. exclusive) (pn_world n)"
    unfolding reconcile_peer_with_presence_def by (auto simp: wp_eqs)
qed

lemma prepare_exclusive: "kept node_exclusive (prepare_worker i) n"
proof -
  have "kept node_exclusive (on_world NeWorker (worker_prepare env g)) k" for env g k
    by (rule exclusive_on_world) (rule worker_prepare_exclusive)
  moreover have "kept node_exclusive (node_apply g e) k" for g e k
    by (rule exclusive_on_world) (simp add: wp_eqs exclusive_def split: sum.split)
  moreover have "kept node_exclusive (on_world id (publish_worker_route g)) k" for g k
    by (rule exclusive_on_world)
      (unfold publish_worker_route_def, intro wp_seqI log_rules, simp_all add: exclusive_def)
  moreover have "kept node_exclusive (worker_message f) k" for f k
    by (auto simp: kept_def worker_message_def split: role_control.split sum.split)
  ultimately show ?thesis
    unfolding prepare_worker_def by (intro kept_get kept_rules kept_seq)
qed

lemma stop_exclusive:
  "kept node_exclusive (seq (on_world NeWorker (worker_cancel env)) (\<lambda>_.
      on_world id (seq (stop_worker_cluster cur) (serve_snapshot True True)))) n"
proof -
  have "kept node_exclusive (on_world NeWorker (worker_cancel env)) n"
    by (rule exclusive_on_world) (rule worker_cancel_exclusive)
  moreover have "kept node_exclusive (on_world id (seq (stop_worker_cluster cur) (serve_snapshot True True))) k" for k
    by (rule exclusive_on_world)
      (auto simp: stop_worker_cluster_def wp_eqs serve_snapshot_def exclusive_def split: cluster_state.split sum.split)
  ultimately show ?thesis by (rule kept_seq)
qed

lemma cleanup_exclusive: "kept node_exclusive (on_world NeWorker (cleanup_failure env cause)) n"
  by (rule exclusive_on_world, erule exclusiveE) (auto simp: cleanup_failure_def wp_eqs exclusive_simps)

lemma stop_child_exclusive: "kept node_exclusive (on_world id (stop_distributed_child env role)) n"
  by (rule exclusive_on_world, erule exclusiveE, cases role)
    (auto simp: stop_distributed_child_def wp_eqs Let_def exclusive_simps)

interpretation nex: node_invariant node_exclusive "\<lambda>_. True"
proof unfold_locales
  show "kept node_exclusive (on_world NeCoordinator (coordinator_act op)) n" for op n
    using coordinator_act_exclusive by (intro exclusive_on_world) (simp add: wp_result)
  show "kept node_exclusive (on_world id (change_gate start_serving)) n" for n
    by (rule exclusive_same_log) (simp add: change_gate_def modify_act_def)
  show "kept node_exclusive (node_apply gen BeginPromotion) n" for gen n
    by (rule exclusive_on_world) (simp add: wp_eqs exclusive_def split: sum.split)
  show "kept node_exclusive (on_world id (seq (apply_event NeTransition gen PromotionFailed) (serve_snapshot True True))) n" for gen n
    by (rule exclusive_on_world) (simp add: wp_eqs serve_snapshot_def exclusive_def split: sum.split)
qed (simp_all add: recover_exclusive pairing_exclusive prepare_exclusive stop_exclusive cleanup_exclusive
    stop_child_exclusive)

section \<open>The way back to a solo node\<close>

text \<open>The children obey the calls of a recovery.\<close>

definition recovery_works :: "environment \<Rightarrow> bool" where
  "recovery_works env \<longleftrightarrow> env_coordinator_stop env \<and> env_worker_stop env \<and> env_standalone_start env"

text \<open>A node that is solo and serves, or that a recovery does not regard as recovered yet.\<close>

definition recoverable :: "node \<Rightarrow> bool" where
  "recoverable n \<longleftrightarrow> \<not> restart_active (pn_restart n)
     \<and> (at_rest {SoloStandaloneReady} True (pn_world n)
        \<or> requires_solo_fallback (cs_state (pn_snapshot n)) \<and> pn_completed_generation n < cs_generation (pn_snapshot n)
          \<and> (cs_state (pn_snapshot n) \<noteq> SoloStandaloneStarting \<longrightarrow> cs_generation (pn_snapshot n) \<noteq> - 1))"

lemma begin_recovery_starts:
  assumes "requires_solo_fallback (cs_state cur)" "rw_cluster w = cur"
  shows "wp (begin_recovery cur PeerLost) (\<lambda>c v. rw_cluster v = c \<and> cs_state c = SoloStandaloneStarting
      \<and> (c = cur \<or> cs_generation c = cs_generation cur + 1 \<and> cs_state cur \<noteq> SoloStandaloneStarting)) (\<lambda>_ _. False) w"
  using assms
  by (auto simp: begin_recovery_def wp_eqs block_transition_def requires_solo_fallback_def transition_new
      snapshot_new_def)

lemma finish_recovery_settles:
  assumes "rw_cluster w = c" "cs_state c = SoloStandaloneStarting"
  shows "wp (finish_recovery env role c)
     (\<lambda>s v. cs_state s = SoloStandaloneReady \<and> at_rest {SoloStandaloneReady} True v)
     (\<lambda>_ v. rw_cluster v = c \<and> \<not> recovery_works env) w"
  using assms
  by (cases role)
    (auto simp: finish_recovery_def stop_distributed_child_def wp_eqs Let_def transition_new snapshot_new_def
      serve_snapshot_def at_rest_def serving_def start_serving_def recovery_works_def)

lemma recover_from_peer_loss_settles:
  assumes "recoverable n"
  shows "wp (recover_from_peer_loss env now)
     (\<lambda>s n'. cs_state s = SoloStandaloneReady \<and> at_rest {SoloStandaloneReady} True (pn_world n') \<and> recoverable n')
     (\<lambda>_ n'. recoverable n' \<and> \<not> recovery_works env) n"
proof (cases "cs_state (pn_snapshot n) = SoloStandaloneReady")
  case True
  with assms have "at_rest {SoloStandaloneReady} True (pn_world n)" by (auto simp: recoverable_def requires_solo_fallback_def)
  with True assms show ?thesis
    by (simp add: recover_from_peer_loss_def recover_to_solo_def wp_eqs Let_def recoverable_def)
next
  case False
  with assms have r: "\<not> restart_active (pn_restart n)" "requires_solo_fallback (cs_state (pn_snapshot n))"
    "pn_completed_generation n < cs_generation (pn_snapshot n)"
    "cs_state (pn_snapshot n) \<noteq> SoloStandaloneStarting \<longrightarrow> cs_generation (pn_snapshot n) \<noteq> - 1"
    by (auto simp: recoverable_def at_rest_def)
  have later: "pn_completed_generation n < cs_generation c"
    if "c = pn_snapshot n \<or> cs_generation c = cs_generation (pn_snapshot n) + 1 \<and> cs_state (pn_snapshot n) \<noteq> SoloStandaloneStarting"
    for c
    using that r(3,4) inc_less_eq_self_iff_eq [of "cs_generation (pn_snapshot n)"] by auto
  let ?Q = "\<lambda>s n'. cs_state s = SoloStandaloneReady \<and> at_rest {SoloStandaloneReady} True (pn_world n') \<and> recoverable n'"
  let ?E = "\<lambda>_ n'. recoverable n' \<and> \<not> recovery_works env"
  have finish: "wp (seq (modify_act (reset_for_repair now)) (\<lambda>_.
       seq (on_world id (finish_recovery env (pn_role n) c)) (\<lambda>ready.
       seq (modify_act (\<lambda>n. n\<lparr>pn_completed_generation := cs_generation ready\<rparr>)) (\<lambda>_.
       return_act ready)))) ?Q ?E (n\<lparr>pn_world := v\<rparr>)"
    if v: "rw_cluster v = c" "cs_state c = SoloStandaloneStarting" "pn_completed_generation n < cs_generation c" for v c
    unfolding wp_seq wp_modify wp_on_world reset_world
    by (rule wp_mono, simp, rule finish_recovery_settles [OF v(1,2)])
      (use r(1) v in \<open>auto simp: wp_eqs recoverable_def reset_for_repair_def requires_solo_fallback_def\<close>)
  have "wp (seq (on_world id (begin_recovery (pn_snapshot n) PeerLost)) (\<lambda>c.
       seq (modify_act (reset_for_repair now)) (\<lambda>_.
       seq (on_world id (finish_recovery env (pn_role n) c)) (\<lambda>ready.
       seq (modify_act (\<lambda>n. n\<lparr>pn_completed_generation := cs_generation ready\<rparr>)) (\<lambda>_.
       return_act ready))))) ?Q ?E n"
    by (rule wp_seqI, unfold wp_on_world, rule wp_mono [OF begin_recovery_starts [OF r(2) refl]])
      (auto simp: finish later)
  moreover have "\<not> cs_generation (pn_snapshot n) \<le> pn_completed_generation n" using r(3) by simp
  ultimately show ?thesis
    using r(1) False
    by (simp add: recover_from_peer_loss_def recover_to_solo_def wp_seq [of get_node] wp_get_node Let_def)
qed

section \<open>Half-done operations\<close>

text \<open>The states an operation passes through. Only the operation itself and the recovery of a
  lost peer lead out of them.\<close>

definition half_done :: "cluster_state set" where
  "half_done = {Pairing, AwaitingWorkerHello, Promoting, DistributedStarting, Demoting}"

text \<open>What an operator or the reconcile task can do to a coordinator whose peer is present.\<close>

fun routine :: "node \<Rightarrow> node_op \<Rightarrow> bool" where
  "routine n (OpReconcile i) \<longleftrightarrow> \<not> isl (ei_node i) \<and> pn_peer_present n (ei_now i)"
| "routine n (OpPromote p resume) \<longleftrightarrow> True"
| "routine n (OpDemote p resume) \<longleftrightarrow> True"
| "routine n OpOperatorReconcile \<longleftrightarrow> True"
| "routine n _ \<longleftrightarrow> False"

definition same_service :: "world \<Rightarrow> world \<Rightarrow> bool" where
  "same_service w v \<longleftrightarrow> rw_cluster v = rw_cluster w \<and> rw_gate v = rw_gate w \<and> rw_target v = rw_target w"

lemma demote_half_done:
  assumes "cs_state (pn_snapshot n) \<in> half_done"
  shows "pn_world (snd (with_peer d p (\<lambda>env. demote_with_admission env r) n)) = pn_world n"
  using assms
  by (auto simp: with_peer_def Let_def case_prod_beta demote_with_admission_def seq_def get_snapshot_def
      apply_event_def transition_new half_done_def)

lemma routine_keeps_half_done:
  assumes "cs_state (pn_snapshot n) \<in> half_done" "pn_role n = Coordinator" "routine n op"
  shows "same_service (pn_world n) (pn_world (snd (node_act op n)))"
proof -
  have discard: "snd (discard m n) = snd (m n)" for m :: "'a nact"
    by (simp add: discard_def seq_def return_act_def split: prod.split sum.split)
  have reconcile: "pn_world (snd (node_reconcile (ei_env i) (ei_node i) (ei_now i) n)) = pn_world n"
    if r: "\<not> isl (ei_node i)" "pn_peer_present n (ei_now i)" for i :: effect_inputs
  proof -
    from r(1) obtain r where "ei_node i = Inr r" by (cases "ei_node i") auto
    moreover have "pn_peer_present (lease_update r n) (ei_now i)" "pn_world (lease_update r n) = pn_world n"
      using r(2) by (simp_all add: lease_update_def pn_peer_present_def split: option.split)
    ultimately show ?thesis
      using assms(1)
      by (auto simp: node_reconcile_def seq_def get_node_def return_act_def modify_act_def reconcile_periodic_def
          node_reconcile_peer_def Let_def on_world_def reconcile_peer_with_presence_def get_snapshot_def half_done_def)
  qed
  have "pn_world (snd (node_promote p n)) = pn_world n" "pn_world (snd (promote_for_recovery p n)) = pn_world n" for p
    using assms(1) by (auto simp: node_promote_def promote_for_recovery_def promote_internal_def seq_def get_node_def
        fail_act_def half_done_def)
  moreover have "pn_world (snd (node_demote p n)) = pn_world n" "pn_world (snd (demote_for_recovery p n)) = pn_world n" for p
    using demote_half_done [OF assms(1)]
    by (auto simp: node_demote_def demote_for_recovery_def seq_def get_node_def fail_act_def)
  moreover have "same_service (pn_world n) (pn_world (snd (node_operator_reconcile n)))"
    using assms(1,2)
    by (auto simp: node_operator_reconcile_def seq_def modify_act_def unblock_automatic_pairing_def get_node_def
        Let_def on_world_def operator_reconcile_def change_failures_def get_snapshot_def return_act_def half_done_def
        same_service_def)
  ultimately show ?thesis
    using assms(3) reconcile by (cases op) (auto simp: discard same_service_def)
qed

section \<open>Properties\<close>


definition sample_pn :: "cluster_state \<Rightarrow> control_phase \<Rightarrow> node" where
  "sample_pn st ph = \<lparr>pn_world = sample_world st, pn_control = CoordinatorSide (sample_coordinator ph), pn_restart = Idle,
     pn_completed_generation = 0, pn_pairing_blocked = False, pn_recovery_owner = False, pn_policy = Automatic,
     pn_policy_epoch = 0, pn_policy_pending = False, pn_lease_expires_at = 2000, pn_auto_promote = True,
     pn_auto_pair = True\<rparr>"

definition sample_inputs :: effect_inputs where
  "sample_inputs = \<lparr>ei_env = sample_environment, ei_send = (\<lambda>_. Inl SendFailed), ei_node = Inl SendFailed,
     ei_request_id = (\<lambda>_. ''r''), ei_now = 1000\<rparr>"

definition sample_promotion :: promote_inputs where
  "sample_promotion = \<lparr>pi_inputs = sample_inputs, pi_layers_ok = True, pi_bind = None, pi_before_hello = [],
     pi_hello = None, pi_polls = [], pi_drain_polls = [], pi_ready_at = 1000, pi_promoted_at = 1000\<rparr>"

lemmas sample_pn_defs = sample_pn_def sample_world_def sample_environment_def sample_inputs_def sample_promotion_def




text \<open>
  C3. A node gets over the loss of its peer: from every state that is not a solo node's, after any
  number of recoveries that failed at any of their calls, one recovery whose calls succeed
  returns a snapshot in \<open>SoloStandaloneReady\<close>, and the gate serves the published target
  unless it was closed for good. No planned restart may be under way and the generation must not
  have been recovered already.
\<close>
theorem peer_loss_recovers:
  assumes "\<not> restart_active (pn_restart n)" "requires_solo_fallback (cs_state (pn_snapshot n))"
    and "pn_completed_generation n < cs_generation (pn_snapshot n)" "cs_generation (pn_snapshot n) \<noteq> - 1"
    and "recovery_works env"
  shows "\<exists>s n'. recover_from_peer_loss env now
      (foldl (\<lambda>n (env, now). snd (recover_from_peer_loss env now n)) n attempts) = (Inr s, n')
    \<and> cs_state s = SoloStandaloneReady \<and> at_rest {SoloStandaloneReady} True (pn_world n')"
proof -
  have "recoverable n" using assms(1-4) by (simp add: recoverable_def)
  then have "recoverable (foldl (\<lambda>n (env, now). snd (recover_from_peer_loss env now n)) n attempts)"
  proof (induction attempts arbitrary: n)
    case (Cons a as)
    obtain env' now' where a: "a = (env', now')" by fastforce
    have "recoverable (snd (recover_from_peer_loss env' now' n))"
      using recover_from_peer_loss_settles [OF Cons.prems, of env' now']
      by (auto simp: wp_def split: prod.splits sum.splits)
    with Cons.IH a show ?case by simp
  qed simp
  from recover_from_peer_loss_settles [OF this, of env now] assms(5) show ?thesis
    by (auto simp: wp_def split: prod.splits sum.splits)
qed

theorem peer_loss_recovers_witness:
  "\<exists>s n'. recover_from_peer_loss sample_environment 1000
      (foldl (\<lambda>n (env, now). snd (recover_from_peer_loss env now n)) (sample_pn Demoting Draining)
        [(sample_environment\<lparr>env_coordinator_stop := False\<rparr>, 1), (sample_environment\<lparr>env_standalone_start := False\<rparr>, 2)]) = (Inr s, n')
    \<and> cs_state s = SoloStandaloneReady \<and> at_rest {SoloStandaloneReady} True (pn_world n')"
  by (rule peer_loss_recovers)
    (simp_all add: sample_pn_defs restart_active_def requires_solo_fallback_def snapshot_new_def recovery_works_def)

text \<open>A demotion whose worker does not acknowledge the drain.\<close>

lemma demote_undrained_fails:
  assumes "cs_state (rw_cluster w) = DistributedReady" "calm env" "undrained w" "\<not> env_peer_drain env"
  shows "wp (demote_with_admission env resume) (\<lambda>_ _. False)
     (\<lambda>_ v. cs_state (rw_cluster v) = Demoting \<and> \<not> serving v) w"
proof -
  have drains: "wp (drain_both env gen) (\<lambda>_ _. False) (\<lambda>_ v. cs_state (rw_cluster v) = Demoting \<and> \<not> serving v) v"
    if "shut v" "cs_state (rw_cluster v) = Demoting" for v gen
    unfolding drain_both_def
    by (intro wp_seqI drain_shuts [OF assms(2) shut_undrained [OF that(1)]] log_shut)
      (use assms(4) that(2) in \<open>simp_all add: wp_require_drained wp_require_ok shut_def split: option.split\<close>)
  have blocked: "wp block_transition (\<lambda>_. wp (seq (drain_both env g) f) (\<lambda>_ _. False)
      (\<lambda>_ v. cs_state (rw_cluster v) = Demoting \<and> \<not> serving v))
      (\<lambda>_ v. cs_state (rw_cluster v) = Demoting \<and> \<not> serving v) v"
    if "undrained v" "cs_state (rw_cluster v) = Demoting" for v g
      and f :: "unit \<Rightarrow> (coordinator_error, cluster_snapshot) act"
    by (rule block_transition_shuts [OF that(1)], rule wp_seqI, rule wp_mono [OF drains]) (simp_all add: that)
  obtain c where c: "transition (rw_cluster w) (event_new (cs_generation (rw_cluster w)) BeginDemotion) = Inr c"
    "cs_state c = Demoting"
    using assms(1) by (simp add: transition_new snapshot_new_def)
  have "undrained (w\<lparr>rw_cluster := c\<rparr>)"
    using assms(3) transition_coherent [OF c(1)] by (simp add: undrained_def serving_def)
  with c blocked [of "w\<lparr>rw_cluster := c\<rparr>"] show ?thesis
    unfolding demote_with_admission_def
    by (simp add: wp_seq [of get_snapshot] wp_snapshot wp_seq [of "apply_event _ _ _"] wp_seq [of block_transition]
        wp_apply_event split del: if_split)
qed

text \<open>
  C40. A demotion whose drain the worker does not acknowledge strands the coordinator: it fails
  with the cluster in \<open>Demoting\<close> and a gate that does not serve, and from there neither
  another demotion, nor a promotion, nor an operator's reconcile, nor the periodic reconciliation
  with the peer present changes the cluster, the gate or the target. The node serves again only
  after the loss of the peer or a forced standalone policy.
\<close>
theorem demotion_failure_strands:
  assumes "pn_role n = Coordinator" "\<not> pn_recovery_owner n" "cs_state (pn_snapshot n) = DistributedReady"
    and "calm (ei_env (pi_inputs p))" "undrained (pn_world n)" "isl (fst (peer_begin_drain p n))"
  shows "\<exists>e n'. node_demote p n = (Inl (NeCoordinator e), n')
    \<and> cs_state (pn_snapshot n') = Demoting \<and> \<not> serving (pn_world n')
    \<and> (\<forall>op. routine n' op \<longrightarrow> same_service (pn_world n') (pn_world (snd (node_act op n'))))"
proof -
  let ?env = "(ei_env (pi_inputs p))\<lparr>env_peer_drain := False,
      env_peer_stop_worker := \<not> isl (fst (peer_stop_worker p (snd (peer_begin_drain p n))))\<rparr>"
  let ?m = "\<lambda>env. demote_with_admission env True"
  obtain r v where v: "?m ?env (pn_world n) = (r, v)" by fastforce
  have "wp (?m ?env) (\<lambda>_ _. False) (\<lambda>_ v. cs_state (rw_cluster v) = Demoting \<and> \<not> serving v) (pn_world n)"
    by (rule demote_undrained_fails) (use assms in \<open>simp_all add: calm_def\<close>)
  with v obtain e where r: "r = Inl e" "cs_state (rw_cluster v) = Demoting" "\<not> serving v"
    by (auto simp: wp_def split: sum.splits)
  let ?n = "snd (with_peer True p ?m n)"
  have d: "node_demote p n = (Inl (NeCoordinator e), ?n)" and w: "pn_world ?n = v"
    using assms(1,2,6) v r(1)
    by (simp_all add: node_demote_def seq_def get_node_def with_peer_def Let_def case_prod_beta)
  have "pn_role ?n = Coordinator" using keptD [OF role_with_peer assms(1)] .
  with routine_keeps_half_done [of ?n] r(2) w
  have "\<forall>op. routine ?n op \<longrightarrow> same_service (pn_world ?n) (pn_world (snd (node_act op ?n)))"
    by (simp add: half_done_def)
  with d w r show ?thesis by auto
qed

definition distributed_pn :: node where
  "distributed_pn = (sample_pn DistributedReady WorkerReady)\<lparr>pn_world := (sample_world DistributedReady)
     \<lparr>rw_cluster := snapshot_new 5 Coordinator DistributedLayerParallel DistributedReady False None\<rparr>\<rparr>"

theorem demotion_failure_strands_witness:
  "\<exists>e n'. node_demote sample_promotion distributed_pn = (Inl (NeCoordinator e), n')
    \<and> cs_state (pn_snapshot n') = Demoting \<and> \<not> serving (pn_world n')
    \<and> same_service (pn_world n') (pn_world (snd (node_act (OpDemote sample_promotion True) n')))
    \<and> same_service (pn_world n') (pn_world (snd (node_act OpOperatorReconcile n')))"
proof -
  have "\<exists>e n'. node_demote sample_promotion distributed_pn = (Inl (NeCoordinator e), n')
    \<and> cs_state (pn_snapshot n') = Demoting \<and> \<not> serving (pn_world n')
    \<and> (\<forall>op. routine n' op \<longrightarrow> same_service (pn_world n') (pn_world (snd (node_act op n'))))"
    by (rule demotion_failure_strands)
      (simp_all add: distributed_pn_def sample_pn_defs snapshot_new_def calm_def undrained_def serving_def coherent_def
        mode_fits_def peer_begin_drain_def seq_def coordinator_message_def compose_begin_drain_def begin_drain_message_def
        note_begin_drain_sent_def require_generation_def control_message_of_def sample_coordinator_def send_via_def
        fail_act_def)
  then show ?thesis by (metis routine.simps(3,4))
qed

text \<open>
  A promotion whose prerequisites are gone once the worker has said hello strands the
  coordinator, too: \<open>promote_validated\<close> refuses it before it has anything to undo, so the
  cluster stays in \<open>AwaitingWorkerHello\<close>, and no reconciliation, promotion, demotion or
  operator command moves it while the peer is present.
\<close>
lemma missing_prerequisite_strands:
  assumes "pn_role n = Coordinator" "\<not> pn_recovery_owner n" "cs_state (pn_snapshot n) = PairedStandaloneReady"
    and "promotion_gate n True = AllowPromotion"
    and "prepare_and_accept_hello p (snd (node_apply (cs_generation (pn_snapshot n)) BeginPromotion n)) = (Inr (), n')"
    and "cs_state (pn_snapshot n') = AwaitingWorkerHello" "\<not> env_lease_valid (ei_env (pi_inputs p)) 0"
  shows "node_promote p n = (Inl (NeCoordinator CePrerequisiteMissing), n')
    \<and> (\<forall>op. routine n' op \<longrightarrow> same_service (pn_world n') (pn_world (snd (node_act op n'))))"
proof -
  let ?a = "node_apply (cs_generation (pn_snapshot n)) BeginPromotion n"
  obtain c n0 where a: "?a = (Inr c, n0)"
    using assms(3) by (simp add: on_world_def apply_event_def transition_new)
  with assms(5) have hello: "prepare_and_accept_hello p n0 = (Inr (), n')" by simp
  have "pn_role (snd ?a) = Coordinator" by (rule keptD [OF role_on_world assms(1)])
  with assms(5) keptD [OF role_hello(1)] have "pn_role n' = Coordinator" by (metis snd_conv)
  with routine_keeps_half_done [of n'] assms(6)
  have "\<forall>op. routine n' op \<longrightarrow> same_service (pn_world n') (pn_world (snd (node_act op n')))"
    by (simp add: half_done_def)
  moreover have "with_peer True p (\<lambda>env. promote_validated_with_admission env ready now True) n'
      = (Inl (NeCoordinator CePrerequisiteMissing), n')" for ready now
    using assms(7) by (simp add: with_peer_def Let_def case_prod_beta promote_validated_with_admission_def fail_act_def)
  ultimately show ?thesis
    using assms(1-4) a hello
    by (simp add: node_promote_def promote_internal_def seq_def get_node_def on_result_def Let_def)
qed

text \<open>
  The effect of a request runs again when the same request is received twice, whatever the phase
  is by then: a second \<open>DistributedReady\<close> opens the gate of a worker on the target it happens
  to have, be it the unavailable one of a recovery that has not finished.
\<close>
lemma duplicate_reopens_gate:
  assumes "pn_control n = WorkerSide w" "msg_command m = CmdDistributedReady"
    and "cp_processed (wk_processor w) (msg_generation m, msg_request_id m) = Some m"
    and "msg_generation m = generation (wk_processor w)" "msg_request_id m \<noteq> []" "length (msg_request_id m) \<le> 128"
    and "nd_deployment_id (cp_local (wk_processor w)) \<noteq> None"
    and "msg_deployment_id m = nd_deployment_id (cp_local (wk_processor w))"
    and "fst (renew_processor (wk_processor w) auth (msg_generation m) route now) = None"
    and "\<not> ag_closed (the_gate (rw_gate (pn_world n)))"
  shows "let n' = snd (node_handle i (endpoint CmdDistributedReady) m auth route now later n) in
    serving (pn_world n') \<and> rw_target (pn_world n') = rw_target (pn_world n) \<and> pn_snapshot n' = pn_snapshot n"
proof -
  let ?ep = "endpoint CmdDistributedReady"
  obtain p where p: "renew_processor (wk_processor w) auth (msg_generation m) route now = (None, p)"
    using assms(9) by (metis prod.collapse)
  let ?v = "validate_worker_command (wk_phase w) (peer_present (cp_lease (wk_processor w)) now)"
  have "handle_validated ?v (wk_processor w) ?ep m auth route now = (Inr (response p Duplicate), p)"
    using assms p by (simp add: handle_validated_def Let_def adopt_generation_def handle_current_def)
  then have h: "on_control (\<lambda>s. side_handle s ?ep m auth route now) n =
      (Inr (response p Duplicate), n\<lparr>pn_control := WorkerSide (w\<lparr>wk_processor := p\<rparr>)\<rparr>)"
    using assms(1,2) by (simp add: on_control_def side_handle_def worker_handle_def response_def Let_def)
  let ?n = "n\<lparr>pn_control := WorkerSide (w\<lparr>wk_processor := p\<rparr>)\<rparr>"
  have e: "apply_effect i CmdDistributedReady ?n =
      (Inr (), ?n\<lparr>pn_world := (pn_world n)\<lparr>rw_gate := (rw_gate (pn_world n))
        \<lparr>the_gate := start_serving (the_gate (rw_gate (pn_world n)))\<rparr>\<rparr>\<rparr>)"
    by (simp add: apply_effect_def on_world_def change_gate_def modify_act_def)
  have world: "pn_world (lease_update r k) = pn_world k" for r k by (simp add: lease_update_def split: option.split)
  show ?thesis
    using assms(2,10) h e
    by (auto simp: node_handle_def seq_def get_node_def on_result_def Let_def effect_requires_ack_for_runtime_def
        effect_requires_ack_def on_control_def return_act_def modify_act_def world serving_def start_serving_def
        split: prod.splits sum.splits)
qed

end
