(* ===== verification/Policy_Transaction.thy ===== *)
theory Policy_Transaction
  imports State_Store Node_Safety
begin

text \<open>
  The operation policy of two nodes: \<open>restore_policy\<close>, \<open>apply_policy_phase\<close>, the
  endpoint \<open>/v2/operation-policy\<close> and \<open>apply_policy_transaction\<close> of
  \<open>src/cluster/production.rs\<close>, and the budget of tensor-parallel attempts that a return to
  automatic operation resets (\<open>src/cluster/production/tp_runtime.rs\<close>). A node here is the
  node of \<open>Production_Node\<close> together with its applied policy, its policy control state, its
  store and its tensor-parallel record. The transaction runs on a pair of nodes; a message to the
  peer may be lost, and so may its answer; between two steps either node may do anything else it
  can do.
\<close>

section \<open>What a node does besides leaves its policy alone\<close>

definition policy_view :: "node \<Rightarrow> operation_policy \<times> u64 \<times> bool" where
  "policy_view n = (pn_policy n, pn_policy_epoch n, pn_policy_pending n)"

abbreviation has_policy :: "operation_policy \<times> u64 \<times> bool \<Rightarrow> node \<Rightarrow> bool" where
  "has_policy v n \<equiv> policy_view n = v"

named_theorems policy_rules \<open>actions of a node that leave its policy alone\<close>

lemma policy_basic [policy_rules]:
  "kept (has_policy v) (on_world wrap m) n" "kept (has_policy v) (worker_message f) n"
  "kept (has_policy v) (coordinator_message wrap' f' e) n" "kept (has_policy v) (on_control h) n"
  "kept (has_policy v) (propose_session g) n"
  by (auto simp: kept_def policy_view_def on_world_def worker_message_def coordinator_message_def on_control_def
      propose_session_def split: prod.split sum.splits role_control.split)

lemma policy_modify [policy_rules]:
  "(\<And>n. policy_view (f n) = policy_view n) \<Longrightarrow> kept (has_policy v) (modify_act f) n"
  by (simp add: kept_def modify_act_def)

lemma policy_changes [simp]:
  "policy_view (lease_update r n) = policy_view n" "policy_view (node_invalidate_route n) = policy_view n"
  "policy_view (reset_for_repair now n) = policy_view n" "policy_view (unblock_automatic_pairing n) = policy_view n"
  "policy_view (begin_planned_restart n) = policy_view n" "policy_view (receive_all qs n) = policy_view n"
  "policy_view (n\<lparr>pn_restart := s\<rparr>) = policy_view n" "policy_view (n\<lparr>pn_completed_generation := g\<rparr>) = policy_view n"
  "policy_view (n\<lparr>pn_pairing_blocked := b\<rparr>) = policy_view n"
  by (simp_all add: policy_view_def lease_update_def node_invalidate_route_def reset_for_repair_def
      unblock_automatic_pairing_def begin_planned_restart_def receive_all_def split: option.split)

lemma policy_recoveries [policy_rules]:
  "kept (has_policy v) (recover_to_solo env now event) n" "kept (has_policy v) (recover_from_peer_loss env now) n"
  "kept (has_policy v) (recover_from_forced_policy env now) n"
  "kept (has_policy v) (recover_from_deployment_mismatch env now) n"
  unfolding recover_from_peer_loss_def recover_from_forced_policy_def recover_from_deployment_mismatch_def
    recover_to_solo_def Let_def
  by - (intro kept_get kept_rules policy_rules kept_seq; simp)+

lemma policy_reconcile [policy_rules]:
  "kept (has_policy v) (node_reconcile_peer env now) n" "kept (has_policy v) (node_reconcile env answer now) n"
  unfolding node_reconcile_def reconcile_periodic_def node_reconcile_peer_def Let_def
  by - (intro kept_get kept_rules policy_rules kept_seq; simp)+

lemma policy_effects [policy_rules]:
  "kept (has_policy v) (complete_pair_effect i planned) n" "kept (has_policy v) (prepare_worker i) n"
  "kept (has_policy v) (worker_drained i) n" "kept (has_policy v) clear_planned_restart n"
  unfolding complete_pair_effect_def prepare_worker_def worker_drained_def clear_planned_restart_def
  by - (intro kept_get kept_rules policy_rules kept_seq; simp)+

lemma policy_pair_effects [policy_rules]:
  "kept (has_policy v) (stop_worker i) n" "kept (has_policy v) (begin_pair_effect i) n"
  unfolding stop_worker_def begin_pair_effect_def
  by - (intro kept_get kept_rules policy_rules kept_seq; simp)+

lemma policy_handle [policy_rules]: "kept (has_policy v) (node_handle i ep m auth route now later) n"
  by (rule kept_node_handle) (auto intro!: kept_effect policy_rules)

lemma policy_requests [simp]: "policy_view (serve_requests qs n) = policy_view n"
  unfolding serve_requests_def
  by (rule kept_foldl [where I = "has_policy (policy_view n)"]) (auto simp: serve_request_def intro: policy_rules)

lemma policy_pair [policy_rules]: "kept (has_policy v) (node_pair i) n"
  unfolding node_pair_def mismatch_or_fail_def by (intro kept_get kept_rules policy_rules kept_seq; simp)

lemma policy_hello [policy_rules]:
  "kept (has_policy v) (prepare_and_accept_hello p) n" "kept (has_policy v) (promotion_hello_failed i e) n"
  "kept (has_policy v) (peer_begin_drain p) n" "kept (has_policy v) (peer_stop_worker p) n"
  unfolding prepare_and_accept_hello_def promotion_hello_failed_def recover_preflight_promotion_def
    peer_begin_drain_def peer_stop_worker_def
  by - (intro kept_get kept_rules policy_rules kept_seq; auto)+

lemma policy_with_peer [policy_rules]: "kept (has_policy v) (with_peer drains p m) n"
  by (auto simp: kept_def with_peer_def policy_view_def Let_def split: prod.split)

lemma policy_promotions [policy_rules]:
  "kept (has_policy v) (node_promote p) n" "kept (has_policy v) (promote_for_recovery p) n"
  "kept (has_policy v) (node_demote p) n" "kept (has_policy v) (demote_for_recovery p) n"
  "kept (has_policy v) route_monitor_failed n" "kept (has_policy v) (route_stayed_down p) n"
  unfolding node_promote_def promote_for_recovery_def promote_internal_def node_demote_def demote_for_recovery_def
    route_monitor_failed_def route_stayed_down_def Let_def
  by - (intro kept_get kept_rules policy_rules kept_seq; simp)+

lemma policy_rest [policy_rules]:
  "kept (has_policy v) (worker_child_failed i cause) n" "kept (has_policy v) node_operator_reconcile n"
  "kept (has_policy v) (prepare_peer_for_planned_restart i) n" "kept (has_policy v) (cancel_peer_planned_restart i) n"
  "kept (has_policy v) (node_stop_for_planned_restart p) n" "kept (has_policy v) (reconcile_tick i p running) n"
  unfolding worker_child_failed_def notify_worker_child_exit_def node_operator_reconcile_def
    prepare_peer_for_planned_restart_def cancel_peer_planned_restart_def node_stop_for_planned_restart_def
    stop_distributed_def reconcile_tick_def Let_def
  by - (intro kept_get kept_rules policy_rules kept_seq; simp)+

lemma policy_act: "kept (has_policy v) (node_act op) n"
  by (cases op) (auto simp: serve_request_def intro!: kept_discard policy_rules)

lemma policy_run [simp]: "policy_view (node_run n ops) = policy_view n"
  unfolding node_run_def using kept_foldl [of "has_policy (policy_view n)" node_act n ops] policy_act by simp

section \<open>A node with its policy\<close>

text \<open>The part of the tensor-parallel runtime that a policy change touches: its journal and the
  time before which it does not retry.\<close>

record tp_budget =
  tb_journal :: persistent_tp
  tb_retry_after :: u64

record 'b policy_node =
  py_node :: node
  py_applied :: operation_policy
  py_control :: policy_control_state
  py_store :: "'b state_store option"
  py_tp :: "tp_budget option"

datatype policy_error = PeNode node_error | PeStore store_error

type_synonym ('b, 'a) pyact = "('b policy_node, policy_error, 'a) sact"

definition with_store :: "('b, 'a) stact \<Rightarrow> ('b, unit) pyact" where
  "with_store m y =
     (case py_store y of
        None \<Rightarrow> (Inr (), y)
      | Some st \<Rightarrow> (case m st of (r, st') \<Rightarrow> (map_sum PeStore (\<lambda>_. ()) r, y\<lparr>py_store := Some st'\<rparr>)))"

definition with_node :: "'a nact \<Rightarrow> ('b, unit) pyact" where
  "with_node m y = (case m (py_node y) of (r, n) \<Rightarrow> (map_sum PeNode (\<lambda>_. ()) r, y\<lparr>py_node := n\<rparr>))"

definition restore_policy ::
  "operation_policy \<Rightarrow> operation_policy \<Rightarrow> u64 \<Rightarrow> bool \<Rightarrow> 'b policy_node \<Rightarrow> 'b policy_node" where
  "restore_policy operator applied ep pending y =
     y\<lparr>py_node := (py_node y)\<lparr>pn_policy := operator, pn_policy_epoch := ep, pn_policy_pending := pending\<rparr>,
       py_applied := applied, py_control := advance_epoch (py_control y) ep\<rparr>"

text \<open>The start of a node (\<open>src/app.rs\<close>): the journal's pending operation counts until it is
  applied.\<close>

definition boot_policy :: "persistent_state option \<Rightarrow> 'b policy_node \<Rightarrow> 'b policy_node" where
  "boot_policy persisted y =
     (case persisted of
        None \<Rightarrow> y
      | Some s \<Rightarrow> restore_policy (ps_operator_policy s) (ps_applied_policy s) (ps_policy_epoch s)
          (is_some_and (\<lambda>p. po_phase p \<noteq> OpApplied) (ps_pending s)) y)"

section \<open>One phase on one node\<close>

datatype policy_status = PsApplied | PsDuplicate | PsAborted

record policy_response =
  prs_status :: policy_status
  prs_epoch :: u64
  prs_applied :: operation_policy

text \<open>What a phase reads from outside: the children and the clock for the recovery to a solo node,
  the outcome of the journal writes, a fresh identifier.\<close>

record 'b phase_inputs =
  yi_env :: environment
  yi_now :: u64
  yi_journal :: "'b journal_io"
  yi_fresh :: operation_id
  yi_tp_journal :: "'b journal_io"

definition reset_tp_budget :: "'b state_codec \<Rightarrow> 'b journal_io \<Rightarrow> ('b, unit) pyact" where
  "reset_tp_budget c io =
     seq get_state (\<lambda>y. case py_tp y of
        None \<Rightarrow> return_act ()
      | Some tb \<Rightarrow>
          let journal = (tb_journal tb)\<lparr>pt_failed_attempts := 0\<rparr> in
          seq (modify_act (\<lambda>y. y\<lparr>py_tp := Some \<lparr>tb_journal = journal, tb_retry_after = 0\<rparr>\<rparr>)) (\<lambda>_.
          with_store (persist_tp_journal c io (pn_snapshot (py_node y)) (pn_policy (py_node y)) (py_applied y)
            (pn_policy_epoch (py_node y)) journal)))"

definition set_policy :: "operation_policy \<Rightarrow> u64 \<Rightarrow> bool \<Rightarrow> 'b policy_node \<Rightarrow> 'b policy_node" where
  "set_policy desired ep pending y =
     y\<lparr>py_node := (py_node y)\<lparr>pn_policy := desired, pn_policy_epoch := ep, pn_policy_pending := pending\<rparr>\<rparr>"

definition prepare_phase :: "'b state_codec \<Rightarrow> 'b phase_inputs \<Rightarrow> policy_control_request \<Rightarrow> ('b, unit) pyact" where
  "prepare_phase c i r =
     seq (with_store (case pr_desired r of
        ForcedStandalone \<Rightarrow> persist_force_intent c (yi_journal i) (pr_policy_epoch r) (pr_operation_id r)
      | Automatic \<Rightarrow> persist_automatic_intent c (yi_journal i) (pr_policy_epoch r) (yi_fresh i))) (\<lambda>_.
     modify_act (set_policy (pr_desired r) (pr_policy_epoch r) True))"

definition commit_phase :: "'b state_codec \<Rightarrow> 'b phase_inputs \<Rightarrow> policy_control_request \<Rightarrow> ('b, unit) pyact" where
  "commit_phase c i r =
     seq (if pr_desired r = ForcedStandalone then with_node (recover_from_forced_policy (yi_env i) (yi_now i))
          else return_act ()) (\<lambda>_.
     seq (with_store (case pr_desired r of
        ForcedStandalone \<Rightarrow> record_force_applied c (yi_journal i) (pr_policy_epoch r)
      | Automatic \<Rightarrow> record_automatic_applied c (yi_journal i) (pr_policy_epoch r))) (\<lambda>_.
     modify_act (\<lambda>y. (set_policy (pr_desired r) (pr_policy_epoch r) False y)
       \<lparr>py_applied := pr_desired r, py_control := advance_epoch (py_control y) (pr_policy_epoch r)\<rparr>)))"

definition abort_phase :: "('b, unit) pyact" where
  "abort_phase = modify_act (\<lambda>y. y\<lparr>py_node := (py_node y)\<lparr>pn_policy_pending := False\<rparr>\<rparr>)"

definition apply_policy_phase ::
  "'b state_codec \<Rightarrow> 'b phase_inputs \<Rightarrow> policy_control_request \<Rightarrow> ('b, policy_response) pyact" where
  "apply_policy_phase c i r =
     seq get_state (\<lambda>earlier.
     seq (case pr_phase r of
        Prepare \<Rightarrow> prepare_phase c i r | Commit \<Rightarrow> commit_phase c i r | Abort \<Rightarrow> abort_phase) (\<lambda>_.
     seq (if pr_phase r = Commit \<and> pr_desired r = Automatic \<and> py_applied earlier = ForcedStandalone
          then reset_tp_budget c (yi_tp_journal i) else return_act ()) (\<lambda>_.
     seq get_state (\<lambda>y.
     return_act \<lparr>prs_status = PsApplied, prs_epoch = pn_policy_epoch (py_node y), prs_applied = py_applied y\<rparr>))))"

section \<open>The endpoint\<close>

datatype policy_http_error =
  PhttpPolicy policy_control_error | PhttpBadJson | PhttpEffect policy_error

definition peer_node_id :: "node \<Rightarrow> string option" where
  "peer_node_id n = map_option nd_node_id (pl_descriptor (control_lease (pn_control n)))"

text \<open>\<open>control_operation_policy\<close> once the request is authenticated as one of the node
  \<open>sender\<close>; a body that does not parse is \<open>None\<close>.\<close>

definition control_operation_policy ::
  "'b state_codec \<Rightarrow> (u64 \<times> policy_control_phase \<times> operation_policy \<Rightarrow> u64) \<Rightarrow> 'b phase_inputs \<Rightarrow> string \<Rightarrow>
   policy_control_request option \<Rightarrow> ('b policy_node, policy_http_error, policy_response) sact" where
  "control_operation_policy c hash i sender body =
     seq get_state (\<lambda>y.
     if is_some_and (\<lambda>expected. expected \<noteq> sender) (peer_node_id (py_node y))
     then fail_act (PhttpPolicy Unauthenticated)
     else case body of
       None \<Rightarrow> fail_act PhttpBadJson
     | Some r \<Rightarrow> (case policy_validate hash (py_control y) r True of
         Inl e \<Rightarrow> fail_act (PhttpPolicy e)
       | Inr (verdict, control) \<Rightarrow>
           seq (modify_act (\<lambda>y. y\<lparr>py_control := control\<rparr>)) (\<lambda>_.
           case verdict of
             VerdictDuplicate \<Rightarrow>
               return_act \<lparr>prs_status = PsDuplicate, prs_epoch = pn_policy_epoch (py_node y), prs_applied = py_applied y\<rparr>
           | VerdictNew \<Rightarrow> on_result (apply_policy_phase c i r) return_act (\<lambda>e. fail_act (PhttpEffect e)))))"

section \<open>The transaction\<close>

record 'b policy_pair =
  pp_local :: "'b policy_node"
  pp_peer :: "'b policy_node"

datatype transaction_error =
  TxStaleGeneration | TxLocal policy_error | TxPeer policy_http_error | TxTransport

datatype delivery = Delivered | RequestLost | AnswerLost

definition on_local :: "('b, 'a) pyact \<Rightarrow> ('b policy_pair, transaction_error, 'a) sact" where
  "on_local m p = (case m (pp_local p) of (r, y) \<Rightarrow> (map_sum TxLocal id r, p\<lparr>pp_local := y\<rparr>))"

text \<open>\<open>ControlClient::apply_policy\<close>.\<close>

definition peer_policy ::
  "'b state_codec \<Rightarrow> (u64 \<times> policy_control_phase \<times> operation_policy \<Rightarrow> u64) \<Rightarrow> 'b phase_inputs \<Rightarrow> string \<Rightarrow> delivery \<Rightarrow>
   policy_control_request \<Rightarrow> ('b policy_pair, transaction_error, policy_response) sact" where
  "peer_policy c hash i sender d r p =
     (case d of
        RequestLost \<Rightarrow> (Inl TxTransport, p)
      | AnswerLost \<Rightarrow> (Inl TxTransport, p\<lparr>pp_peer := snd (control_operation_policy c hash i sender (Some r) (pp_peer p))\<rparr>)
      | Delivered \<Rightarrow> (case control_operation_policy c hash i sender (Some r) (pp_peer p) of
          (a, y) \<Rightarrow> (map_sum TxPeer id a, p\<lparr>pp_peer := y\<rparr>)))"

text \<open>The inputs of a transaction; \<open>tx_between\<close> is what the two nodes do before each of the
  three steps that follow the first.\<close>

record 'b transaction_inputs =
  tx_sender :: string
  tx_local :: "policy_control_phase \<Rightarrow> 'b phase_inputs"
  tx_peer :: "policy_control_phase \<Rightarrow> 'b phase_inputs"
  tx_delivery :: "policy_control_phase \<Rightarrow> delivery"
  tx_between :: "nat \<Rightarrow> node_op list \<times> node_op list"

definition run_nodes :: "node_op list \<times> node_op list \<Rightarrow> 'b policy_pair \<Rightarrow> 'b policy_pair" where
  "run_nodes ops p =
     p\<lparr>pp_local := (pp_local p)\<lparr>py_node := node_run (py_node (pp_local p)) (fst ops)\<rparr>,
       pp_peer := (pp_peer p)\<lparr>py_node := node_run (py_node (pp_peer p)) (snd ops)\<rparr>\<rparr>"

abbreviation meanwhile :: "node_op list \<times> node_op list \<Rightarrow> ('b policy_pair, transaction_error, unit) sact" where
  "meanwhile ops \<equiv> modify_act (run_nodes ops)"

definition policy_request :: "u64 \<Rightarrow> operation_id \<Rightarrow> policy_control_phase \<Rightarrow> operation_policy \<Rightarrow> policy_control_request" where
  "policy_request ep op phase desired = \<lparr>pr_protocol_version = policy_control_protocol_version, pr_policy_epoch = ep,
     pr_operation_id = op, pr_phase = phase, pr_desired = desired\<rparr>"

definition apply_policy_transaction ::
  "'b state_codec \<Rightarrow> (u64 \<times> policy_control_phase \<times> operation_policy \<Rightarrow> u64) \<Rightarrow> 'b transaction_inputs \<Rightarrow>
   operation_policy \<Rightarrow> u64 \<Rightarrow> operation_id \<Rightarrow> ('b policy_pair, transaction_error, operation_policy) sact" where
  "apply_policy_transaction c hash i desired expected_generation op =
     seq get_state (\<lambda>p.
     if expected_generation \<noteq> 0 \<and> expected_generation \<noteq> cs_generation (pn_snapshot (py_node (pp_local p)))
     then fail_act TxStaleGeneration
     else
       let ep = sat_add (pn_policy_epoch (py_node (pp_local p))) 1;
           prepare = policy_request ep op Prepare desired;
           commit = policy_request ep op Commit desired in
       seq (on_local (apply_policy_phase c (tx_local i Prepare) prepare)) (\<lambda>_.
       seq (meanwhile (tx_between i 0)) (\<lambda>_.
       seq (peer_policy c hash (tx_peer i Prepare) (tx_sender i) (tx_delivery i Prepare) prepare) (\<lambda>_.
       seq (meanwhile (tx_between i 1)) (\<lambda>_.
       seq (peer_policy c hash (tx_peer i Commit) (tx_sender i) (tx_delivery i Commit) commit) (\<lambda>_.
       seq (meanwhile (tx_between i 2)) (\<lambda>_.
       seq (on_local (apply_policy_phase c (tx_local i Commit) commit)) (\<lambda>_.
       return_act desired))))))))"

text \<open>The four requests of a transaction one by one, and the same seen from the other node: the
  lock of a transaction is a lock of the initiator only, so the two nodes may each run one.\<close>

definition transaction_step ::
  "'b state_codec \<Rightarrow> (u64 \<times> policy_control_phase \<times> operation_policy \<Rightarrow> u64) \<Rightarrow> 'b transaction_inputs \<Rightarrow>
   operation_policy \<Rightarrow> u64 \<Rightarrow> operation_id \<Rightarrow> nat \<Rightarrow> ('b policy_pair, transaction_error, policy_response) sact" where
  "transaction_step c hash i desired ep op k =
     (let prepare = policy_request ep op Prepare desired; commit = policy_request ep op Commit desired in
      if k = 0 then on_local (apply_policy_phase c (tx_local i Prepare) prepare)
      else if k = 1 then peer_policy c hash (tx_peer i Prepare) (tx_sender i) (tx_delivery i Prepare) prepare
      else if k = 2 then peer_policy c hash (tx_peer i Commit) (tx_sender i) (tx_delivery i Commit) commit
      else on_local (apply_policy_phase c (tx_local i Commit) commit))"

definition swap_pair :: "'b policy_pair \<Rightarrow> 'b policy_pair" where
  "swap_pair p = \<lparr>pp_local = pp_peer p, pp_peer = pp_local p\<rparr>"

definition other_side :: "('b policy_pair, 'e, 'a) sact \<Rightarrow> ('b policy_pair, 'e, 'a) sact" where
  "other_side m p = (case m (swap_pair p) of (r, q) \<Rightarrow> (r, swap_pair q))"

section \<open>What a phase does\<close>

definition prepared :: "operation_policy \<Rightarrow> u64 \<Rightarrow> 'b policy_node \<Rightarrow> bool" where
  "prepared desired ep y \<longleftrightarrow> policy_view (py_node y) = (desired, ep, True)"

definition committed :: "operation_policy \<Rightarrow> u64 \<Rightarrow> 'b policy_node \<Rightarrow> bool" where
  "committed desired ep y \<longleftrightarrow> policy_view (py_node y) = (desired, ep, False) \<and> py_applied y = desired
     \<and> ep \<le> epoch (py_control y)"

text \<open>The applied side of a node: what only a commit changes.\<close>

definition applied_view :: "'b policy_node \<Rightarrow> operation_policy \<times> policy_control_state" where
  "applied_view y = (py_applied y, py_control y)"

lemma view_updates [simp]:
  "applied_view (y\<lparr>py_store := st\<rparr>) = applied_view y" "applied_view (y\<lparr>py_node := n\<rparr>) = applied_view y"
  "applied_view (y\<lparr>py_tp := tb\<rparr>) = applied_view y" "applied_view (set_policy d e b y) = applied_view y"
  "prepared d e (y\<lparr>py_store := st\<rparr>) = prepared d e y" "committed d e (y\<lparr>py_store := st\<rparr>) = committed d e y"
  "committed d e (y\<lparr>py_tp := tb\<rparr>) = committed d e y"
  by (simp_all add: applied_view_def set_policy_def prepared_def committed_def)

lemma policy_view_set [simp]: "policy_view (py_node (set_policy d e b y)) = (d, e, b)"
  by (simp add: set_policy_def policy_view_def)

lemma prepared_set [simp]: "prepared d e (set_policy d e True y)"
  by (simp add: prepared_def)

lemma wp_with_store:
  assumes "\<And>st. Q () (y\<lparr>py_store := st\<rparr>) \<and> (\<forall>e. E e (y\<lparr>py_store := st\<rparr>))"
  shows "wp (with_store m) Q E y"
proof -
  have "Q () y" using assms [of "py_store y"] by simp
  with assms show ?thesis
    unfolding wp_def with_store_def by (auto split: option.split prod.split sum.split)
qed

lemma wp_with_forced:
  assumes "\<And>n. policy_view n = policy_view (py_node y) \<Longrightarrow> Q () (y\<lparr>py_node := n\<rparr>) \<and> (\<forall>e. E e (y\<lparr>py_node := n\<rparr>))"
  shows "wp (with_node (recover_from_forced_policy env now)) Q E y"
proof -
  obtain r n where run: "recover_from_forced_policy env now (py_node y) = (r, n)" by fastforce
  have "policy_view n = policy_view (py_node y)"
    using keptD [OF policy_recoveries(3) [of "policy_view (py_node y)"], of "py_node y" env now] run by simp
  from assms [OF this] show ?thesis
    unfolding wp_def with_node_def run by (cases r) auto
qed

lemma policy_request_sel [simp]:
  "pr_desired (policy_request ep op phase desired) = desired" "pr_policy_epoch (policy_request ep op phase desired) = ep"
  "pr_phase (policy_request ep op phase desired) = phase" "pr_operation_id (policy_request ep op phase desired) = op"
  "pr_protocol_version (policy_request ep op phase desired) = policy_control_protocol_version"
  by (simp_all add: policy_request_def)

lemma prepare_rule:
  "wp (prepare_phase c i r)
     (\<lambda>_ y'. prepared (pr_desired r) (pr_policy_epoch r) y' \<and> applied_view y' = applied_view y)
     (\<lambda>_ y'. policy_view (py_node y') = policy_view (py_node y) \<and> applied_view y' = applied_view y) y"
  unfolding prepare_phase_def wp_seq wp_modify by (rule wp_with_store) simp

lemma commit_rule:
  "wp (commit_phase c i r)
     (\<lambda>_. committed (pr_desired r) (pr_policy_epoch r))
     (\<lambda>_ y'. policy_view (py_node y') = policy_view (py_node y) \<and> applied_view y' = applied_view y) y"
proof -
  have step: "wp (seq (with_store m) (\<lambda>_. modify_act (\<lambda>y. (set_policy d ep False y)
       \<lparr>py_applied := d, py_control := advance_epoch (py_control y) ep\<rparr>)))
      (\<lambda>_. committed d ep)
      (\<lambda>_ y'. policy_view (py_node y') = policy_view (py_node y) \<and> applied_view y' = applied_view y) v"
    if "policy_view (py_node v) = policy_view (py_node y)" "applied_view v = applied_view y" for v m d ep
    unfolding wp_seq wp_modify
    by (rule wp_with_store)
      (use that in \<open>auto simp: committed_def policy_view_def set_policy_def advance_epoch_def applied_view_def\<close>)
  show ?thesis
  proof (cases "pr_desired r")
    case Automatic
    then show ?thesis unfolding commit_phase_def by (simp add: wp_seq [of "return_act _"] wp_return step)
  next
    case ForcedStandalone
    then show ?thesis
      unfolding commit_phase_def wp_seq [of "if _ then _ else _"]
      by (simp, intro wp_with_forced) (simp add: step)
  qed
qed

lemma reset_rule:
  assumes "\<And>st tb. Q () (y\<lparr>py_tp := tb, py_store := st\<rparr>) \<and> (\<forall>e. E e (y\<lparr>py_tp := tb, py_store := st\<rparr>))"
  shows "wp (reset_tp_budget c io) Q E y"
proof -
  have "Q () y" using assms [of "py_store y" "py_tp y"] by simp
  with assms show ?thesis
    unfolding reset_tp_budget_def wp_seq wp_get_state
    by (auto simp: wp_return wp_seq wp_modify Let_def intro!: wp_with_store split: option.split)
qed

text \<open>A phase as a whole, on every outcome.\<close>

lemma phase_rule:
  "wp (apply_policy_phase c i (policy_request ep op phase desired))
     (\<lambda>_ y'. case phase of
        Prepare \<Rightarrow> prepared desired ep y' \<and> applied_view y' = applied_view y
      | Commit \<Rightarrow> committed desired ep y'
      | Abort \<Rightarrow> pn_policy_pending (py_node y') = False \<and> applied_view y' = applied_view y)
     (\<lambda>_ y'. policy_view (py_node y') = policy_view (py_node y) \<and> applied_view y' = applied_view y
        \<or> phase = Commit \<and> committed desired ep y') y"
proof (cases phase)
  case Prepare
  then show ?thesis
    unfolding apply_policy_phase_def wp_seq wp_get_state
    by simp (rule wp_mono [OF prepare_rule], simp_all add: wp_return)
next
  case Commit
  then show ?thesis
    unfolding apply_policy_phase_def wp_seq wp_get_state wp_return
    by (simp split del: if_split) (rule wp_mono [OF commit_rule], auto simp: wp_return intro!: reset_rule)
next
  case Abort
  then show ?thesis
    unfolding apply_policy_phase_def
    by (simp add: wp_seq wp_get_state wp_return abort_phase_def wp_modify)
qed

section \<open>What the peer does\<close>

text \<open>An operation is fresh at a node if it has no entry for it in its registry.\<close>

definition fresh_at :: "operation_id \<Rightarrow> policy_control_phase \<Rightarrow> 'b policy_node \<Rightarrow> bool" where
  "fresh_at op phase y \<longleftrightarrow> policy_idempotency (py_control y) (op, phase) = None"

text \<open>A request that the peer has not seen is refused without effect or handled as a phase.\<close>

lemma endpoint_rule:
  assumes "fresh_at op phase y"
  shows "wp (control_operation_policy c hash i sender (Some (policy_request ep op phase desired)))
    (\<lambda>_ y'. case phase of
        Prepare \<Rightarrow> prepared desired ep y' \<and> (\<forall>ph. ph \<noteq> phase \<longrightarrow> fresh_at op ph y' = fresh_at op ph y)
      | Commit \<Rightarrow> committed desired ep y'
      | Abort \<Rightarrow> True)
    (\<lambda>_ y'. True) y"
proof -
  let ?h = "canonical_request_hash hash (policy_request ep op phase desired)"
  let ?control = "(py_control y)\<lparr>policy_idempotency := (policy_idempotency (py_control y))((op, phase) \<mapsto> ?h)\<rparr>"
  have phase: "wp (apply_policy_phase c i (policy_request ep op phase desired))
      (\<lambda>_ y'. case phase of
        Prepare \<Rightarrow> prepared desired ep y' \<and> (\<forall>ph. ph \<noteq> phase \<longrightarrow> fresh_at op ph y' = fresh_at op ph y)
      | Commit \<Rightarrow> committed desired ep y' | Abort \<Rightarrow> True) (\<lambda>_ _. True) (y\<lparr>py_control := ?control\<rparr>)"
    by (rule wp_mono [OF phase_rule]) (auto simp: applied_view_def fresh_at_def split: policy_control_phase.splits)
  have "policy_register (py_control y) (op, phase) ?h = (NewRequest, ?control)"
    using assms by (simp add: policy_register_def fresh_at_def)
  with phase show ?thesis
    unfolding control_operation_policy_def
    by (auto simp: wp_seq wp_get_state wp_fail wp_modify wp_on_result wp_return policy_validate_def
        split: sum.split prod.split if_splits elim!: wp_mono)
qed

lemma wp_on_local:
  "wp (on_local m) Q E p =
     wp m (\<lambda>a y. Q a (p\<lparr>pp_local := y\<rparr>)) (\<lambda>e y. E (TxLocal e) (p\<lparr>pp_local := y\<rparr>)) (pp_local p)"
  by (simp add: wp_def on_local_def split: prod.splits sum.splits)

lemma peer_policy_rule:
  assumes "fresh_at op phase (pp_peer p)"
  shows "wp (peer_policy c hash i sender d (policy_request ep op phase desired))
    (\<lambda>_ p'. pp_local p' = pp_local p \<and> (case phase of
        Prepare \<Rightarrow> \<forall>ph. ph \<noteq> phase \<longrightarrow> fresh_at op ph (pp_peer p') = fresh_at op ph (pp_peer p)
      | Commit \<Rightarrow> committed desired ep (pp_peer p')
      | Abort \<Rightarrow> True))
    (\<lambda>_ p'. pp_local p' = pp_local p) p"
  using endpoint_rule [OF assms, of c hash i sender ep desired]
  unfolding wp_def peer_policy_def
  by (auto split: delivery.splits prod.splits sum.splits policy_control_phase.splits)

lemma run_nodes_views [simp]:
  "prepared d e (pp_local (run_nodes ops p)) = prepared d e (pp_local p)"
  "applied_view (pp_local (run_nodes ops p)) = applied_view (pp_local p)"
  "committed d e (pp_peer (run_nodes ops p)) = committed d e (pp_peer p)"
  "fresh_at op ph (pp_peer (run_nodes ops p)) = fresh_at op ph (pp_peer p)"
  by (simp_all add: run_nodes_def prepared_def committed_def fresh_at_def applied_view_def)

lemma prepared_suppresses: "prepared desired ep y \<Longrightarrow> promotion_gate (py_node y) present \<noteq> AllowPromotion"
  by (cases desired)
    (auto simp: prepared_def policy_view_def promotion_gate_def automatic_promotion_gate_def automatic_promotion_verdict_def)

text \<open>The ways a transaction ends: the initiator as it was, the initiator prepared, or both nodes
  committed. A property \<open>J\<close> that the initiator's own preparation establishes and that does not
  depend on its cluster state holds of a prepared initiator until the peer has committed.\<close>

definition transaction_outcome ::
  "('b policy_node \<Rightarrow> bool) \<Rightarrow> operation_policy \<Rightarrow> u64 \<Rightarrow> 'b policy_pair \<Rightarrow> 'b policy_pair \<Rightarrow> bool" where
  "transaction_outcome J desired ep p p' \<longleftrightarrow>
     policy_view (py_node (pp_local p')) = policy_view (py_node (pp_local p))
       \<and> applied_view (pp_local p') = applied_view (pp_local p)
     \<or> prepared desired ep (pp_local p') \<and> applied_view (pp_local p') = applied_view (pp_local p)
       \<and> (J (pp_local p') \<or> committed desired ep (pp_peer p'))
     \<or> committed desired ep (pp_local p') \<and> committed desired ep (pp_peer p')"

lemma transaction_rule:
  assumes "fresh_at op Prepare (pp_peer p)" "fresh_at op Commit (pp_peer p)"
    and "ep = sat_add (pn_policy_epoch (py_node (pp_local p))) 1"
    and "wp (apply_policy_phase c (tx_local i Prepare) (policy_request ep op Prepare desired)) (\<lambda>_. J) (\<lambda>_ _. True) (pp_local p)"
    and "\<And>y n. J (y\<lparr>py_node := n\<rparr>) = J y"
  shows "wp (apply_policy_transaction c hash i desired gen op)
    (\<lambda>_ p'. committed desired ep (pp_local p') \<and> committed desired ep (pp_peer p'))
    (\<lambda>_. transaction_outcome J desired ep p) p"
    (is "wp _ ?Q ?E p")
proof -
  let ?P = "\<lambda>q. prepared desired ep (pp_local q) \<and> applied_view (pp_local q) = applied_view (pp_local p) \<and> J (pp_local q)"
  have half: "?E e q" if "?P q" for e q
    using that by (simp add: transaction_outcome_def)
  have run: "?P (run_nodes ops q)" if "?P q" for ops q
  proof -
    have "J (pp_local (run_nodes ops q)) = J (pp_local q)" by (simp add: run_nodes_def assms(5))
    with that show ?thesis by simp
  qed
  have last: "wp (seq (on_local (apply_policy_phase c (tx_local i Commit) (policy_request ep op Commit desired)))
      (\<lambda>_. return_act desired)) ?Q ?E q" if "?P q" "committed desired ep (pp_peer q)" for q
    unfolding wp_seq wp_on_local wp_return
    by (rule wp_mono [OF phase_rule])
      (use that in \<open>auto simp: transaction_outcome_def prepared_def\<close>)
  let ?commit = "seq (peer_policy c hash (tx_peer i Commit) (tx_sender i) (tx_delivery i Commit) (policy_request ep op Commit desired)) (\<lambda>_.
      seq (meanwhile (tx_between i 2)) (\<lambda>_.
      seq (on_local (apply_policy_phase c (tx_local i Commit) (policy_request ep op Commit desired))) (\<lambda>_. return_act desired)))"
  have commit: "wp ?commit ?Q ?E q" if "?P q" "fresh_at op Commit (pp_peer q)" for q
    unfolding wp_seq [of "peer_policy _ _ _ _ _ _"] wp_seq [of "meanwhile _"] wp_modify
    by (rule wp_mono [OF peer_policy_rule [OF that(2)]], rule last, rule run) (use that(1) half in auto)
  let ?prepare = "seq (peer_policy c hash (tx_peer i Prepare) (tx_sender i) (tx_delivery i Prepare) (policy_request ep op Prepare desired)) (\<lambda>_.
      seq (meanwhile (tx_between i 1)) (\<lambda>_. ?commit))"
  have prepare: "wp ?prepare ?Q ?E q"
    if "?P q" "fresh_at op Prepare (pp_peer q)" "fresh_at op Commit (pp_peer q)" for q
    unfolding wp_seq [of "peer_policy c hash (tx_peer i Prepare) _ _ _"] wp_seq [of "meanwhile (tx_between i 1)"] wp_modify
    by (rule wp_mono [OF peer_policy_rule [OF that(2)]], rule commit, rule run) (use that(1,3) half in auto)
  have start: "wp (seq (on_local (apply_policy_phase c (tx_local i Prepare) (policy_request ep op Prepare desired))) (\<lambda>_.
      seq (meanwhile (tx_between i 0)) (\<lambda>_. ?prepare))) ?Q ?E p"
    unfolding wp_seq [of "on_local (apply_policy_phase c (tx_local i Prepare) _)"] wp_on_local
      wp_seq [of "meanwhile (tx_between i 0)"] wp_modify
    by (rule wp_mono [OF wp_conj [OF phase_rule assms(4)]], rule prepare, rule run)
      (use assms(1,2) in \<open>auto simp: transaction_outcome_def\<close>)
  then show ?thesis
    unfolding apply_policy_transaction_def wp_seq [of get_state] wp_get_state Let_def assms(3)
    by (simp add: wp_fail transaction_outcome_def)
qed

section \<open>The journal of an unfinished transaction\<close>

definition intent_stored :: "'b state_codec \<Rightarrow> operation_policy \<Rightarrow> 'b state_store \<Rightarrow> bool" where
  "intent_stored c desired st \<longleftrightarrow> store_ok c st
     \<and> is_some_and (\<lambda>s. ps_operator_policy s = desired \<and> is_some_and (\<lambda>p. po_phase p \<noteq> OpApplied) (ps_pending s)) (stored c st)"

definition journal_prepared :: "'b state_codec \<Rightarrow> operation_policy \<Rightarrow> 'b policy_node \<Rightarrow> bool" where
  "journal_prepared c desired y \<longleftrightarrow> is_some_and (intent_stored c desired) (py_store y)"

text \<open>The writes that do not belong to a policy operation.\<close>

fun keeps_journal :: "'b store_op \<Rightarrow> bool" where
  "keeps_journal (StRuntime _ _) = True"
| "keeps_journal (StTpJournal _ _ _ _ _ _) = True"
| "keeps_journal (StLoad _) = True"
| "keeps_journal (StRestart _) = True"
| "keeps_journal _ = False"

lemma intent_stored_act:
  assumes "codec_ok c" "intent_stored c desired st" "keeps_journal x"
  shows "intent_stored c desired (store_act c x st)"
proof -
  from assms(2) obtain s where s: "store_ok c st" "stored c st = Some s" "ps_operator_policy s = desired"
    "is_some_and (\<lambda>p. po_phase p \<noteq> OpApplied) (ps_pending s)"
    by (auto simp: intent_stored_def is_some_and_iff)
  have "ps_operator_policy t = desired \<and> is_some_and (\<lambda>p. po_phase p \<noteq> OpApplied) (ps_pending t)"
    if "written x (Some (normalise_session s)) = Some t" for t
    using that assms(3) s(3,4)
    by (cases x) (auto simp: normalise_session_def runtime_state_def journal_view_def tp_journal_state_def Let_def)
  with s store_act_cases [OF assms(1) s(1), of x] show ?thesis by (auto simp: intent_stored_def)
qed

lemma intent_stored_run:
  "\<lbrakk>codec_ok c; intent_stored c desired st; list_all keeps_journal ops\<rbrakk> \<Longrightarrow> intent_stored c desired (store_run c st ops)"
  by (induction ops arbitrary: st) (simp_all add: store_run_def intent_stored_act)

lemma wp_with_store_some:
  "py_store y = Some st \<Longrightarrow> wp (with_store m) Q E y =
     wp m (\<lambda>_ st'. Q () (y\<lparr>py_store := Some st'\<rparr>)) (\<lambda>e st'. E (PeStore e) (y\<lparr>py_store := Some st'\<rparr>)) st"
  by (simp add: wp_def with_store_def split: prod.split sum.split)

lemma prepare_journal:
  assumes "codec_ok c" "py_store y = Some st" "store_ok c st"
  shows "wp (apply_policy_phase c i (policy_request ep op Prepare desired)) (\<lambda>_. journal_prepared c desired) (\<lambda>_ _. True) y"
proof -
  have update: "wp (journal_update c io f) (\<lambda>_. intent_stored c d) (\<lambda>_ _. True) st"
    if "\<And>s. ps_operator_policy (f s) = d \<and> is_some_and (\<lambda>p. po_phase p \<noteq> OpApplied) (ps_pending (f s))" for io f d
  proof -
    obtain r st' where run: "journal_update c io f st = (r, st')" by fastforce
    from journal_update_ok [OF assms(1,3) run] that run show ?thesis
      by (cases r) (auto simp: wp_def intent_stored_def)
  qed
  have "wp (case desired of
        ForcedStandalone \<Rightarrow> persist_force_intent c (yi_journal i) ep op
      | Automatic \<Rightarrow> persist_automatic_intent c (yi_journal i) ep (yi_fresh i)) (\<lambda>_. intent_stored c desired) (\<lambda>_ _. True) st"
    by (cases desired) (simp_all add: persist_force_intent_def persist_automatic_intent_def update intent_of_def)
  then show ?thesis
    unfolding apply_policy_phase_def prepare_phase_def policy_request_sel
    by (simp add: wp_seq wp_get_state wp_return wp_modify wp_with_store_some [OF assms(2)] journal_prepared_def set_policy_def)
qed

text \<open>A restart from such a journal comes up with promotion suppressed.\<close>

lemma intent_boots_suppressed:
  assumes "intent_stored c desired st" "li_read io"
  shows "\<exists>s. fst (load_persisted_state c io st) = Inr (Some s)
    \<and> promotion_gate (py_node (boot_policy (Some s) y)) present \<noteq> AllowPromotion"
  using assms
  by (cases desired)
    (auto simp: intent_stored_def is_some_and_iff load_persisted_state_def on_result_def store_load_ok return_act_def
      normalise_session_def boot_policy_def restore_policy_def promotion_gate_def automatic_promotion_gate_def
      automatic_promotion_verdict_def)

section \<open>Properties\<close>


text \<open>Two nodes that pair with each other; the initiator with or without a store.\<close>

definition sample_policy_node :: "persistent_state state_store option \<Rightarrow> persistent_state policy_node" where
  "sample_policy_node st = \<lparr>py_node = sample_pn SoloStandaloneReady Paired, py_applied = Automatic,
     py_control = policy_state_new, py_store = st, py_tp = None\<rparr>"

definition sample_phase_inputs :: "persistent_state phase_inputs" where
  "sample_phase_inputs = \<lparr>yi_env = sample_environment, yi_now = 1000,
     yi_journal = \<lparr>ji_load = good_load, ji_save = SaveDone\<rparr>, yi_fresh = OperationId 8,
     yi_tp_journal = \<lparr>ji_load = good_load, ji_save = SaveDone\<rparr>\<rparr>"

definition sample_transaction :: "(policy_control_phase \<Rightarrow> delivery) \<Rightarrow> persistent_state transaction_inputs" where
  "sample_transaction d = \<lparr>tx_sender = ''w'', tx_local = \<lambda>_. sample_phase_inputs, tx_peer = \<lambda>_. sample_phase_inputs,
     tx_delivery = d, tx_between = \<lambda>_. ([], [])\<rparr>"

definition sample_pair :: "persistent_state state_store option \<Rightarrow> persistent_state policy_pair" where
  "sample_pair st = \<lparr>pp_local = sample_policy_node st, pp_peer = sample_policy_node None\<rparr>"

definition sample_hash :: "u64 \<times> policy_control_phase \<times> operation_policy \<Rightarrow> u64" where
  "sample_hash = (\<lambda>(e, ph, d). 4 * e + (if ph = Commit then 2 else 0) + (if d = Automatic then 1 else 0))"

abbreviation sample_run where
  "sample_run d st \<equiv> apply_policy_transaction plain_codec sample_hash (sample_transaction d) ForcedStandalone 0 (OperationId 1) (sample_pair st)"

abbreviation answer_lost :: "policy_control_phase \<Rightarrow> delivery" where
  "answer_lost \<equiv> \<lambda>ph. if ph = Commit then AnswerLost else Delivered"

lemmas act_defs = seq_def on_result_def return_act_def fail_act_def modify_act_def get_state_def

lemmas transaction_defs = apply_policy_transaction_def on_local_def peer_policy_def apply_policy_phase_def
  prepare_phase_def commit_phase_def with_store_def with_node_def control_operation_policy_def policy_validate_def
  policy_register_def run_nodes_def node_run_def policy_request_def set_policy_def advance_epoch_def
  recover_from_forced_policy_def recover_to_solo_def get_node_def peer_node_id_def policy_state_new_def
  policy_control_protocol_version_def

lemmas journal_defs = persist_force_intent_def journal_update_def store_load_def store_save_def store_put_def
  empty_store_def unwrap_or_default_for_save_def default_for_save_def state_validate_def schema_version_def
  good_load_def plain_codec_def blank_def white_space_2_def white_space_3_def

lemmas sample_transaction_defs = sample_pair_def sample_policy_node_def sample_transaction_def sample_phase_inputs_def
  sample_pn_defs sample_coordinator_def snapshot_new_def sample_lease_def sample_node_def sat_add_def

lemma sample_transaction_start:
  "1 = sat_add (pn_policy_epoch (py_node (pp_local (sample_pair st)))) 1"
  "fresh_at (OperationId 1) Prepare (pp_peer (sample_pair st))" "fresh_at (OperationId 1) Commit (pp_peer (sample_pair st))"
  by (simp_all add: sample_transaction_defs fresh_at_def policy_state_new_def)

lemma sample_transaction_lost:
  "fst (sample_run answer_lost None) = Inl TxTransport" "prepared ForcedStandalone 1 (pp_local (snd (sample_run answer_lost None)))"
  by (simp_all add: sample_transaction_defs transaction_defs act_defs Let_def prepared_def policy_view_def)

text \<open>The peer records its commit as applied before the initiator has committed: when the answer
  to the commit is lost, one node has applied the policy and the other has not.\<close>

lemma one_sided_commit:
  "committed ForcedStandalone 1 (pp_peer (snd (sample_run answer_lost None)))"
  "py_applied (pp_local (snd (sample_run answer_lost None))) = Automatic"
  by (simp_all add: sample_transaction_defs transaction_defs act_defs Let_def committed_def policy_view_def)


text \<open>C8. An unfinished policy change outlives the process. If a transaction fails after the
  initiator has prepared and the peer has not committed, then after any number of re-saves of the
  runtime state, failing or not, and of restarts, a restart of the initiator comes up with every
  automatic promotion suppressed.\<close>

theorem unfinished_policy_survives_restart:
  assumes "apply_policy_transaction c hash i desired gen op p = (Inl e, p')"
    and "fresh_at op Prepare (pp_peer p)" "fresh_at op Commit (pp_peer p)"
    and "ep = sat_add (pn_policy_epoch (py_node (pp_local p))) 1"
    and "codec_ok c" "py_store (pp_local p) = Some st" "store_ok c st"
    and "prepared desired ep (pp_local p')" "policy_view (py_node (pp_local p)) \<noteq> (desired, ep, True)"
      "\<not> committed desired ep (pp_peer p')"
    and "list_all keeps_journal ops" "li_read lio"
  shows "\<exists>st' s. py_store (pp_local p') = Some st'
    \<and> fst (load_persisted_state c lio (store_run c st' ops)) = Inr (Some s)
    \<and> promotion_gate (py_node (boot_policy (Some s) y)) present \<noteq> AllowPromotion"
proof -
  have "wp (apply_policy_transaction c hash i desired gen op)
      (\<lambda>_ p'. committed desired ep (pp_local p') \<and> committed desired ep (pp_peer p'))
      (\<lambda>_. transaction_outcome (journal_prepared c desired) desired ep p) p"
    using assms(2-4) prepare_journal [OF assms(5-7)]
    by (rule transaction_rule) (simp add: journal_prepared_def)
  then have "journal_prepared c desired (pp_local p')"
    using assms(1,8-10) by (auto simp: wp_def transaction_outcome_def prepared_def)
  then obtain st' where st': "py_store (pp_local p') = Some st'" "intent_stored c desired st'"
    by (auto simp: journal_prepared_def is_some_and_iff)
  from intent_boots_suppressed [OF intent_stored_run [OF assms(5) st'(2) assms(11)] assms(12)] st'(1)
  show ?thesis by fast
qed

theorem unfinished_policy_survives_restart_witness:
  "let lost = apply_policy_transaction plain_codec sample_hash (sample_transaction (\<lambda>_. RequestLost)) Automatic 0
       (OperationId 1) (sample_pair (Some empty_store))
   in fst lost = Inl TxTransport
    \<and> (\<exists>st s. py_store (pp_local (snd lost)) = Some st
         \<and> fst (load_persisted_state plain_codec good_load (store_run plain_codec st [StRestart False])) = Inr (Some s)
         \<and> promotion_gate (py_node (boot_policy (Some s) (sample_policy_node None))) True \<noteq> AllowPromotion)"
proof -
  let ?p = "sample_pair (Some empty_store)"
  let ?lost = "apply_policy_transaction plain_codec sample_hash (sample_transaction (\<lambda>_. RequestLost)) Automatic 0 (OperationId 1) ?p"
  have e: "fst ?lost = Inl TxTransport" and q: "prepared Automatic 1 (pp_local (snd ?lost))"
    and u: "\<not> committed Automatic 1 (pp_peer (snd ?lost))"
    by (simp_all add: sample_transaction_defs transaction_defs act_defs journal_defs Let_def prepared_def policy_view_def
        committed_def persist_automatic_intent_def)
  have o: "policy_view (py_node (pp_local ?p)) \<noteq> (Automatic, 1, True)" "py_store (pp_local ?p) = Some empty_store"
    by (simp_all add: sample_transaction_defs policy_view_def)
  have run: "?lost = (Inl TxTransport, snd ?lost)" using e by (metis prod.collapse)
  from unfinished_policy_survives_restart [OF run sample_transaction_start(2,3,1) plain_codec_ok o(2) empty_store_ok q o(1) u,
    of "[StRestart False]" good_load "sample_policy_node None" True]
  show ?thesis using e by (simp add: Let_def good_load_def)
qed

text \<open>The steps are the transaction's: between them nothing else happens.\<close>

lemma transaction_as_steps:
  assumes "tx_between i = (\<lambda>_. ([], []))" "gen = 0" "ep = sat_add (pn_policy_epoch (py_node (pp_local p))) 1"
  shows "apply_policy_transaction c hash i desired gen op p =
    seq (transaction_step c hash i desired ep op 0) (\<lambda>_.
    seq (transaction_step c hash i desired ep op 1) (\<lambda>_.
    seq (transaction_step c hash i desired ep op 2) (\<lambda>_.
    seq (transaction_step c hash i desired ep op 3) (\<lambda>_. return_act desired)))) p"
proof -
  have still: "seq (meanwhile ([], [])) f = f ()" for f :: "unit \<Rightarrow> ('b policy_pair, transaction_error, 'x) sact"
    by (simp add: fun_eq_iff act_defs run_nodes_def node_run_def)
  show ?thesis
    using assms unfolding apply_policy_transaction_def transaction_step_def Let_def
    by (simp add: still seq_def [of get_state] get_state_def)
qed

definition race :: "persistent_state policy_pair \<Rightarrow> (transaction_error + policy_response) list \<times> persistent_state policy_pair" where
  "race p =
     (let mine = transaction_step plain_codec sample_hash (sample_transaction (\<lambda>_. Delivered)) ForcedStandalone 1 (OperationId 1);
          yours = \<lambda>k. other_side (transaction_step plain_codec sample_hash (sample_transaction (\<lambda>_. Delivered)) Automatic 1 (OperationId 2) k)
      in fold (\<lambda>m (rs, p). case m p of (r, p') \<Rightarrow> (rs @ [r], p'))
           [mine 0, yours 0, mine 1, yours 1, mine 2, yours 2, mine 3, yours 3] ([], p))"


end
