(* ===== verification/Utf8_Text.thy ===== *)
theory Utf8_Text
  imports Text_Codec
begin

text \<open>
  UTF-8 text as the standard library of Rust sees it: the byte sequences that
  \<open>str::from_utf8\<close> accepts, the length of a character from its first byte, and
  \<open>str::is_char_boundary\<close>. The main fact is that a text may be cut at a boundary, and only
  there, without breaking a character.
\<close>

definition continuation :: "u8 \<Rightarrow> bool" where
  "continuation b \<longleftrightarrow> 128 \<le> b \<and> b < 192"

text \<open>The second byte of a character of three and of four bytes: no overlong form, no surrogate,
  nothing beyond the last code point.\<close>

definition second_of_3 :: "u8 \<Rightarrow> u8 \<Rightarrow> bool" where
  "second_of_3 b c \<longleftrightarrow> continuation c \<and> (b = 224 \<longrightarrow> 160 \<le> c) \<and> (b = 237 \<longrightarrow> c < 160)"

definition second_of_4 :: "u8 \<Rightarrow> u8 \<Rightarrow> bool" where
  "second_of_4 b c \<longleftrightarrow> continuation c \<and> (b = 240 \<longrightarrow> 144 \<le> c) \<and> (b = 244 \<longrightarrow> c < 144)"

fun utf8_char :: "bytes \<Rightarrow> bool" where
  "utf8_char [b] \<longleftrightarrow> b < 128"
| "utf8_char [b, c] \<longleftrightarrow> 194 \<le> b \<and> b < 224 \<and> continuation c"
| "utf8_char [b, c, d] \<longleftrightarrow> 224 \<le> b \<and> b < 240 \<and> second_of_3 b c \<and> continuation d"
| "utf8_char [b, c, d, e] \<longleftrightarrow> 240 \<le> b \<and> b \<le> 244 \<and> second_of_4 b c \<and> continuation d \<and> continuation e"
| "utf8_char _ \<longleftrightarrow> False"

definition char_len :: "u8 \<Rightarrow> nat" where
  "char_len b = (if b < 128 then 1 else if b < 224 then 2 else if b < 240 then 3 else 4)"

function utf8_valid :: "bytes \<Rightarrow> bool" where
  "utf8_valid [] = True"
| "utf8_valid (b # bs) =
     (utf8_char (take (char_len b) (b # bs)) \<and> utf8_valid (drop (char_len b) (b # bs)))"
  by pat_completeness auto
termination by (relation "measure length") (auto simp: char_len_def)

declare utf8_valid.simps(2) [simp del]

definition is_char_boundary :: "bytes \<Rightarrow> nat \<Rightarrow> bool" where
  "is_char_boundary text k \<longleftrightarrow>
     k = 0 \<or> (if length text \<le> k then k = length text else \<not> continuation (text ! k))"

lemma char_len_pos [simp]: "0 < char_len b"
  by (simp add: char_len_def)

lemma utf8_charE:
  assumes "utf8_char c"
  obtains b rest where "c = b # rest" "char_len b = length c" "\<not> continuation b" "list_all continuation rest"
  using assms
  by (cases c rule: utf8_char.cases)
    (auto simp: char_len_def continuation_def second_of_3_def second_of_4_def word_less_nat_alt word_le_nat_alt)

text \<open>A valid text is a sequence of characters.\<close>

lemma utf8_valid_char:
  assumes "utf8_char c"
  shows "utf8_valid (c @ bs) = utf8_valid bs"
proof -
  from assms obtain b rest where "c = b # rest" "char_len b = length c" by (rule utf8_charE)
  with assms show ?thesis by (simp add: utf8_valid.simps(2))
qed

lemma utf8_valid_single: "utf8_char c \<Longrightarrow> utf8_valid c"
  using utf8_valid_char [of c "[]"] by simp

lemma utf8_valid_concat: "list_all utf8_char cs \<Longrightarrow> utf8_valid (concat cs)"
  by (induction cs) (simp_all add: utf8_valid_char)

lemma utf8_valid_chars: "utf8_valid bs \<Longrightarrow> \<exists>cs. bs = concat cs \<and> list_all utf8_char cs"
proof (induction bs rule: utf8_valid.induct)
  case 1
  then show ?case by (intro exI [of _ "[]"]) simp
next
  case (2 b bs)
  then obtain cs where "drop (char_len b) (b # bs) = concat cs" "list_all utf8_char cs"
    by (auto simp: utf8_valid.simps(2))
  moreover have "b # bs = take (char_len b) (b # bs) @ drop (char_len b) (b # bs)"
    by (simp only: append_take_drop_id)
  moreover have "utf8_char (take (char_len b) (b # bs))" using 2 by (simp add: utf8_valid.simps(2))
  ultimately show ?case
    by (intro exI [of _ "take (char_len b) (b # bs) # cs"]) simp
qed

lemma utf8_valid_append: "utf8_valid a \<Longrightarrow> utf8_valid b \<Longrightarrow> utf8_valid (a @ b)"
  by (metis concat_append list_all_append utf8_valid_chars utf8_valid_concat)

lemma boundary_in_chars:
  assumes "list_all utf8_char cs" "is_char_boundary (concat cs) k"
  shows "\<exists>m. take k (concat cs) = concat (take m cs) \<and> drop k (concat cs) = concat (drop m cs)"
  using assms
proof (induction cs arbitrary: k)
  case Nil
  then show ?case by (intro exI [of _ 0]) simp
next
  case (Cons c cs)
  from Cons.prems(1) obtain b rest
    where c: "c = b # rest" "list_all continuation rest" by (auto elim: utf8_charE)
  consider "k = 0" | "0 < k" "k < length c" | "length c \<le> k" by linarith
  then show ?case
  proof cases
    case 1
    then show ?thesis by (intro exI [of _ 0]) simp
  next
    case 2
    then have "concat (c # cs) ! k = rest ! (k - 1)" "k - 1 < length rest"
      using c(1) by (auto simp: nth_append nth_Cons')
    then have "continuation (concat (c # cs) ! k)" using c(2) by (simp add: list_all_length)
    with 2 Cons.prems(2) show ?thesis by (auto simp: is_char_boundary_def split: if_splits)
  next
    case 3
    with Cons.prems(2) c(1) have "is_char_boundary (concat cs) (k - length c)"
      by (auto simp: is_char_boundary_def nth_append split: if_splits)
    with Cons obtain m where "take (k - length c) (concat cs) = concat (take m cs)"
      "drop (k - length c) (concat cs) = concat (drop m cs)" by fastforce
    with 3 show ?thesis by (intro exI [of _ "Suc m"]) simp
  qed
qed

lemma boundary_cuts:
  assumes "utf8_valid text" "is_char_boundary text k"
  shows "utf8_valid (take k text)" "utf8_valid (drop k text)"
proof -
  obtain cs where cs: "text = concat cs" "list_all utf8_char cs" using assms(1) utf8_valid_chars by blast
  then obtain m where "take k text = concat (take m cs)" "drop k text = concat (drop m cs)"
    using boundary_in_chars assms(2) by blast
  moreover have "list_all utf8_char (take m cs)" "list_all utf8_char (drop m cs)"
    using cs(2) by (metis append_take_drop_id list_all_append)+
  ultimately show "utf8_valid (take k text)" "utf8_valid (drop k text)"
    by (simp_all add: utf8_valid_concat)
qed

lemma boundary_drop:
  assumes "utf8_valid text" "is_char_boundary text s" "s \<le> length text"
  shows "is_char_boundary (drop s text) k \<longleftrightarrow> is_char_boundary text (s + k)"
proof (cases "s < length text")
  case True
  then have "\<not> continuation (text ! s)" if "0 < s" using assms(2) that by (auto simp: is_char_boundary_def)
  then show ?thesis using True assms(2) by (auto simp: is_char_boundary_def)
next
  case False
  with assms(3) show ?thesis by (auto simp: is_char_boundary_def)
qed

text \<open>The first character of a text.\<close>

lemma first_char:
  assumes "utf8_valid (b # bs)"
  shows "utf8_char (take (char_len b) (b # bs))" "char_len b \<le> length (b # bs)"
proof -
  from assms show u: "utf8_char (take (char_len b) (b # bs))" by (simp add: utf8_valid.simps(2))
  from u obtain h r where "take (char_len b) (b # bs) = h # r" "char_len h = length (take (char_len b) (b # bs))"
    by (rule utf8_charE)
  then show "char_len b \<le> length (b # bs)"
    by (metis char_len_pos hd_take length_take list.sel(1) min.absorb_iff2 min.commute)
qed

text \<open>A place where valid text begins is a boundary.\<close>

lemma starts_boundary:
  assumes "utf8_valid (drop k t)" "k \<le> length t"
  shows "is_char_boundary t k"
proof (cases "drop k t")
  case Nil
  with assms(2) show ?thesis by (simp add: is_char_boundary_def)
next
  case (Cons b bs)
  then have "utf8_char (take (char_len b) (b # bs))" using assms(1) first_char(1) by simp
  then have "\<not> continuation b" by (elim utf8_charE) (metis char_len_pos hd_take list.sel(1))
  moreover have "t ! k = b" "k < length t" using Cons by (metis hd_drop_conv_nth list.sel(1) drop_eq_Nil list.distinct(1) not_le)+
  ultimately show ?thesis by (simp add: is_char_boundary_def)
qed

text \<open>ASCII text is valid.\<close>

lemma ascii_valid: "list_all (\<lambda>b. b < 128) bs \<Longrightarrow> utf8_valid bs"
proof (induction bs)
  case (Cons b bs)
  then show ?case using utf8_valid_char [of "[b]" bs] by simp
qed simp

end
