(* ===== verification/Ds4_Hello.thy ===== *)
theory Ds4_Hello
  imports Utf8_Text Control_Auth Proxy_Target
begin

text \<open>
  The HELLO frame of a distributed worker and the rendezvous that receives it
  (\<open>src/cluster/ds4_hello.rs\<close>): the frame is parsed from a byte stream with a deadline, the
  control state is read again after that, and the frame is compared with what the coordinator
  expects. The properties say exactly which frames are accepted.
\<close>

definition DS4D_MAGIC :: u32 where
  "DS4D_MAGIC = 0x44533444"

definition DS4D_HELLO_KIND :: u32 where
  "DS4D_HELLO_KIND = 1"

record ds4_hello =
  he_model_id :: u32
  he_quant_bits :: u32
  he_layer_start :: u32
  he_layer_end :: u32
  he_has_output :: bool
  he_has_hidden :: bool
  he_context_size :: u32
  he_layer_count :: u32
  he_listen_port :: u16
  he_model_name :: bytes

record rendezvous_control =
  rz_state :: cluster_state
  rz_generation :: u64
  rz_deployment_id :: "string option"
  rz_lease_valid :: bool

record worker_hello_expectation =
  we_coordinator_address :: ip_addr
  we_worker_address :: ip_addr
  we_control :: rendezvous_control
  we_layer_start :: u32
  we_layer_end :: u32
  we_has_output :: bool
  we_context_size :: u32
  we_model_name :: bytes

datatype ds4_hello_error =
  HeTimeout | HeTruncated | HeInvalidMagic | HeInvalidKind | HeInvalidSize | HeModelNameTooLong
| HeInvalidModelName | HeInvalidField | HeTrailingData | HeWrongState | HeWrongBindAddress | HeWrongSource
| HeInvalidLease | HeGenerationChanged | HeDeploymentMismatch | HeLayerMismatch | HeContextMismatch
| HeModelMismatch | HeIo

section \<open>The frame\<close>

definition read_u32 :: "bytes \<Rightarrow> nat \<Rightarrow> u32" where
  "read_u32 bs offset = from_be_bytes (take 4 (drop offset bs))"

definition bool_field :: "bytes \<Rightarrow> nat \<Rightarrow> ds4_hello_error + bool" where
  "bool_field fixed offset =
     (let v = read_u32 fixed offset in if v = 0 then Inr False else if v = 1 then Inr True else Inl HeInvalidField)"

definition parse_fixed :: "bytes \<Rightarrow> bytes \<Rightarrow> ds4_hello_error + ds4_hello" where
  "parse_fixed fixed name =
     (let layer_start = read_u32 fixed 8; layer_end = read_u32 fixed 12; context_size = read_u32 fixed 24;
          layer_count = read_u32 fixed 28; listen_port = read_u32 fixed 32 in
      if layer_end < layer_start \<or> context_size = 0 \<or> layer_count = 0 \<or> listen_port = 0 \<or> 65535 < listen_port
         \<or> read_u32 fixed 36 = 0 then Inl HeInvalidField
      else if \<not> utf8_valid name then Inl HeInvalidModelName
      else case bool_field fixed 16 of Inl e \<Rightarrow> Inl e | Inr has_output \<Rightarrow>
        (case bool_field fixed 20 of Inl e \<Rightarrow> Inl e | Inr has_hidden \<Rightarrow>
          Inr \<lparr>he_model_id = read_u32 fixed 0, he_quant_bits = read_u32 fixed 4, he_layer_start = layer_start,
               he_layer_end = layer_end, he_has_output = has_output, he_has_hidden = has_hidden,
               he_context_size = context_size, he_layer_count = layer_count, he_listen_port = ucast listen_port,
               he_model_name = name\<rparr>))"

definition parse_hello_frame :: "bytes \<Rightarrow> ds4_hello_error + ds4_hello" where
  "parse_hello_frame frame =
     (if length frame < 12 then Inl HeTruncated
      else
        let payload = unat (read_u32 frame 8) in
        if read_u32 frame 0 \<noteq> DS4D_MAGIC then Inl HeInvalidMagic
        else if read_u32 frame 4 \<noteq> DS4D_HELLO_KIND then Inl HeInvalidKind
        else if payload < 40 \<or> 40 + 127 < payload then Inl HeInvalidSize
        else if length frame < 12 + payload then Inl HeTruncated
        else if 12 + payload < length frame then Inl HeTrailingData
        else
          let fixed = take 40 (drop 12 frame); name_len = unat (read_u32 fixed 36) in
          if 127 < name_len then Inl HeModelNameTooLong
          else if payload \<noteq> 40 + name_len then Inl HeInvalidSize
          else parse_fixed fixed (drop 52 frame))"

definition hello_fixed :: "ds4_hello \<Rightarrow> bytes" where
  "hello_fixed h =
     to_be_bytes (he_model_id h) @ to_be_bytes (he_quant_bits h) @ to_be_bytes (he_layer_start h)
     @ to_be_bytes (he_layer_end h) @ to_be_bytes (of_bool (he_has_output h)) @ to_be_bytes (of_bool (he_has_hidden h))
     @ to_be_bytes (he_context_size h) @ to_be_bytes (he_layer_count h) @ to_be_bytes (ucast (he_listen_port h))
     @ to_be_bytes (of_nat (length (he_model_name h)))"

definition build_hello_frame :: "ds4_hello \<Rightarrow> bytes" where
  "build_hello_frame h =
     to_be_bytes DS4D_MAGIC @ to_be_bytes DS4D_HELLO_KIND @ to_be_bytes (of_nat (40 + length (he_model_name h)))
     @ hello_fixed h @ he_model_name h"

section \<open>Reading from the connection\<close>

text \<open>What a connection delivers before the deadline, and what happens when more is asked for: it
  was closed, it fails, or nothing comes. The last flag tells whether the deadline passes during
  the short wait for trailing data.\<close>

datatype stream_end = StreamClosed | StreamFails | StreamStalls

record hello_stream =
  hs_bytes :: bytes
  hs_end :: stream_end
  hs_expires :: bool

definition read_exact :: "hello_stream \<Rightarrow> nat \<Rightarrow> nat \<Rightarrow> ds4_hello_error + bytes" where
  "read_exact s offset n =
     (if offset + n \<le> length (hs_bytes s) then Inr (take n (drop offset (hs_bytes s)))
      else case hs_end s of StreamClosed \<Rightarrow> Inl HeTruncated | StreamFails \<Rightarrow> Inl HeIo | StreamStalls \<Rightarrow> Inl HeTimeout)"

definition read_trailing :: "hello_stream \<Rightarrow> nat \<Rightarrow> ds4_hello_error option" where
  "read_trailing s offset =
     (if offset < length (hs_bytes s) then Some HeTrailingData
      else case hs_end s of
        StreamClosed \<Rightarrow> None
      | StreamFails \<Rightarrow> Some HeIo
      | StreamStalls \<Rightarrow> if hs_expires s then Some HeTimeout else None)"

definition read_hello_frame :: "nat \<Rightarrow> hello_stream \<Rightarrow> ds4_hello_error + ds4_hello" where
  "read_hello_frame deadline s =
     (if deadline = 0 then Inl HeTimeout
      else case read_exact s 0 12 of Inl e \<Rightarrow> Inl e | Inr header \<Rightarrow>
        (let payload = unat (read_u32 header 8) in
         if payload < 40 \<or> 40 + 127 < payload then Inl HeInvalidSize
         else case read_exact s 12 payload of Inl e \<Rightarrow> Inl e | Inr body \<Rightarrow>
           (case read_trailing s (12 + payload) of
              Some e \<Rightarrow> Inl e
            | None \<Rightarrow> parse_hello_frame (header @ body))))"

section \<open>The rendezvous\<close>

definition validate_control_snapshot :: "rendezvous_control \<Rightarrow> ds4_hello_error option" where
  "validate_control_snapshot c =
     (if rz_state c \<noteq> AwaitingWorkerHello then Some HeWrongState
      else if \<not> rz_lease_valid c then Some HeInvalidLease
      else if rz_deployment_id c = None then Some HeDeploymentMismatch
      else None)"

definition validate_rendezvous_control :: "rendezvous_control \<Rightarrow> rendezvous_control \<Rightarrow> ds4_hello_error option" where
  "validate_rendezvous_control expect now =
     (case validate_control_snapshot now of
        Some e \<Rightarrow> Some e
      | None \<Rightarrow>
          if rz_generation expect \<noteq> rz_generation now then Some HeGenerationChanged
          else if rz_deployment_id expect \<noteq> rz_deployment_id now then Some HeDeploymentMismatch
          else None)"

definition validate_worker_hello :: "ds4_hello \<Rightarrow> worker_hello_expectation \<Rightarrow> ds4_hello_error option" where
  "validate_worker_hello h x =
     (let output_end_matches = we_has_output x \<and> we_layer_end x = - 1 \<and> he_has_output h
            \<and> checked_add (he_layer_end h) 1 = Some (he_layer_count h) in
      if he_layer_start h \<noteq> we_layer_start x \<or> he_has_output h \<noteq> we_has_output x
         \<or> \<not> output_end_matches \<and> he_layer_end h \<noteq> we_layer_end x then Some HeLayerMismatch
      else if he_context_size h \<noteq> we_context_size x then Some HeContextMismatch
      else if he_model_name h \<noteq> we_model_name x then Some HeModelMismatch
      else None)"

definition rendezvous_bind :: "ip_addr \<Rightarrow> bool \<Rightarrow> worker_hello_expectation \<Rightarrow> ds4_hello_error option" where
  "rendezvous_bind address bound x =
     (case validate_control_snapshot (we_control x) of
        Some e \<Rightarrow> Some e
      | None \<Rightarrow> if address \<noteq> we_coordinator_address x then Some HeWrongBindAddress else if \<not> bound then Some HeIo else None)"

text \<open>The first connection: none before the timeout, an error, or a source and its stream.\<close>

datatype accepted = AcceptTimeout | AcceptFails | Connection ip_addr hello_stream

definition accept_one ::
  "worker_hello_expectation \<Rightarrow> nat \<Rightarrow> accepted \<Rightarrow> rendezvous_control \<Rightarrow> ds4_hello_error + ds4_hello" where
  "accept_one x timeout a now =
     (case a of
        AcceptTimeout \<Rightarrow> Inl HeTimeout
      | AcceptFails \<Rightarrow> Inl HeIo
      | Connection source s \<Rightarrow>
          if source \<noteq> we_worker_address x then Inl HeWrongSource
          else case read_hello_frame (min timeout 3000) s of Inl e \<Rightarrow> Inl e | Inr h \<Rightarrow>
            (case validate_rendezvous_control (we_control x) now of
               Some e \<Rightarrow> Inl e
             | None \<Rightarrow> (case validate_worker_hello h x of Some e \<Rightarrow> Inl e | None \<Rightarrow> Inr h)))"

section \<open>Words in a frame\<close>

lemma to_from_be_bytes: "length bs = 4 \<Longrightarrow> to_be_bytes (from_be_bytes bs) = bs"
proof -
  assume "length bs = 4"
  then obtain a b c d where bs: "bs = [a, b, c, d]"
    by (auto simp: numeral_eq_Suc length_Suc_conv)
  have "ucast (drop_bit 24 (from_be_bytes bs)) = a" "ucast (drop_bit 16 (from_be_bytes bs)) = b"
    "ucast (drop_bit 8 (from_be_bytes bs)) = c" "ucast (from_be_bytes bs) = d"
    unfolding bs
    by (rule bit_word_eqI; auto simp: bit_or_iff bit_push_bit_iff bit_ucast_iff bit_drop_bit_eq dest: bit_imp_le_length)+
  then show ?thesis by (simp add: to_be_bytes_def bs)
qed

lemma read_u32_first [simp]: "read_u32 (to_be_bytes w @ r) 0 = w"
  by (simp add: read_u32_def del: from_be_bytes.simps)

lemma read_u32_only [simp]: "read_u32 (to_be_bytes w) 0 = w"
  using read_u32_first [of w "[]"] by simp

lemma read_u32_later [simp]: "4 \<le> offset \<Longrightarrow> read_u32 (to_be_bytes w @ r) offset = read_u32 r (offset - 4)"
  by (simp add: read_u32_def del: from_be_bytes.simps)

lemma put_read_u32: "offset + 4 \<le> length bs \<Longrightarrow> to_be_bytes (read_u32 bs offset) = take 4 (drop offset bs)"
  unfolding read_u32_def by (rule to_from_be_bytes) simp

lemma length_hello_fixed [simp]: "length (hello_fixed h) = 40"
  by (simp add: hello_fixed_def)

lemma word_then: "k + 4 \<le> length bs \<Longrightarrow> drop k bs = to_be_bytes (read_u32 bs k) @ drop (k + 4) bs"
  by (simp add: put_read_u32) (metis append_take_drop_id drop_drop add.commute)

text \<open>A frame of at least the fixed size is the sequence of its words and the name.\<close>

lemma fixed_words:
  assumes "length bs = 40"
  shows "bs = to_be_bytes (read_u32 bs 0) @ to_be_bytes (read_u32 bs 4) @ to_be_bytes (read_u32 bs 8)
    @ to_be_bytes (read_u32 bs 12) @ to_be_bytes (read_u32 bs 16) @ to_be_bytes (read_u32 bs 20)
    @ to_be_bytes (read_u32 bs 24) @ to_be_bytes (read_u32 bs 28) @ to_be_bytes (read_u32 bs 32)
    @ to_be_bytes (read_u32 bs 36)"
proof -
  note w = word_then [of _ bs, unfolded assms]
  have "drop 0 bs = bs" "drop 40 bs = []" using assms by simp_all
  with w [of 0] w [of 4] w [of 8] w [of 12] w [of 16] w [of 20] w [of 24] w [of 28] w [of 32] w [of 36]
  show ?thesis by simp
qed

lemma frame_words:
  assumes "52 \<le> length bs"
  shows "bs = to_be_bytes (read_u32 bs 0) @ to_be_bytes (read_u32 bs 4) @ to_be_bytes (read_u32 bs 8)
    @ take 40 (drop 12 bs) @ drop 52 bs"
proof -
  have "drop 12 bs = take 40 (drop 12 bs) @ drop 52 bs"
    using append_take_drop_id [of 40 "drop 12 bs", symmetric] by (simp only: drop_drop) simp
  moreover have "drop 0 bs = bs" by simp
  ultimately show ?thesis
    using word_then [of 0 bs] word_then [of 4 bs] word_then [of 8 bs] assms by simp
qed

section \<open>The frames that are accepted\<close>

definition hello_ok :: "ds4_hello \<Rightarrow> bool" where
  "hello_ok h \<longleftrightarrow>
     he_layer_start h \<le> he_layer_end h \<and> he_context_size h \<noteq> 0 \<and> he_layer_count h \<noteq> 0 \<and> he_listen_port h \<noteq> 0
     \<and> he_model_name h \<noteq> [] \<and> length (he_model_name h) \<le> 127 \<and> utf8_valid (he_model_name h)"

lemma unat_ucast_take: "unat (ucast w :: 'b::len word) = take_bit LENGTH('b) (unat w)" for w :: "'a::len word"
  by (simp only: unsigned_ucast_eq)

lemma port_widened: "unat (ucast p :: u32) = unat p" for p :: u16
  using unat_bound [of p] by (simp add: unat_ucast_take take_bit_nat_eq_self del: unsigned_ucast_eq)

lemma port_read [simp]: "(ucast (ucast p :: u32) :: u16) = p" for p :: u16
proof -
  have "unat (ucast (ucast p :: u32) :: u16) = unat p"
    using unat_bound [of p] unfolding unat_ucast_take [of "ucast p :: u32"] port_widened
    by (simp add: take_bit_nat_eq_self)
  then show ?thesis by (simp only: word_unat_eq_iff)
qed

lemma port_bound [simp]: "\<not> 65535 < (ucast p :: u32)" for p :: u16
  using unat_bound [of p] by (simp add: word_less_nat_alt port_widened del: unsigned_ucast_eq)

lemma port_narrowed:
  fixes q :: u32
  assumes "q \<le> 65535"
  shows "(ucast (ucast q :: u16) :: u32) = q"
proof -
  from assms have "unat q < 2 ^ 16" by (simp add: word_le_nat_alt)
  then have "unat (ucast q :: u16) = unat q"
    unfolding unat_ucast_take by (simp add: take_bit_nat_eq_self)
  then have "unat (ucast (ucast q :: u16) :: u32) = unat q" by (simp only: port_widened)
  then show ?thesis by (simp only: word_unat_eq_iff)
qed

lemma port_zero [simp]: "(ucast p :: u32) = 0 \<longleftrightarrow> p = 0" for p :: u16
  by (metis port_read ucast_0)

lemma port_zero_narrow: "q \<le> 65535 \<Longrightarrow> (ucast q :: u16) = 0 \<longleftrightarrow> q = 0" for q :: u32
  by (metis port_narrowed ucast_0)

lemma parse_fixed_iff:
  assumes "length fixed = 40" "length name = unat (read_u32 fixed 36)" "length name \<le> 127"
  shows "parse_fixed fixed name = Inr h \<longleftrightarrow> fixed = hello_fixed h \<and> he_model_name h = name \<and> hello_ok h"
proof
  assume "parse_fixed fixed name = Inr h"
  then show "fixed = hello_fixed h \<and> he_model_name h = name \<and> hello_ok h"
    using fixed_words [OF assms(1)] assms(2,3)
    by (auto simp: parse_fixed_def bool_field_def hello_fixed_def hello_ok_def Let_def not_less port_narrowed
        port_zero_narrow unsigned_eq_0_iff split: if_splits)
next
  assume "fixed = hello_fixed h \<and> he_model_name h = name \<and> hello_ok h"
  then show "parse_fixed fixed name = Inr h"
    using assms(2,3)
    by (auto simp: parse_fixed_def bool_field_def hello_fixed_def hello_ok_def Let_def)
qed

lemma short_length: "k \<le> 167 \<Longrightarrow> unat (of_nat k :: u32) = k"
  by (simp add: unat_of_nat)

lemma guard_passed: "(if c then Inl e else x) = Inr y \<longleftrightarrow> \<not> c \<and> x = Inr y"
  by simp

lemma parse_hello_guards:
  assumes "parse_hello_frame f = Inr h"
  shows "read_u32 f 0 = DS4D_MAGIC" "read_u32 f 4 = DS4D_HELLO_KIND" "length f = 12 + unat (read_u32 f 8)"
    "unat (read_u32 f 8) = 40 + unat (read_u32 (take 40 (drop 12 f)) 36)"
    "unat (read_u32 (take 40 (drop 12 f)) 36) \<le> 127" "parse_fixed (take 40 (drop 12 f)) (drop 52 f) = Inr h"
proof -
  note g = assms [unfolded parse_hello_frame_def Let_def guard_passed]
  from g show "read_u32 f 0 = DS4D_MAGIC" "read_u32 f 4 = DS4D_HELLO_KIND" by blast+
  from g show "length f = 12 + unat (read_u32 f 8)" by linarith
  from g show "unat (read_u32 f 8) = 40 + unat (read_u32 (take 40 (drop 12 f)) 36)" by linarith
  from g show "unat (read_u32 (take 40 (drop 12 f)) 36) \<le> 127" by linarith
  from g show "parse_fixed (take 40 (drop 12 f)) (drop 52 f) = Inr h" by blast
qed

lemma parse_hello_sound:
  assumes "parse_hello_frame f = Inr h"
  shows "f = build_hello_frame h \<and> hello_ok h"
proof -
  note p = parse_hello_guards [OF assms]
  have len: "length (take 40 (drop 12 f)) = 40" "length (drop 52 f) = unat (read_u32 (take 40 (drop 12 f)) 36)"
    "52 \<le> length f"
    unfolding length_take length_drop p(3) p(4) by simp_all
  have h: "take 40 (drop 12 f) = hello_fixed h" "he_model_name h = drop 52 f" "hello_ok h"
    using parse_fixed_iff [OF len(1,2), of h] p(5,6) len(2) by auto
  have "of_nat (40 + length (drop 52 f)) = read_u32 f 8"
    unfolding len(2) p(4) [symmetric] by simp
  then have "build_hello_frame h = to_be_bytes (read_u32 f 0) @ to_be_bytes (read_u32 f 4)
      @ to_be_bytes (read_u32 f 8) @ take 40 (drop 12 f) @ drop 52 f"
    unfolding build_hello_frame_def h(1) [symmetric] h(2) p(1,2) by simp
  with frame_words [OF len(3)] h(3) show ?thesis by simp
qed

lemma parse_hello_complete:
  assumes "hello_ok h"
  shows "parse_hello_frame (build_hello_frame h) = Inr h"
proof -
  have n: "length (he_model_name h) \<le> 127" using assms by (simp add: hello_ok_def)
  let ?f = "build_hello_frame h"
  have "read_u32 ?f 0 = DS4D_MAGIC" "read_u32 ?f 4 = DS4D_HELLO_KIND" "take 40 (drop 12 ?f) = hello_fixed h"
    "drop 52 ?f = he_model_name h" "length ?f = 52 + length (he_model_name h)"
    by (simp_all add: build_hello_frame_def)
  moreover have "unat (read_u32 ?f 8) = 40 + length (he_model_name h)"
    using n short_length [of "40 + length (he_model_name h)"] by (simp add: build_hello_frame_def)
  moreover have "unat (read_u32 (hello_fixed h) 36) = length (he_model_name h)"
    using n by (simp add: hello_fixed_def short_length)
  ultimately show ?thesis
    using n assms parse_fixed_iff [of "hello_fixed h" "he_model_name h" h]
    by (simp add: parse_hello_frame_def Let_def)
qed

text \<open>C23. The HELLO codec is exact. A frame parses to a HELLO exactly when it is the frame built
  from it and the HELLO is well formed: its layers are ordered, its context, layer count and port
  are not zero, and its name is valid text of 1 to 127 bytes. So every well-formed HELLO survives
  the round trip, and no two frames mean the same.\<close>

theorem hello_codec_exact:
  "parse_hello_frame f = Inr h \<longleftrightarrow> f = build_hello_frame h \<and> hello_ok h"
  using parse_hello_sound parse_hello_complete by blast

section \<open>The rendezvous\<close>

definition stream_quiet :: "hello_stream \<Rightarrow> bool" where
  "stream_quiet s = (case hs_end s of StreamClosed \<Rightarrow> True | StreamFails \<Rightarrow> False | StreamStalls \<Rightarrow> \<not> hs_expires s)"

lemma build_length: "length (build_hello_frame h) = 52 + length (he_model_name h)"
  by (simp add: build_hello_frame_def)

lemma header_payload: "12 \<le> length bs \<Longrightarrow> read_u32 (take 12 bs) 8 = read_u32 bs 8"
  by (simp add: read_u32_def drop_take min_def del: from_be_bytes.simps)

lemma read_hello_iff:
  "read_hello_frame d s = Inr h \<longleftrightarrow> d \<noteq> 0 \<and> parse_hello_frame (hs_bytes s) = Inr h \<and> stream_quiet s"
proof
  assume run: "read_hello_frame d s = Inr h"
  let ?n = "unat (read_u32 (hs_bytes s) 8)"
  from run have d: "d \<noteq> 0" and l: "12 \<le> length (hs_bytes s)"
    by (auto simp: read_hello_frame_def read_exact_def split: if_splits stream_end.splits)
  with run have q: "length (hs_bytes s) = 12 + ?n" "stream_quiet s"
    "parse_hello_frame (take 12 (hs_bytes s) @ take ?n (drop 12 (hs_bytes s))) = Inr h"
    by (auto simp: read_hello_frame_def read_exact_def read_trailing_def Let_def header_payload stream_quiet_def
        split: if_splits stream_end.splits)
  then have "take ?n (drop 12 (hs_bytes s)) = drop 12 (hs_bytes s)" by simp
  with q d show "d \<noteq> 0 \<and> parse_hello_frame (hs_bytes s) = Inr h \<and> stream_quiet s" by simp
next
  assume a: "d \<noteq> 0 \<and> parse_hello_frame (hs_bytes s) = Inr h \<and> stream_quiet s"
  then have p: "parse_hello_frame (hs_bytes s) = Inr h" by simp
  let ?n = "unat (read_u32 (hs_bytes s) 8)"
  have n: "length (hs_bytes s) = 12 + ?n" "40 \<le> ?n" "?n \<le> 167"
    using parse_hello_guards(3-5) [OF p] by linarith+
  then have "take ?n (drop 12 (hs_bytes s)) = drop 12 (hs_bytes s)" "read_trailing s (12 + ?n) = None"
    using a by (auto simp: read_trailing_def stream_quiet_def split: stream_end.splits)
  with a n p show "read_hello_frame d s = Inr h"
    by (simp add: read_hello_frame_def read_exact_def Let_def header_payload)
qed

definition hello_matches :: "ds4_hello \<Rightarrow> worker_hello_expectation \<Rightarrow> bool" where
  "hello_matches h x \<longleftrightarrow>
     he_layer_start h = we_layer_start x \<and> he_has_output h = we_has_output x
     \<and> he_context_size h = we_context_size x \<and> he_model_name h = we_model_name x
     \<and> (he_layer_end h = we_layer_end x
        \<or> we_layer_end x = - 1 \<and> we_has_output x \<and> he_layer_end h + 1 = he_layer_count h)"

lemma checked_succ: "c \<noteq> 0 \<Longrightarrow> checked_add e 1 = Some c \<longleftrightarrow> e + 1 = c" for e c :: u32
proof -
  assume c: "c \<noteq> 0"
  have "e + 1 = 0" if "\<not> unat e + 1 < 2 ^ 32"
  proof -
    from that have "unat e = 2 ^ 32 - 1" using unat_bound [of e] by simp
    then have "unat e = unat (- 1 :: u32)" by (simp add: unat_max_word)
    then have "e = - 1" by (simp only: word_unat_eq_iff)
    then show ?thesis by simp
  qed
  with c show ?thesis by (auto simp: checked_add_def)
qed

lemma validate_hello_iff: "hello_ok h \<Longrightarrow> validate_worker_hello h x = None \<longleftrightarrow> hello_matches h x"
  by (auto simp: validate_worker_hello_def hello_matches_def hello_ok_def checked_succ Let_def)

definition control_unchanged :: "rendezvous_control \<Rightarrow> rendezvous_control \<Rightarrow> bool" where
  "control_unchanged expect now \<longleftrightarrow>
     rz_state now = AwaitingWorkerHello \<and> rz_lease_valid now \<and> rz_deployment_id now \<noteq> None
     \<and> rz_generation now = rz_generation expect \<and> rz_deployment_id now = rz_deployment_id expect"

lemma validate_control_iff: "validate_rendezvous_control expect now = None \<longleftrightarrow> control_unchanged expect now"
  by (auto simp: validate_rendezvous_control_def validate_control_snapshot_def control_unchanged_def)


end
