(* ===== verification/Network_Evidence.thy ===== *)
theory Network_Evidence
  imports Sds_Prelude Proxy_Target
begin

unbundle bit_operations_syntax

text \<open>
  What a node knows of the network: the role that follows from its addresses
  (\<open>src/cluster/role.rs\<close>), the snapshot of an observation (\<open>network_snapshot.rs\<close>), the
  evidence shared with the control plane (\<open>network_evidence.rs\<close>) and the discovery of the peer
  (\<open>discovery.rs\<close>, \<open>bonjour.rs\<close>). The properties say that the route counts as scoped only by a
  complete observation of the latest epoch, that the two ends of a link never take the same role,
  and that every candidate is the configured peer.
\<close>

type_synonym ipv4 = u32

section \<open>Roles\<close>

record ipv4_assignment =
  ia_address :: ipv4
  ia_prefix :: u8

text \<open>\<open>Ipv4Addr::is_link_local\<close>: 169.254.0.0/16.\<close>

definition is_link_local :: "ipv4 \<Rightarrow> bool" where
  "is_link_local a \<longleftrightarrow> drop_bit 16 a = 0xA9FE"

datatype role_assessment = RoleMissing | RoleConflict | RoleKnown local_role ipv4

definition assess_role :: "ipv4_assignment list \<Rightarrow> ipv4 \<Rightarrow> ipv4 \<Rightarrow> u8 \<Rightarrow> role_assessment" where
  "assess_role addresses coordinator_address worker_address expected_prefix =
     (case filter (\<lambda>a. \<not> is_link_local (ia_address a)) addresses of
        [] \<Rightarrow> RoleMissing
      | [a] \<Rightarrow>
          if ia_prefix a \<noteq> expected_prefix then RoleConflict
          else if ia_address a = coordinator_address then RoleKnown Coordinator (ia_address a)
          else if ia_address a = worker_address then RoleKnown Worker (ia_address a)
          else RoleConflict
      | _ \<Rightarrow> RoleConflict)"

section \<open>Snapshots\<close>

datatype thunderbolt_ip_state =
  ServiceMissing | ServiceDisabled | InterfaceUnavailable | AddressMissing | AddressConflict | ReadyNoPeer
| PeerCandidateFound | AuthenticatedPeer

record network_service =
  ns_enabled :: bool
  ns_ipv4_enabled :: bool
  ns_configured :: "ipv4_assignment list"

record network_interface =
  ni_name :: string
  ni_up :: bool
  ni_addresses :: "ipv4_assignment list"

record peer_observation =
  po_candidate :: "ipv4 option"
  po_route_scoped :: bool
  po_authenticated :: bool

record network_observation =
  no_epoch :: u64
  no_expected_interface :: string
  no_coordinator_address :: ipv4
  no_worker_address :: ipv4
  no_expected_prefix :: u8
  no_service :: "network_service option"
  no_interface :: "network_interface option"
  no_peer :: peer_observation

record network_snapshot =
  nn_epoch :: u64
  nn_state :: thunderbolt_ip_state
  nn_role :: local_role
  nn_local_address :: "ipv4 option"
  nn_expected_peer :: "ipv4 option"
  nn_peer_present :: bool

definition unavailable_snapshot :: "u64 \<Rightarrow> thunderbolt_ip_state \<Rightarrow> network_snapshot" where
  "unavailable_snapshot ep st = \<lparr>nn_epoch = ep, nn_state = st, nn_role = Unknown, nn_local_address = None,
     nn_expected_peer = None, nn_peer_present = False\<rparr>"

definition known_snapshot :: "network_observation \<Rightarrow> local_role \<Rightarrow> ipv4 \<Rightarrow> network_snapshot" where
  "known_snapshot ob role address =
     (let peer = (if role = Coordinator then no_worker_address ob else no_coordinator_address ob);
          candidate_valid = po_candidate (no_peer ob) = Some peer \<and> po_route_scoped (no_peer ob);
          st = (if candidate_valid \<and> po_authenticated (no_peer ob) then AuthenticatedPeer
                else if candidate_valid then PeerCandidateFound else ReadyNoPeer)
      in \<lparr>nn_epoch = no_epoch ob, nn_state = st, nn_role = role, nn_local_address = Some address,
          nn_expected_peer = Some peer, nn_peer_present = (st = AuthenticatedPeer)\<rparr>)"

definition from_observation :: "network_observation \<Rightarrow> network_snapshot" where
  "from_observation ob =
     (let gone = unavailable_snapshot (no_epoch ob);
          assess = (\<lambda>as. assess_role as (no_coordinator_address ob) (no_worker_address ob) (no_expected_prefix ob)) in
      case no_service ob of
        None \<Rightarrow> gone ServiceMissing
      | Some service \<Rightarrow>
          if \<not> ns_enabled service \<or> \<not> ns_ipv4_enabled service then gone ServiceDisabled
          else case no_interface ob of
            None \<Rightarrow> gone InterfaceUnavailable
          | Some iface \<Rightarrow>
              if ni_name iface \<noteq> no_expected_interface ob \<or> \<not> ni_up iface then gone InterfaceUnavailable
              else case assess (ni_addresses iface) of
                RoleMissing \<Rightarrow> gone AddressMissing
              | RoleConflict \<Rightarrow> gone AddressConflict
              | RoleKnown role address \<Rightarrow>
                  if assess (ns_configured service) \<noteq> RoleKnown role address then gone AddressConflict
                  else known_snapshot ob role address)"

definition stale_relative_to :: "network_snapshot \<Rightarrow> u64 \<Rightarrow> bool" where
  "stale_relative_to s newer \<longleftrightarrow> nn_epoch s < newer"

section \<open>Evidence\<close>

definition default_snapshot :: network_snapshot where
  "default_snapshot = \<lparr>nn_epoch = 0, nn_state = ReadyNoPeer, nn_role = Unknown, nn_local_address = None,
     nn_expected_peer = None, nn_peer_present = False\<rparr>"

record network_evidence =
  ne_snapshot :: network_snapshot
  ne_observed_epoch :: u64

definition evidence_new :: network_evidence where
  "evidence_new = \<lparr>ne_snapshot = default_snapshot, ne_observed_epoch = 0\<rparr>"

definition evidence_update :: "network_snapshot \<Rightarrow> network_evidence \<Rightarrow> bool \<times> network_evidence" where
  "evidence_update s e =
     (if nn_epoch s < ne_observed_epoch e then (False, e)
      else (True, \<lparr>ne_snapshot = s, ne_observed_epoch = nn_epoch s\<rparr>))"

definition route_scoped :: "network_evidence \<Rightarrow> bool" where
  "route_scoped e = (nn_state (ne_snapshot e) \<in> {PeerCandidateFound, AuthenticatedPeer})"

definition evidence_peer_present :: "network_evidence \<Rightarrow> bool" where
  "evidence_peer_present e = nn_peer_present (ne_snapshot e)"

definition dry_run_snapshot :: "local_role \<Rightarrow> ipv4 \<Rightarrow> ipv4 \<Rightarrow> network_snapshot" where
  "dry_run_snapshot role address peer = \<lparr>nn_epoch = - 1, nn_state = AuthenticatedPeer, nn_role = role,
     nn_local_address = Some address, nn_expected_peer = Some peer, nn_peer_present = True\<rparr>"

definition apply_dry_run :: "local_role \<Rightarrow> ipv4 \<Rightarrow> ipv4 \<Rightarrow> network_evidence \<Rightarrow> network_evidence" where
  "apply_dry_run role address peer e = snd (evidence_update (dry_run_snapshot role address peer) e)"

section \<open>Discovery\<close>

datatype candidate_source = Bonjour | StaticFallback

datatype bonjour_failure = NotPermitted | PolicyDenied | DaemonUnavailable | RegistrationFailed | OtherFailure int

fun allows_static_fallback :: "bonjour_failure \<Rightarrow> bool" where
  "allows_static_fallback (OtherFailure _) = False"
| "allows_static_fallback _ = True"

record resolved_service =
  rs_generation :: u64
  rs_interface_index :: u32
  rs_node_id :: string
  rs_protocol_version :: u16
  rs_address :: ipv4
  rs_port :: u16
  rs_route_scoped :: bool

record discovery_input =
  di_generation :: u64
  di_interface_index :: u32
  di_local_node_id :: string
  di_local_address :: ipv4
  di_expected_peer :: ipv4
  di_expected_prefix :: u8

record discovery_candidate =
  dc_source :: candidate_source
  dc_address :: ipv4
  dc_port :: u16

datatype candidate_error =
  CaOldGeneration | CaSelfResult | CaWrongInterface | CaWrongProtocol | CaWrongSubnet | CaUnexpectedAddress
| CaRouteNotScoped | CaInvalidPort | CaStaticFallbackNotAllowed

record discovery_tracker =
  dt_input :: discovery_input
  dt_candidates :: "discovery_candidate set"

definition same_subnet :: "ipv4 \<Rightarrow> ipv4 \<Rightarrow> u8 \<Rightarrow> bool" where
  "same_subnet l r prefix \<longleftrightarrow>
     prefix \<le> 32
     \<and> (let m = (if prefix = 0 then 0 else push_bit (32 - unat prefix) (- 1)) in l AND m = r AND m)"

definition tracker_start :: "discovery_input \<Rightarrow> discovery_tracker" where
  "tracker_start i = \<lparr>dt_input = i, dt_candidates = {}\<rparr>"

text \<open>\<open>BTreeSet::insert\<close>: whether the candidate is new.\<close>

definition insert_candidate :: "discovery_candidate \<Rightarrow> discovery_tracker \<Rightarrow> bool \<times> discovery_tracker" where
  "insert_candidate c t =
     (c \<notin> dt_candidates t, t\<lparr>dt_candidates := insert c (dt_candidates t)\<rparr>)"

definition bonjour_error :: "discovery_input \<Rightarrow> resolved_service \<Rightarrow> candidate_error option" where
  "bonjour_error i s =
     (if rs_generation s \<noteq> di_generation i then Some CaOldGeneration
      else if rs_node_id s = di_local_node_id i \<or> rs_address s = di_local_address i then Some CaSelfResult
      else if rs_interface_index s \<noteq> di_interface_index i then Some CaWrongInterface
      else if rs_protocol_version s \<noteq> 1 then Some CaWrongProtocol
      else if rs_port s = 0 then Some CaInvalidPort
      else if \<not> same_subnet (di_local_address i) (rs_address s) (di_expected_prefix i) then Some CaWrongSubnet
      else if rs_address s \<noteq> di_expected_peer i then Some CaUnexpectedAddress
      else if \<not> rs_route_scoped s then Some CaRouteNotScoped
      else None)"

definition accept_bonjour :: "resolved_service \<Rightarrow> discovery_tracker \<Rightarrow> (candidate_error + bool) \<times> discovery_tracker" where
  "accept_bonjour s t =
     (case bonjour_error (dt_input t) s of
        Some e \<Rightarrow> (Inl e, t)
      | None \<Rightarrow> apfst Inr (insert_candidate \<lparr>dc_source = Bonjour, dc_address = rs_address s, dc_port = rs_port s\<rparr> t))"

definition static_fallback ::
  "bonjour_failure \<Rightarrow> u16 \<Rightarrow> bool \<Rightarrow> discovery_tracker \<Rightarrow> (candidate_error + bool) \<times> discovery_tracker" where
  "static_fallback failure port scoped t =
     (if \<not> allows_static_fallback failure then (Inl CaStaticFallbackNotAllowed, t)
      else if port = 0 then (Inl CaInvalidPort, t)
      else if \<not> scoped then (Inl CaRouteNotScoped, t)
      else apfst Inr (insert_candidate \<lparr>dc_source = StaticFallback, dc_address = di_expected_peer (dt_input t), dc_port = port\<rparr> t))"

section \<open>The role of a node\<close>

lemma assess_role_known:
  assumes "assess_role as c w p = RoleKnown role address"
  shows "(role = Coordinator \<and> address = c \<or> role = Worker \<and> address = w \<and> address \<noteq> c) \<and> \<not> is_link_local address"
proof -
  obtain a where a: "filter (\<lambda>a. \<not> is_link_local (ia_address a)) as = [a]" and
    r: "role = Coordinator \<and> address = c \<or> role = Worker \<and> address = w \<and> address \<noteq> c" "address = ia_address a"
    using assms by (auto simp: assess_role_def split: list.splits if_splits)
  have "a \<in> set (filter (\<lambda>a. \<not> is_link_local (ia_address a)) as)" using a by simp
  with r show ?thesis by simp
qed

text \<open>What has to be observed for a scoped route: the service and the interface work, the
  interface and its configuration give the node the same role, and the candidate at the other
  address of the link is reached over this interface.\<close>

definition observed_scoped :: "network_observation \<Rightarrow> bool" where
  "observed_scoped ob \<longleftrightarrow>
     is_some_and (\<lambda>v. ns_enabled v \<and> ns_ipv4_enabled v \<and>
       is_some_and (\<lambda>f. ni_name f = no_expected_interface ob \<and> ni_up f \<and>
         (let role = (\<lambda>as. assess_role as (no_coordinator_address ob) (no_worker_address ob) (no_expected_prefix ob)) in
          role (ni_addresses f) = role (ns_configured v) \<and>
          (role (ni_addresses f) = RoleKnown Coordinator (no_coordinator_address ob)
             \<and> po_candidate (no_peer ob) = Some (no_worker_address ob)
           \<or> role (ni_addresses f) = RoleKnown Worker (no_worker_address ob)
             \<and> po_candidate (no_peer ob) = Some (no_coordinator_address ob)))) (no_interface ob)) (no_service ob)
     \<and> po_route_scoped (no_peer ob)"

lemma snapshot_epoch [simp]: "nn_epoch (from_observation ob) = no_epoch ob"
  by (auto simp: from_observation_def unavailable_snapshot_def known_snapshot_def Let_def
      split: option.split role_assessment.split)

lemma snapshot_scoped:
  assumes "nn_state (from_observation ob) \<in> {PeerCandidateFound, AuthenticatedPeer}"
  shows "observed_scoped ob"
proof -
  let ?role = "\<lambda>as. assess_role as (no_coordinator_address ob) (no_worker_address ob) (no_expected_prefix ob)"
  from assms obtain v f role address where o: "no_service ob = Some v" "no_interface ob = Some f"
    "ns_enabled v" "ns_ipv4_enabled v" "ni_name f = no_expected_interface ob" "ni_up f"
    "?role (ni_addresses f) = RoleKnown role address" "?role (ns_configured v) = RoleKnown role address"
    and s: "nn_state (known_snapshot ob role address) \<in> {PeerCandidateFound, AuthenticatedPeer}"
    by (auto simp: from_observation_def unavailable_snapshot_def Let_def
        split: option.splits role_assessment.splits if_splits)
  from s have "po_candidate (no_peer ob) = Some (if role = Coordinator then no_worker_address ob else no_coordinator_address ob)"
    "po_route_scoped (no_peer ob)"
    by (auto simp: known_snapshot_def Let_def split: if_splits)
  with o assess_role_known [OF o(7)] show ?thesis
    by (auto simp: observed_scoped_def Let_def)
qed

lemma snapshot_present:
  "nn_peer_present (from_observation ob) \<longleftrightarrow> nn_state (from_observation ob) = AuthenticatedPeer"
  by (auto simp: from_observation_def unavailable_snapshot_def known_snapshot_def Let_def
      split: option.split role_assessment.split)

lemma authenticated_observed:
  "nn_state (from_observation ob) = AuthenticatedPeer \<Longrightarrow> po_authenticated (no_peer ob)"
  by (auto simp: from_observation_def unavailable_snapshot_def known_snapshot_def Let_def
      split: option.splits role_assessment.splits if_splits)

section \<open>Evidence over time\<close>

definition observe_all :: "network_observation list \<Rightarrow> network_evidence" where
  "observe_all obs = foldl (\<lambda>e ob. snd (evidence_update (from_observation ob) e)) evidence_new obs"

text \<open>The evidence is that of the newest observation: none before it has a later epoch, none after
  it has one as late.\<close>

definition newest :: "network_observation list \<Rightarrow> network_observation \<Rightarrow> bool" where
  "newest obs ob \<longleftrightarrow> (\<exists>pre post. obs = pre @ ob # post
     \<and> list_all (\<lambda>o'. no_epoch o' \<le> no_epoch ob) pre \<and> list_all (\<lambda>o'. no_epoch o' < no_epoch ob) post)"

lemma observe_snoc: "observe_all (obs @ [ob]) = snd (evidence_update (from_observation ob) (observe_all obs))"
  by (simp add: observe_all_def)

lemma newest_all: "newest obs ob \<Longrightarrow> list_all (\<lambda>o'. no_epoch o' \<le> no_epoch ob) obs"
  unfolding newest_def list_all_iff by (auto, metis less_imp_le)

lemma newest_last: "list_all (\<lambda>o'. no_epoch o' \<le> no_epoch x) obs \<Longrightarrow> newest (obs @ [x]) x"
  unfolding newest_def by (intro exI [of _ obs] exI [of _ "[]"]) simp

lemma evidence_is_newest:
  "if obs = [] then observe_all obs = evidence_new
   else \<exists>ob. newest obs ob \<and> observe_all obs = \<lparr>ne_snapshot = from_observation ob, ne_observed_epoch = no_epoch ob\<rparr>"
proof (induction obs rule: rev_induct)
  case Nil
  then show ?case by (simp add: observe_all_def)
next
  case (snoc x obs)
  show ?case
  proof (cases "obs = []")
    case True
    then have "newest (obs @ [x]) x" by (intro newest_last) simp
    with True show ?thesis
      by (auto simp: observe_all_def evidence_update_def evidence_new_def)
  next
    case False
    with snoc obtain ob where ob: "newest obs ob"
      "observe_all obs = \<lparr>ne_snapshot = from_observation ob, ne_observed_epoch = no_epoch ob\<rparr>" by auto
    show ?thesis
    proof (cases "no_epoch x < no_epoch ob")
      case True
      with ob(1) have "newest (obs @ [x]) ob" unfolding newest_def by fastforce
      with True ob(2) show ?thesis by (auto simp: observe_snoc evidence_update_def)
    next
      case older: False
      with newest_all [OF ob(1)] have "newest (obs @ [x]) x"
        by (intro newest_last) (auto simp: list_all_iff not_less intro: order_trans)
      with older ob(2) show ?thesis by (auto simp: observe_snoc evidence_update_def)
    qed
  qed
qed

text \<open>C25. The route counts as scoped, and a signed request may establish or renew a lease, only by
  the newest observation of the network: its service and interface work, the interface and its
  configuration agree on the role, and the peer is the other address of the link, reached over this
  interface. The peer counts as present only if this observation authenticated it. An older
  observation that arrives late changes nothing.\<close>

theorem network_evidence_sound:
  assumes "route_scoped (observe_all obs)"
  shows "\<exists>ob. newest obs ob \<and> observed_scoped ob
    \<and> evidence_peer_present (observe_all obs) = (nn_state (from_observation ob) = AuthenticatedPeer)
    \<and> (evidence_peer_present (observe_all obs) \<longrightarrow> po_authenticated (no_peer ob))"
proof -
  from assms have "obs \<noteq> []"
    by (auto simp: observe_all_def route_scoped_def evidence_new_def default_snapshot_def)
  with evidence_is_newest [of obs] obtain ob where ob: "newest obs ob"
    "observe_all obs = \<lparr>ne_snapshot = from_observation ob, ne_observed_epoch = no_epoch ob\<rparr>" by auto
  moreover from assms ob(2) have "nn_state (from_observation ob) \<in> {PeerCandidateFound, AuthenticatedPeer}"
    by (simp add: route_scoped_def)
  ultimately show ?thesis
    using snapshot_scoped authenticated_observed by (auto simp: evidence_peer_present_def snapshot_present)
qed

definition sample_observation :: "u64 \<Rightarrow> bool \<Rightarrow> network_observation" where
  "sample_observation ep scoped =
     (let own = [\<lparr>ia_address = 10, ia_prefix = 24\<rparr>] in
      \<lparr>no_epoch = ep, no_expected_interface = ''bridge0'', no_coordinator_address = 10, no_worker_address = 20,
       no_expected_prefix = 24,
       no_service = Some \<lparr>ns_enabled = True, ns_ipv4_enabled = True, ns_configured = own\<rparr>,
       no_interface = Some \<lparr>ni_name = ''bridge0'', ni_up = True, ni_addresses = own\<rparr>,
       no_peer = \<lparr>po_candidate = Some 20, po_route_scoped = scoped, po_authenticated = True\<rparr>\<rparr>)"

theorem network_evidence_sound_witness:
  "let obs = [sample_observation 1 False, sample_observation 3 True, sample_observation 2 False] in
   evidence_peer_present (observe_all obs)
   \<and> (\<exists>ob. newest obs ob \<and> observed_scoped ob \<and> po_authenticated (no_peer ob))"
proof -
  let ?obs = "[sample_observation 1 False, sample_observation 3 True, sample_observation 2 False]"
  have "route_scoped (observe_all ?obs)" "evidence_peer_present (observe_all ?obs)" by code_simp+
  with network_evidence_sound [of ?obs] show ?thesis by (auto simp: Let_def)
qed

text \<open>In a dry run the evidence is final: no observation of a real epoch replaces it.\<close>

lemma dry_run_evidence_final:
  "nn_epoch s < - 1 \<Longrightarrow> evidence_update s (apply_dry_run role address peer e) = (False, apply_dry_run role address peer e)"
proof -
  assume "nn_epoch s < - 1"
  moreover have "\<not> (- 1 :: u64) < ne_observed_epoch e" using word_n1_ge [of "ne_observed_epoch e"] by (simp add: not_less)
  ultimately show ?thesis by (simp add: apply_dry_run_def evidence_update_def dry_run_snapshot_def)
qed

section \<open>Two ends and their candidates\<close>

lemma snapshot_known:
  obtains st where "from_observation ob = unavailable_snapshot (no_epoch ob) st"
  | role address where "from_observation ob = known_snapshot ob role address"
      "role = Coordinator \<and> address = no_coordinator_address ob \<or> role = Worker \<and> address = no_worker_address ob"
proof (cases "\<exists>st. from_observation ob = unavailable_snapshot (no_epoch ob) st")
  case False
  then obtain as role address where "from_observation ob = known_snapshot ob role address"
    "assess_role as (no_coordinator_address ob) (no_worker_address ob) (no_expected_prefix ob) = RoleKnown role address"
    by (auto simp: from_observation_def Let_def split: option.splits role_assessment.splits if_splits)
  with assess_role_known that(2) show ?thesis by metis
qed (use that in blast)

text \<open>Two nodes that know each other as peers over the same link have different roles.\<close>

lemma link_roles_differ:
  assumes "from_observation a = sa" "from_observation b = sb"
    and "no_coordinator_address a = no_coordinator_address b" "no_worker_address a = no_worker_address b"
    and "no_coordinator_address a \<noteq> no_worker_address a"
    and "nn_expected_peer sa = nn_local_address sb" "nn_local_address sb \<noteq> None"
  shows "{nn_role sa, nn_role sb} = {Coordinator, Worker}"
proof -
  have known: "nn_expected_peer (from_observation ob) \<noteq> None \<or> nn_local_address (from_observation ob) \<noteq> None \<Longrightarrow>
      nn_role (from_observation ob) = Coordinator \<and> nn_local_address (from_observation ob) = Some (no_coordinator_address ob)
        \<and> nn_expected_peer (from_observation ob) = Some (no_worker_address ob)
      \<or> nn_role (from_observation ob) = Worker \<and> nn_local_address (from_observation ob) = Some (no_worker_address ob)
        \<and> nn_expected_peer (from_observation ob) = Some (no_coordinator_address ob)" for ob
    by (cases ob rule: snapshot_known) (auto simp: unavailable_snapshot_def known_snapshot_def Let_def)
  from known [of a] known [of b] assms show ?thesis by auto
qed

definition tracker_ok :: "discovery_tracker \<Rightarrow> bool" where
  "tracker_ok t \<longleftrightarrow> (\<forall>c \<in> dt_candidates t. dc_address c = di_expected_peer (dt_input t) \<and> dc_port c \<noteq> 0)"

lemma discovery_only_peer:
  "tracker_ok (tracker_start i)"
  "tracker_ok t \<Longrightarrow> tracker_ok (snd (accept_bonjour s t)) \<and> dt_input (snd (accept_bonjour s t)) = dt_input t"
  "tracker_ok t \<Longrightarrow> tracker_ok (snd (static_fallback f p b t)) \<and> dt_input (snd (static_fallback f p b t)) = dt_input t"
  by (auto simp: tracker_ok_def tracker_start_def accept_bonjour_def static_fallback_def insert_candidate_def
      bonjour_error_def split: option.splits if_splits)

end
