(* ===== verification/Web_Sse.thy ===== *)
theory Web_Sse
  imports Utf8_Text
begin

text \<open>
  The answer of the web-search bridge as a stream of events (\<open>src/websearch/response.rs\<close> and
  \<open>sse.rs\<close>): the output items of an outcome, their JSON, the cutting of text into chunks at
  character boundaries, and the events with their sequence numbers. The properties say that the
  chunks are the text, and that a reader of the stream gets exactly the object of the
  non-streaming answer.
\<close>

section \<open>JSON values\<close>

text \<open>The values of \<open>serde_json::Value\<close>. A number is a non-negative integer, a negative one (its
  absolute value is given), or the bits of a float. The keys of an object are distinct.\<close>

datatype json = JNull | JBool bool | JNum nat | JNeg nat | JFloat u64 | JStr bytes | JArr "json list" | JObj "(string \<times> json) list"

abbreviation text_lit :: "string \<Rightarrow> json" where
  "text_lit s \<equiv> JStr (str_bytes s)"

text \<open>Indexing by a key: null if there is no such key.\<close>

fun json_get :: "string \<Rightarrow> json \<Rightarrow> json" where
  "json_get k (JObj kvs) = (case map_of kvs k of Some v \<Rightarrow> v | None \<Rightarrow> JNull)"
| "json_get k _ = JNull"

section \<open>The answer\<close>

datatype output_item =
  WebSearchCall bytes bytes
| Message bytes bytes
| FunctionCall bytes bytes bytes bytes

record assembled_response =
  ar_id :: bytes
  ar_output :: "output_item list"
  ar_model_turns :: nat

record chat_tool_call =
  tc_id :: bytes
  tc_name :: bytes
  tc_arguments :: bytes

text \<open>A URL is its text: \<open>Url::as_str\<close> and the comparison of URLs look at nothing else.\<close>

record search_result =
  sr_title :: bytes
  sr_url :: bytes
  sr_snippet :: bytes

record engine_outcome =
  eo_search_results :: "search_result list"
  eo_search_queries :: "bytes list"
  eo_client_calls :: "chat_tool_call list"
  eo_text :: bytes
  eo_model_turns :: nat

definition item_name :: "nat \<Rightarrow> bytes" where
  "item_name k = str_bytes (''item_'' @ show_nat k)"

definition client_function_item :: "nat \<Rightarrow> chat_tool_call \<Rightarrow> output_item" where
  "client_function_item k c = FunctionCall (item_name k) (tc_id c) (tc_name c) (tc_arguments c)"

fun search_items :: "nat \<Rightarrow> bytes list \<Rightarrow> output_item list" where
  "search_items k [] = []"
| "search_items k (q # qs) = WebSearchCall (item_name k) q # search_items (k + 1) qs"

fun client_items :: "nat \<Rightarrow> chat_tool_call list \<Rightarrow> output_item list" where
  "client_items k [] = []"
| "client_items k (c # cs) = client_function_item k c # client_items (k + 1) cs"

definition assemble :: "engine_outcome \<Rightarrow> bytes \<Rightarrow> assembled_response" where
  "assemble o' response_id =
     (let s = length (eo_search_queries o'); c = length (eo_client_calls o') in
      \<lparr>ar_id = response_id,
       ar_output = search_items 0 (eo_search_queries o') @ client_items s (eo_client_calls o')
         @ [Message (item_name (s + c)) (eo_text o')],
       ar_model_turns = eo_model_turns o'\<rparr>)"

fun output_item_to_json :: "output_item \<Rightarrow> json" where
  "output_item_to_json (WebSearchCall i q) =
     JObj [(''type'', text_lit ''web_search_call''), (''id'', JStr i), (''status'', text_lit ''completed''),
           (''action'', JObj [(''type'', text_lit ''search''), (''query'', JStr q)])]"
| "output_item_to_json (Message i t) =
     JObj [(''type'', text_lit ''message''), (''role'', text_lit ''assistant''), (''id'', JStr i),
           (''content'', JArr [JObj [(''type'', text_lit ''output_text''), (''text'', JStr t)]])]"
| "output_item_to_json (FunctionCall i c n a) =
     JObj [(''type'', text_lit ''function_call''), (''id'', JStr i), (''call_id'', JStr c), (''name'', JStr n),
           (''arguments'', JStr a)]"

definition nonstreaming_object :: "assembled_response \<Rightarrow> json" where
  "nonstreaming_object a =
     JObj [(''id'', JStr (ar_id a)), (''object'', text_lit ''response''),
           (''output'', JArr (map output_item_to_json (ar_output a))),
           (''usage'', JObj [(''input_tokens'', JNum 0), (''input_tokens_details'', JNull), (''output_tokens'', JNum 0),
              (''output_tokens_details'', JNull), (''total_tokens'', JNum 0)]),
           (''model_turns'', JNum (ar_model_turns a))]"

section \<open>Chunks\<close>

text \<open>From the largest admissible end back to a character boundary.\<close>

fun back_to_boundary :: "bytes \<Rightarrow> nat \<Rightarrow> nat \<Rightarrow> nat" where
  "back_to_boundary text start e =
     (if start < e \<and> \<not> is_char_boundary text e then back_to_boundary text start (e - 1) else e)"

declare back_to_boundary.simps [simp del]

definition chunk_end :: "bytes \<Rightarrow> nat \<Rightarrow> nat \<Rightarrow> nat" where
  "chunk_end text max_bytes start =
     (let e = back_to_boundary text start (min (start + max_bytes) (length text)) in
      if e = start then start + char_len (text ! start) else e)"

lemma back_ge: "start \<le> e \<Longrightarrow> start \<le> back_to_boundary t start e"
  by (induction t start e rule: back_to_boundary.induct) (subst back_to_boundary.simps, auto)

lemma chunk_end_gt: "start < length t \<Longrightarrow> start < chunk_end t max_bytes start"
  using back_ge [of start "min (start + max_bytes) (length t)" t]
  by (auto simp: chunk_end_def Let_def)

function split_from :: "bytes \<Rightarrow> nat \<Rightarrow> nat \<Rightarrow> bytes list" where
  "split_from text max_bytes start =
     (if start < length text
      then let e = chunk_end text max_bytes start in
        take (e - start) (drop start text) # split_from text max_bytes e
      else [])"
  by pat_completeness auto
termination
  by (relation "measure (\<lambda>(text, _, start). length text - start)") (auto simp: chunk_end_gt diff_less_mono2)

declare split_from.simps [simp del]

definition split_utf8_chunks :: "bytes \<Rightarrow> nat \<Rightarrow> bytes list" where
  "split_utf8_chunks text max_bytes = split_from text max_bytes 0"

section \<open>Events\<close>

definition response_event :: "string \<Rightarrow> nat \<Rightarrow> json \<Rightarrow> json" where
  "response_event kind n response =
     JObj [(''type'', text_lit kind), (''sequence_number'', JNum n), (''response'', response)]"

definition item_event :: "string \<Rightarrow> nat \<Rightarrow> nat \<Rightarrow> json \<Rightarrow> json" where
  "item_event kind n k item =
     JObj [(''type'', text_lit kind), (''sequence_number'', JNum n), (''output_index'', JNum k), (''item'', item)]"

definition text_delta :: "nat \<Rightarrow> bytes \<Rightarrow> nat \<Rightarrow> bytes \<Rightarrow> json" where
  "text_delta k i n d =
     JObj [(''type'', text_lit ''response.output_text.delta''), (''sequence_number'', JNum n), (''output_index'', JNum k),
           (''item_id'', JStr i), (''content_index'', JNum 0), (''delta'', JStr d)]"

definition arguments_delta :: "nat \<Rightarrow> bytes \<Rightarrow> nat \<Rightarrow> bytes \<Rightarrow> json" where
  "arguments_delta k i n d =
     JObj [(''type'', text_lit ''response.function_call_arguments.delta''), (''sequence_number'', JNum n),
           (''output_index'', JNum k), (''item_id'', JStr i), (''delta'', JStr d)]"

fun delta_events :: "(nat \<Rightarrow> bytes \<Rightarrow> json) \<Rightarrow> nat \<Rightarrow> bytes list \<Rightarrow> json list" where
  "delta_events mk n [] = []"
| "delta_events mk n (d # ds) = mk n d # delta_events mk (n + 1) ds"

fun added_item :: "output_item \<Rightarrow> json" where
  "added_item (WebSearchCall i q) =
     JObj [(''type'', text_lit ''web_search_call''), (''id'', JStr i), (''status'', text_lit ''in_progress'')]"
| "added_item (Message i t) = output_item_to_json (Message i [])"
| "added_item (FunctionCall i c n a) = output_item_to_json (FunctionCall i c n [])"

fun item_deltas :: "nat \<Rightarrow> nat \<Rightarrow> nat \<Rightarrow> output_item \<Rightarrow> json list" where
  "item_deltas chunk n k (WebSearchCall i q) = []"
| "item_deltas chunk n k (Message i t) = delta_events (text_delta k i) n (split_utf8_chunks t chunk)"
| "item_deltas chunk n k (FunctionCall i c nm a) = delta_events (arguments_delta k i) n (split_utf8_chunks a chunk)"

definition item_events :: "nat \<Rightarrow> nat \<Rightarrow> nat \<Rightarrow> output_item \<Rightarrow> json list" where
  "item_events chunk n k item =
     (let ds = item_deltas chunk (n + 1) k item in
      item_event ''response.output_item.added'' n k (added_item item) # ds
      @ [item_event ''response.output_item.done'' (n + 1 + length ds) k (output_item_to_json item)])"

fun output_events :: "nat \<Rightarrow> nat \<Rightarrow> nat \<Rightarrow> output_item list \<Rightarrow> json list" where
  "output_events chunk n k [] = []"
| "output_events chunk n k (item # items) =
     (let es = item_events chunk n k item in es @ output_events chunk (n + length es) (k + 1) items)"

definition render_sse_with_chunk :: "assembled_response \<Rightarrow> nat \<Rightarrow> json list" where
  "render_sse_with_chunk a chunk =
     (let head = [response_event ''response.created'' 0 (JObj [(''id'', JStr (ar_id a))]),
                  response_event ''response.in_progress'' 1 (JObj [(''id'', JStr (ar_id a))])];
          body = output_events chunk 2 0 (ar_output a)
      in head @ body @ [response_event ''response.completed'' (2 + length body) (nonstreaming_object a)])"

definition render_sse :: "assembled_response \<Rightarrow> json list" where
  "render_sse a = render_sse_with_chunk a 4096"

definition render_failed :: "bytes \<Rightarrow> bytes \<Rightarrow> bytes \<Rightarrow> json list" where
  "render_failed response_id code message =
     [response_event ''response.created'' 0 (JObj [(''id'', JStr response_id)]),
      response_event ''response.in_progress'' 1 (JObj [(''id'', JStr response_id)]),
      response_event ''response.failed'' 2 (JObj [(''id'', JStr response_id),
        (''error'', JObj [(''code'', JStr code), (''message'', JStr message)])])]"

fun reconstruct_object :: "json list \<Rightarrow> json option" where
  "reconstruct_object [] = None"
| "reconstruct_object (e # es) =
     (if json_get ''type'' e = text_lit ''response.completed'' then Some (json_get ''response'' e) else reconstruct_object es)"

section \<open>The chunks are the text\<close>

lemma back_le: "back_to_boundary t start e \<le> e"
  by (induction t start e rule: back_to_boundary.induct) (subst back_to_boundary.simps, auto)

lemma back_boundary:
  "start < back_to_boundary t start e \<Longrightarrow> is_char_boundary t (back_to_boundary t start e)"
  by (induction t start e rule: back_to_boundary.induct) (subst (asm) (2) back_to_boundary.simps, subst back_to_boundary.simps, auto split: if_splits)

lemma split_concat: "concat (split_from t m start) = drop start t"
proof (induction t m start rule: split_from.induct)
  case (1 t m start)
  show ?case
  proof (cases "start < length t")
    case True
    let ?e = "chunk_end t m start"
    have "concat (split_from t m start) = take (?e - start) (drop start t) @ drop ?e t"
      using 1 True by (subst split_from.simps) (simp add: Let_def)
    also have "drop ?e t = drop (?e - start) (drop start t)"
      using chunk_end_gt [OF True, of m] by simp
    finally show ?thesis by (simp only: append_take_drop_id)
  qed (subst split_from.simps, simp)
qed

text \<open>The end of a chunk is a boundary, and the chunk is short or a single character.\<close>

lemma chunk_end_boundary:
  assumes "utf8_valid t" "is_char_boundary t start" "start < length t"
  shows "is_char_boundary t (chunk_end t m start) \<and> chunk_end t m start \<le> length t"
    and "chunk_end t m start - start \<le> m \<or> utf8_char (take (chunk_end t m start - start) (drop start t))"
proof -
  let ?b = "back_to_boundary t start (min (start + m) (length t))"
  have b: "?b \<le> min (start + m) (length t)" by (rule back_le)
  have valid: "utf8_valid (drop start t)" using assms(1,2) by (rule boundary_cuts)
  have cons: "drop start t = t ! start # drop (Suc start) t" using assms(3) by (simp add: Cons_nth_drop_Suc)
  note first = first_char [OF valid [unfolded cons], folded cons]
  have "is_char_boundary (drop start t) (char_len (t ! start))"
  proof -
    have "utf8_valid (drop (char_len (t ! start)) (drop start t))"
      using valid utf8_valid_char [OF first(1)] by (metis append_take_drop_id)
    then show ?thesis using first(2) starts_boundary by blast
  qed
  then have c: "is_char_boundary t (start + char_len (t ! start))"
    using boundary_drop [OF assms(1,2)] assms(3) by simp
  show "is_char_boundary t (chunk_end t m start) \<and> chunk_end t m start \<le> length t"
    using b c first(2) back_boundary [of start t] back_ge [of start "min (start + m) (length t)" t] assms(3)
    by (auto simp: chunk_end_def Let_def)
  show "chunk_end t m start - start \<le> m \<or> utf8_char (take (chunk_end t m start - start) (drop start t))"
    using b first(1) by (auto simp: chunk_end_def Let_def)
qed

lemma split_valid:
  assumes "utf8_valid t" "is_char_boundary t start" "start \<le> length t"
  shows "list_all (\<lambda>c. c \<noteq> [] \<and> utf8_valid c \<and> (length c \<le> m \<or> utf8_char c)) (split_from t m start)"
  using assms
proof (induction t m start rule: split_from.induct)
  case (1 t m start)
  show ?case
  proof (cases "start < length t")
    case True
    let ?e = "chunk_end t m start"
    let ?c = "take (?e - start) (drop start t)"
    note e = chunk_end_boundary [OF 1(2,3) True, of m] chunk_end_gt [OF True, of m]
    have "is_char_boundary (drop start t) (?e - start)"
      using e boundary_drop [OF 1(2,3) 1(4), of "?e - start"] by simp
    then have "utf8_valid ?c" using boundary_cuts(1) boundary_cuts(2) [OF 1(2,3)] by blast
    moreover have "?c \<noteq> []" using True e(3) by simp
    moreover have "length ?c \<le> m \<or> utf8_char ?c" using e(2) by auto
    ultimately show ?thesis
      using 1 True e by (subst split_from.simps) (simp add: Let_def)
  qed (subst split_from.simps, simp)
qed

text \<open>Cutting into chunks ends for every text and every size, zero included, and loses nothing:
  the chunks of a text in sequence are the text, none is empty, each is valid UTF-8 by itself, and
  each has at most the given size unless it is a single character that is longer.\<close>

lemma chunks_partition_text:
  assumes "utf8_valid t"
  shows "concat (split_utf8_chunks t m) = t
    \<and> list_all (\<lambda>c. c \<noteq> [] \<and> utf8_valid c \<and> (length c \<le> m \<or> utf8_char c)) (split_utf8_chunks t m)"
  using split_concat [of t m 0] split_valid [OF assms, of 0 m]
  by (simp add: split_utf8_chunks_def is_char_boundary_def)

text \<open>An emoji of four bytes, cut into chunks of at most two bytes, stays whole.\<close>

section \<open>The stream is the answer\<close>

text \<open>A reader: the text it has received for an output index.\<close>

definition delta_of :: "nat \<Rightarrow> json \<Rightarrow> bytes" where
  "delta_of k e =
     (case json_get ''delta'' e of JStr d \<Rightarrow> if json_get ''output_index'' e = JNum k then d else [] | _ \<Rightarrow> [])"

definition received :: "json list \<Rightarrow> nat \<Rightarrow> bytes" where
  "received es k = concat (map (delta_of k) es)"

definition is_completed :: "json \<Rightarrow> bool" where
  "is_completed e \<longleftrightarrow> json_get ''type'' e = text_lit ''response.completed''"

fun item_text :: "output_item \<Rightarrow> bytes" where
  "item_text (WebSearchCall i q) = []"
| "item_text (Message i t) = t"
| "item_text (FunctionCall i c n a) = a"

lemmas event_defs = response_event_def item_event_def text_delta_def arguments_delta_def delta_of_def is_completed_def

lemma received_simps [simp]:
  "received [] k = []" "received (e # es) k = delta_of k e @ received es k"
  "received (a @ b) k = received a k @ received b k"
  by (simp_all add: received_def)

lemma numbered: "map f [n..<n + Suc l] = f n # map f [Suc n..<Suc n + l]" "map f [n..<Suc (n + l)] = f n # map f [Suc n..<Suc (n + l)]"
  by (simp_all add: upt_conv_Cons del: upt_Suc)

lemma numbered_append: "map f [n..<n + (a + b)] = map f [n..<n + a] @ map f [n + a..<n + a + b]"
  by (metis add.assoc le_add1 map_append upt_add_eq_append)

lemma split_text: "concat (split_utf8_chunks t m) = t"
  using split_concat [of t m 0] by (simp add: split_utf8_chunks_def)

lemma item_deltas_read:
  "received (item_deltas chunk n j item) k = (if k = j then item_text item else [])"
  "map (json_get ''sequence_number'') (item_deltas chunk n j item) = map JNum [n..<n + length (item_deltas chunk n j item)]"
  "\<not> list_ex is_completed (item_deltas chunk n j item)"
proof -
  have read: "received (delta_events mk n ds) k = (if k = j then concat ds else [])"
    and num: "map (json_get ''sequence_number'') (delta_events mk n ds) = map JNum [n..<n + length (delta_events mk n ds)]"
    and live: "\<not> list_ex is_completed (delta_events mk n ds)"
    if "mk = text_delta j i \<or> mk = arguments_delta j i" for mk i ds n
    using that
    by (induction ds arbitrary: n) (auto simp: event_defs numbered simp del: upt_Suc)
  show "received (item_deltas chunk n j item) k = (if k = j then item_text item else [])"
    by (cases item) (simp_all add: read [OF disjI1 [OF refl]] read [OF disjI2 [OF refl]] split_text)
  show "map (json_get ''sequence_number'') (item_deltas chunk n j item) = map JNum [n..<n + length (item_deltas chunk n j item)]"
    by (cases item) (simp_all add: num [OF disjI1 [OF refl]] num [OF disjI2 [OF refl]])
  show "\<not> list_ex is_completed (item_deltas chunk n j item)" by (cases item) (simp_all add: live [OF disjI1 [OF refl]] live [OF disjI2 [OF refl]])
qed

lemma item_events_read:
  "received (item_events chunk n j item) k = (if k = j then item_text item else [])"
  "map (json_get ''sequence_number'') (item_events chunk n j item) = map JNum [n..<n + length (item_events chunk n j item)]"
  "\<not> list_ex is_completed (item_events chunk n j item)"
  using item_deltas_read [of chunk "n + 1" j item]
  by (simp_all add: item_events_def Let_def event_defs numbered(1) [of _ n "length (item_deltas chunk (Suc n) j item) + 1", simplified])

lemma output_events_read:
  "received (output_events chunk n j items) k = (if j \<le> k \<and> k < j + length items then item_text (items ! (k - j)) else [])"
  "map (json_get ''sequence_number'') (output_events chunk n j items) = map JNum [n..<n + length (output_events chunk n j items)]"
  "\<not> list_ex is_completed (output_events chunk n j items)"
proof (induction items arbitrary: n j)
  case (Cons item items)
  {
    case 1
    show ?case using Cons.IH(1) [of "n + length (item_events chunk n j item)" "j + 1"]
      by (auto simp: Let_def item_events_read(1) nth_Cons')
  next
    case 2
    show ?case using Cons.IH(2) [of "n + length (item_events chunk n j item)" "j + 1"]
      by (simp add: Let_def item_events_read(2) numbered_append)
  next
    case 3
    show ?case using Cons.IH(3) by (simp add: Let_def item_events_read(3))
  }
qed auto

lemma reconstruct_skips: "\<not> list_ex is_completed es \<Longrightarrow> reconstruct_object (es @ fs) = reconstruct_object fs"
  by (induction es) (simp_all add: is_completed_def)

text \<open>C37. The stream carries the answer. The events are numbered in sequence from zero; exactly one
  of them, the last, says that the response is complete, and it carries the object of the
  non-streaming answer; and the deltas of every item, put together, are the text or the arguments of
  this item, whatever the size of the chunks.\<close>

theorem sse_stream_faithful:
  "let es = render_sse_with_chunk a chunk in
   map (json_get ''sequence_number'') es = map JNum [0..<length es]
   \<and> reconstruct_object es = Some (nonstreaming_object a)
   \<and> is_completed (last es) \<and> \<not> list_ex is_completed (butlast es)
   \<and> map (received es) [0..<length (ar_output a)] = map item_text (ar_output a)"
proof -
  let ?body = "output_events chunk 2 0 (ar_output a)" and ?es = "render_sse_with_chunk a chunk"
  note read = output_events_read [of chunk 2 0 "ar_output a"]
  have "[0..<length ?es] = 0 # 1 # [2..<2 + length ?body] @ [2 + length ?body]"
    using upt_add_eq_append [of 0 2 "length ?body"] by (simp add: render_sse_with_chunk_def Let_def numeral_2_eq_2)
  moreover have "map (json_get ''sequence_number'') ?es = map JNum (0 # 1 # [2..<2 + length ?body] @ [2 + length ?body])"
    using read(2) by (simp add: render_sse_with_chunk_def Let_def event_defs del: upt_Suc)
  moreover have "received ?es = received ?body"
    by (rule ext) (simp add: render_sse_with_chunk_def Let_def event_defs)
  then have "map (received ?es) [0..<length (ar_output a)] = map item_text (ar_output a)"
    by (intro nth_equalityI) (simp_all add: read(1))
  moreover have "reconstruct_object ?es = Some (nonstreaming_object a)" "is_completed (last ?es)" "\<not> list_ex is_completed (butlast ?es)"
    using read(3) by (simp_all add: render_sse_with_chunk_def Let_def reconstruct_skips butlast_append event_defs)
  ultimately show ?thesis by (simp add: Let_def)
qed

text \<open>A failure is never announced as complete; the items of an outcome are named by their place.\<close>

lemma failed_not_completed:
  "reconstruct_object (render_failed i code message) = None" "\<not> list_ex is_completed (render_failed i code message)"
  by (simp_all add: render_failed_def event_defs)

fun item_id :: "output_item \<Rightarrow> bytes" where
  "item_id (WebSearchCall i q) = i"
| "item_id (Message i t) = i"
| "item_id (FunctionCall i c n a) = i"

lemma search_items_ids: "map item_id (search_items k qs) = map item_name [k..<k + length qs]"
  by (induction qs arbitrary: k) (simp_all add: numbered del: upt_Suc)

lemma client_items_ids: "map item_id (client_items k cs) = map item_name [k..<k + length cs]"
  by (induction cs arbitrary: k) (simp_all add: numbered client_function_item_def del: upt_Suc)

lemma item_name_inj [simp]: "item_name j = item_name k \<longleftrightarrow> j = k"
  by (simp add: item_name_def) (metis option.inject parse_show_nat)

lemma assemble_ids:
  "map item_id (ar_output (assemble o' i)) = map item_name [0..<length (ar_output (assemble o' i))]"
  "distinct (map item_id (ar_output (assemble o' i)))"
proof -
  have len: "length (search_items k qs) = length qs" "length (client_items k cs) = length cs" for k qs cs
    using arg_cong [OF search_items_ids, of length k qs] arg_cong [OF client_items_ids, of length k cs] by simp_all
  show ids: "map item_id (ar_output (assemble o' i)) = map item_name [0..<length (ar_output (assemble o' i))]"
    using numbered_append [of item_name 0 "length (eo_search_queries o')" "length (eo_client_calls o')"]
    by (simp add: assemble_def Let_def len search_items_ids client_items_ids)
  show "distinct (map item_id (ar_output (assemble o' i)))"
    unfolding ids by (simp add: distinct_map inj_on_def)
qed

end
