(* ===== verification/Web_Citation.thy ===== *)
theory Web_Citation
  imports Web_Sse
begin

text \<open>
  The citations of the web-search bridge (\<open>src/websearch/citation.rs\<close>): the scan for markers like
  \<open>[1]\<close> in the answer of the model, the numbered sources, and the replacement of every marker by
  a visible citation with its URL and its byte range. The properties say what is replaced and by
  what, that the ranges are those of the visible citations, and that the text stays valid UTF-8.
\<close>

section \<open>Markers\<close>

record citation_marker =
  cm_start :: nat
  cm_end :: nat
  cm_id :: nat

definition digit_byte :: "u8 \<Rightarrow> bool" where
  "digit_byte b \<longleftrightarrow> 48 \<le> b \<and> b \<le> 57"

definition number_of :: "bytes \<Rightarrow> nat" where
  "number_of ds = foldl (\<lambda>n d. n * 10 + unat (d - 48)) 0 ds"

text \<open>\<open>digits.parse::<usize>().unwrap_or(0)\<close>: a number that does not fit 64 bits counts as 0.\<close>

definition parse_id :: "bytes \<Rightarrow> nat" where
  "parse_id ds = (if number_of ds < 2 ^ 64 then number_of ds else 0)"

function scan_from :: "bytes \<Rightarrow> nat \<Rightarrow> citation_marker list \<times> bool" where
  "scan_from t i =
     (if i < length t then
        if t ! i = 91 then
          let ds = takeWhile digit_byte (drop (i + 1) t); j = i + 1 + length ds in
          if ds = [] then scan_from t (i + 1)
          else if j < length t \<and> t ! j = 93 then
            (let r = scan_from t (j + 1) in
             (\<lparr>cm_start = i, cm_end = j + 1, cm_id = parse_id ds\<rparr> # fst r, snd r))
          else (let r = scan_from t j in (fst r, snd r \<or> 93 \<notin> set (drop j t)))
        else scan_from t (i + 1)
      else ([], False))"
  by pat_completeness auto
termination by (relation "measure (\<lambda>(t, i). length t - i)") auto

declare scan_from.simps [simp del]

definition scan_markers :: "bytes \<Rightarrow> citation_marker list \<times> bool" where
  "scan_markers t = scan_from t 0"

section \<open>Sources and citations\<close>

record url_citation =
  uc_url :: bytes
  uc_start :: nat
  uc_end :: nat
  uc_source_id :: bytes

record cited_answer =
  ca_text :: bytes
  ca_citations :: "url_citation list"

datatype citation_error = InvalidId | IncompleteMarker | UnknownUrl

definition build_sources :: "search_result list \<Rightarrow> url_citation list" where
  "build_sources results =
     map (\<lambda>(i, r). \<lparr>uc_url = sr_url r, uc_start = 0, uc_end = 0,
       uc_source_id = str_bytes (''src_'' @ show_nat (i + 1))\<rparr>) (zip [0..<length results] results)"

definition reverse_lookup :: "url_citation list \<Rightarrow> bytes \<Rightarrow> bytes option" where
  "reverse_lookup sources url = map_option uc_source_id (find (\<lambda>s. uc_url s = url) sources)"

definition visible_citation :: "nat \<Rightarrow> bytes \<Rightarrow> bytes" where
  "visible_citation n url = 91 # str_bytes (show_nat n) @ [93, 32, 40] @ url @ [41]"

fun render_markers ::
  "bytes \<Rightarrow> url_citation list \<Rightarrow> bytes \<Rightarrow> nat \<Rightarrow> url_citation list \<Rightarrow> citation_marker list
   \<Rightarrow> citation_error + cited_answer" where
  "render_markers t sources out from_pos cs [] = Inr \<lparr>ca_text = out @ drop from_pos t, ca_citations = cs\<rparr>"
| "render_markers t sources out from_pos cs (m # ms) =
     (let out = out @ take (cm_start m - from_pos) (drop from_pos t); n = cm_id m in
      if n = 0 \<or> length sources \<le> n - 1 then Inl InvalidId
      else let url = uc_url (sources ! (n - 1)) in
        case reverse_lookup sources url of
          None \<Rightarrow> Inl InvalidId
        | Some source_id \<Rightarrow>
            let shown = visible_citation n url in
            render_markers t sources (out @ shown) (cm_end m)
              (cs @ [\<lparr>uc_url = url, uc_start = length out, uc_end = length (out @ shown), uc_source_id = source_id\<rparr>]) ms)"

definition render_citations :: "bytes \<Rightarrow> url_citation list \<Rightarrow> citation_error + cited_answer" where
  "render_citations t sources =
     (let (markers, incomplete) = scan_markers t in
      if incomplete then Inl IncompleteMarker else render_markers t sources [] 0 [] markers)"

section \<open>What is a marker\<close>

text \<open>A text is read as gaps without markers, with a marker after each gap but the last.\<close>

fun weave :: "bytes list \<Rightarrow> bytes list \<Rightarrow> bytes" where
  "weave (g # gs) (x # xs) = g @ x @ weave gs xs"
| "weave (g # gs) [] = g"
| "weave [] xs = []"

definition marker_text :: "bytes \<Rightarrow> bytes" where
  "marker_text ds = 91 # ds @ [93]"

definition digits :: "bytes \<Rightarrow> bool" where
  "digits ds \<longleftrightarrow> ds \<noteq> [] \<and> list_all digit_byte ds"

definition marker_free :: "bytes \<Rightarrow> bool" where
  "marker_free g \<longleftrightarrow> (\<forall>p ds q. digits ds \<longrightarrow> g \<noteq> p @ marker_text ds @ q)"

definition reads_as :: "bytes \<Rightarrow> bytes list \<Rightarrow> bytes list \<Rightarrow> bool" where
  "reads_as t gaps dss \<longleftrightarrow> length gaps = Suc (length dss) \<and> t = weave gaps (map marker_text dss)
     \<and> list_all digits dss \<and> list_all marker_free gaps"

fun places :: "nat \<Rightarrow> bytes list \<Rightarrow> bytes list \<Rightarrow> citation_marker list" where
  "places i (g # gs) (ds # dss) =
     (let s = i + length g; e = s + length ds + 2 in
      \<lparr>cm_start = s, cm_end = e, cm_id = parse_id ds\<rparr> # places e gs dss)"
| "places i _ _ = []"

lemma bracket_no_digit [simp]: "\<not> digit_byte 91" "\<not> digit_byte 93"
  by (simp_all add: digit_byte_def)

lemma marker_free_Nil [simp]: "marker_free []"
  by (simp add: marker_free_def marker_text_def)

lemma marker_free_Cons:
  "marker_free (b # g) \<longleftrightarrow> marker_free g \<and> (\<forall>ds q. digits ds \<longrightarrow> b # g \<noteq> marker_text ds @ q)"
proof
  assume l: "marker_free (b # g)"
  have "b # g \<noteq> (b # p) @ marker_text ds @ q" if "digits ds" for p ds q
    using l that unfolding marker_free_def by blast
  moreover have "b # g \<noteq> [] @ marker_text ds @ q" if "digits ds" for ds q
    using l that unfolding marker_free_def by blast
  ultimately show "marker_free g \<and> (\<forall>ds q. digits ds \<longrightarrow> b # g \<noteq> marker_text ds @ q)"
    by (auto simp: marker_free_def)
next
  assume r: "marker_free g \<and> (\<forall>ds q. digits ds \<longrightarrow> b # g \<noteq> marker_text ds @ q)"
  show "marker_free (b # g)" unfolding marker_free_def
  proof (intro allI impI)
    fix p ds q assume "digits ds"
    with r show "b # g \<noteq> p @ marker_text ds @ q" by (cases p) (auto simp: marker_free_def)
  qed
qed

lemma marker_free_plain: "marker_free g \<Longrightarrow> b \<noteq> 91 \<Longrightarrow> marker_free (b # g)"
  by (auto simp: marker_free_Cons marker_text_def)

lemma marker_free_digits: "list_all digit_byte ds \<Longrightarrow> marker_free g \<Longrightarrow> marker_free (ds @ g)"
  by (induction ds) (auto intro!: marker_free_plain)

text \<open>An opening bracket whose digits are not followed by a closing one begins no marker.\<close>

lemma marker_free_open:
  assumes "marker_free g" "list_all digit_byte ds" "ds = [] \<or> g = [] \<or> hd g \<noteq> 93" "g = [] \<or> \<not> digit_byte (hd g)"
  shows "marker_free (91 # ds @ g)"
proof -
  have "ds @ g \<noteq> es @ 93 # q" if es: "digits es" for es q
  proof
    assume e: "ds @ g = es @ 93 # q"
    have "takeWhile digit_byte (ds @ g) = ds"
      using assms(2,4) by (cases g) (simp_all add: takeWhile_append list_all_iff takeWhile_eq_all_conv)
    moreover have "takeWhile digit_byte (es @ 93 # q) = es"
      using es by (simp add: takeWhile_append list_all_iff digits_def)
    ultimately have "ds = es" using e by simp
    with e assms(3) es show False by (cases g) (auto simp: digits_def)
  qed
  with assms(1,2) show ?thesis
    by (auto simp: marker_free_Cons [of 91] marker_text_def intro: marker_free_digits)
qed

lemma reads_as_Cons:
  assumes "reads_as t (g # gs) dss" "marker_free (p @ g)"
  shows "reads_as (p @ t) ((p @ g) # gs) dss"
  using assms by (cases dss) (auto simp: reads_as_def)

lemma reads_as_marker:
  assumes "reads_as t gaps dss" "digits ds"
  shows "reads_as (marker_text ds @ t) ([] # gaps) (ds # dss)"
  using assms by (simp add: reads_as_def)

lemma reads_as_first:
  assumes "reads_as t (g # gs) dss" "g \<noteq> []"
  shows "t \<noteq> []" "hd g = hd t"
  using assms by (cases dss; auto simp: reads_as_def)+

lemma reads_as_gaps: "reads_as t gaps dss \<Longrightarrow> \<exists>g gs. gaps = g # gs"
  by (cases gaps) (auto simp: reads_as_def)

lemma places_shift: "places i ((p @ g) # gs) dss = places (i + length p) (g # gs) dss"
  by (cases dss) (simp_all add: Let_def add.assoc)

section \<open>The scan\<close>

lemma scan_end: "length t \<le> i \<Longrightarrow> scan_from t i = ([], False)"
  by (subst scan_from.simps) simp

lemma scan_plain:
  assumes "i < length t" "t ! i \<noteq> 91 \<or> takeWhile digit_byte (drop (Suc i) t) = []"
  shows "scan_from t i = scan_from t (Suc i)"
  using assms by (subst scan_from.simps) auto

lemma scan_marker:
  assumes "i < length t" "t ! i = 91" "ds = takeWhile digit_byte (drop (Suc i) t)" "ds \<noteq> []"
    and "j = Suc i + length ds" "j < length t" "t ! j = 93"
  shows "fst (scan_from t i) = \<lparr>cm_start = i, cm_end = Suc j, cm_id = parse_id ds\<rparr> # fst (scan_from t (Suc j))"
  using assms by (subst scan_from.simps) (simp add: Let_def)

lemma scan_open:
  assumes "i < length t" "t ! i = 91" "ds = takeWhile digit_byte (drop (Suc i) t)" "ds \<noteq> []"
    and "j = Suc i + length ds" "\<not> (j < length t \<and> t ! j = 93)"
  shows "fst (scan_from t i) = fst (scan_from t j)"
  using assms by (subst scan_from.simps) (auto simp: Let_def)

text \<open>Where the scan stands, a rest that reads as gaps and markers with the markers it finds.\<close>

definition scanned :: "bytes \<Rightarrow> nat \<Rightarrow> bool" where
  "scanned t i \<longleftrightarrow> (\<exists>g gs dss. reads_as (drop i t) (g # gs) dss \<and> fst (scan_from t i) = places i (g # gs) dss)"

lemma scanned_prefix:
  assumes "scanned t j" "drop i t = p @ drop j t" "j = i + length p" "fst (scan_from t i) = fst (scan_from t j)"
    and "\<And>g. marker_free g \<Longrightarrow> g = [] \<or> j < length t \<and> hd g = t ! j \<Longrightarrow> marker_free (p @ g)"
  shows "scanned t i"
proof -
  from assms(1) obtain g gs dss where r: "reads_as (drop j t) (g # gs) dss"
    "fst (scan_from t j) = places j (g # gs) dss" by (auto simp: scanned_def)
  have "g = [] \<or> j < length t \<and> hd g = t ! j"
    using reads_as_first [OF r(1)] by (auto simp: hd_drop_conv_nth)
  then have "marker_free (p @ g)" using r(1) assms(5) by (simp add: reads_as_def)
  from reads_as_Cons [OF r(1) this] r(2) assms(2-4) show ?thesis
    unfolding scanned_def by (metis places_shift)
qed

lemma after_digits:
  assumes "ds = takeWhile digit_byte (drop k t)" "j = k + length ds"
  shows "drop k t = ds @ drop j t" "list_all digit_byte ds" "j < length t \<Longrightarrow> \<not> digit_byte (t ! j)"
proof -
  have e: "drop k t = ds @ dropWhile digit_byte (drop k t)" using assms(1) by simp
  then have d: "drop j t = dropWhile digit_byte (drop k t)" using assms(2)
    by (metis append_eq_conv_conj drop_drop add.commute)
  with e show "drop k t = ds @ drop j t" by simp
  show "list_all digit_byte ds" using assms(1) by (auto simp: list_all_iff dest: set_takeWhileD)
  assume "j < length t"
  then show "\<not> digit_byte (t ! j)" using d hd_drop_conv_nth [of j t] hd_dropWhile [of digit_byte "drop k t"] by fastforce
qed

lemma scanned_plain:
  assumes "scanned t (Suc i)" "i < length t" "t ! i \<noteq> 91 \<or> takeWhile digit_byte (drop (Suc i) t) = []"
  shows "scanned t i"
proof (rule scanned_prefix [OF assms(1), where p = "[t ! i]"])
  show "drop i t = [t ! i] @ drop (Suc i) t" using assms(2) by (simp add: Cons_nth_drop_Suc)
  show "fst (scan_from t i) = fst (scan_from t (Suc i))" using scan_plain assms(2,3) by simp
  fix g assume g: "marker_free g" "g = [] \<or> Suc i < length t \<and> hd g = t ! Suc i"
  have "g = [] \<or> \<not> digit_byte (hd g)" if "t ! i = 91"
    using assms(3) after_digits(3) [OF refl refl, of "Suc i" t] g(2) that by auto
  then show "marker_free ([t ! i] @ g)"
    using marker_free_open [of g "[]"] marker_free_plain [of g "t ! i"] g(1) by (cases "t ! i = 91") auto
qed simp

lemma scanned_marker:
  assumes "scanned t (Suc j)" "i < length t" "t ! i = 91" "ds = takeWhile digit_byte (drop (Suc i) t)"
    and "ds \<noteq> []" "j = Suc i + length ds" "j < length t" "t ! j = 93"
  shows "scanned t i"
proof -
  note dig = after_digits [OF assms(4,6)]
  from assms(1) obtain g gs dss where r: "reads_as (drop (Suc j) t) (g # gs) dss"
    "fst (scan_from t (Suc j)) = places (Suc j) (g # gs) dss" by (auto simp: scanned_def)
  have "drop i t = 91 # drop (Suc i) t" using assms(2,3) by (metis Cons_nth_drop_Suc)
  also have "\<dots> = marker_text ds @ drop (Suc j) t"
    using assms(7,8) dig(1) by (metis Cons_nth_drop_Suc append.assoc append_Cons append_Nil marker_text_def)
  finally have "reads_as (drop i t) ([] # g # gs) (ds # dss)"
    using reads_as_marker [OF r(1), of ds] assms(5) dig(2) by (simp add: digits_def)
  moreover have "fst (scan_from t i) = places i ([] # g # gs) (ds # dss)"
    using scan_marker [OF assms(2-8)] r(2) assms(6) by (simp add: Let_def)
  ultimately show ?thesis unfolding scanned_def by blast
qed

lemma scanned_open:
  assumes "scanned t j" "i < length t" "t ! i = 91" "ds = takeWhile digit_byte (drop (Suc i) t)"
    and "ds \<noteq> []" "j = Suc i + length ds" "\<not> (j < length t \<and> t ! j = 93)"
  shows "scanned t i"
proof (rule scanned_prefix [OF assms(1), where p = "91 # ds"])
  note dig = after_digits [OF assms(4,6)]
  show "drop i t = (91 # ds) @ drop j t" using assms(2,3) dig(1) by (metis Cons_nth_drop_Suc append_Cons)
  show "fst (scan_from t i) = fst (scan_from t j)" by (rule scan_open [OF assms(2-7)])
  fix g assume "marker_free g" "g = [] \<or> j < length t \<and> hd g = t ! j"
  then show "marker_free ((91 # ds) @ g)" using marker_free_open [of g ds] dig(2,3) assms(7) by auto
qed (simp add: assms(6))

lemma scan_reads: "scanned t i"
proof (induction "length t - i" arbitrary: i rule: less_induct)
  case less
  define ds where "ds = takeWhile digit_byte (drop (Suc i) t)"
  define j where "j = Suc i + length ds"
  show ?case
  proof (cases "i < length t")
    case False
    then have "reads_as (drop i t) [[]] []" "fst (scan_from t i) = places i [[]] []"
      by (simp_all add: scan_end reads_as_def)
    then show ?thesis unfolding scanned_def by blast
  next
    case True
    then have "scanned t (Suc i)" "scanned t j" "scanned t (Suc j)" by (auto intro!: less simp: j_def)
    then show ?thesis
      using scanned_plain scanned_marker scanned_open True ds_def j_def by metis
  qed
qed

section \<open>The visible citations\<close>

definition known_id :: "url_citation list \<Rightarrow> bytes \<Rightarrow> bool" where
  "known_id sources ds \<longleftrightarrow> 1 \<le> parse_id ds \<and> parse_id ds \<le> length sources"

definition cited_url :: "url_citation list \<Rightarrow> bytes \<Rightarrow> bytes" where
  "cited_url sources ds = uc_url (sources ! (parse_id ds - 1))"

definition shown :: "url_citation list \<Rightarrow> bytes \<Rightarrow> bytes" where
  "shown sources ds = visible_citation (parse_id ds) (cited_url sources ds)"

fun cites :: "url_citation list \<Rightarrow> nat \<Rightarrow> bytes list \<Rightarrow> bytes list \<Rightarrow> url_citation list" where
  "cites sources off (g # gs) (ds # dss) =
     (let s = off + length g; e = s + length (shown sources ds) in
      \<lparr>uc_url = cited_url sources ds, uc_start = s, uc_end = e,
       uc_source_id = the (reverse_lookup sources (cited_url sources ds))\<rparr> # cites sources e gs dss)"
| "cites sources off _ _ = []"

lemma known_lookup:
  assumes "known_id sources ds"
  shows "\<exists>s \<in> set sources. uc_url s = cited_url sources ds
    \<and> reverse_lookup sources (cited_url sources ds) = Some (uc_source_id s)"
proof -
  have "sources ! (parse_id ds - 1) \<in> set sources" using assms by (intro nth_mem) (auto simp: known_id_def)
  then have "find (\<lambda>s. uc_url s = cited_url sources ds) sources \<noteq> None"
    by (auto simp: find_None_iff cited_url_def)
  then obtain s where s: "find (\<lambda>s. uc_url s = cited_url sources ds) sources = Some s" by blast
  then have "s \<in> set sources" "uc_url s = cited_url sources ds" by (auto simp: find_Some_iff)
  with s show ?thesis by (auto simp: reverse_lookup_def)
qed

lemma render_marker:
  assumes "cm_id m = parse_id ds" "take (cm_start m - i) (drop i t) = g"
  shows "render_markers t sources out i cs (m # ms) =
    (if known_id sources ds
     then render_markers t sources (out @ g @ shown sources ds) (cm_end m)
       (cs @ [\<lparr>uc_url = cited_url sources ds, uc_start = length out + length g,
         uc_end = length out + length g + length (shown sources ds),
         uc_source_id = the (reverse_lookup sources (cited_url sources ds))\<rparr>]) ms
     else Inl InvalidId)"
proof (cases "known_id sources ds")
  case True
  then obtain sid where "reverse_lookup sources (cited_url sources ds) = Some sid" using known_lookup by blast
  moreover have "\<not> (parse_id ds = 0 \<or> length sources \<le> parse_id ds - 1)" using True by (auto simp: known_id_def)
  ultimately show ?thesis
    using assms True unfolding render_markers.simps Let_def cited_url_def shown_def by (simp add: add.assoc)
next
  case False
  then have "parse_id ds = 0 \<or> length sources \<le> parse_id ds - 1" by (auto simp: known_id_def)
  with assms(1) False show ?thesis unfolding render_markers.simps Let_def by simp
qed

lemma render_markers_places:
  assumes "length gaps = Suc (length dss)" "drop i t = weave gaps (map marker_text dss)" "i \<le> length t"
  shows "render_markers t sources out i cs (places i gaps dss) =
    (if list_all (known_id sources) dss
     then Inr \<lparr>ca_text = out @ weave gaps (map (shown sources) dss), ca_citations = cs @ cites sources (length out) gaps dss\<rparr>
     else Inl InvalidId)"
  using assms
proof (induction dss arbitrary: gaps i out cs)
  case Nil
  then show ?case by (cases gaps) auto
next
  case (Cons ds dss)
  then obtain g gs where g: "gaps = g # gs" "length gs = Suc (length dss)" by (cases gaps) auto
  let ?e = "i + length g + length ds + 2" and ?v = "shown sources ds" and ?url = "cited_url sources ds"
  have w: "drop i t = g @ marker_text ds @ weave gs (map marker_text dss)" using Cons.prems(2) g by simp
  then have e: "drop ?e t = weave gs (map marker_text dss)" "?e \<le> length t"
  proof -
    have "drop ?e t = drop (length g + length ds + 2) (drop i t)" by (simp add: ac_simps)
    then show "drop ?e t = weave gs (map marker_text dss)" using w by (simp add: marker_text_def)
    show "?e \<le> length t" using arg_cong [OF w, of length] Cons.prems(3) by (simp add: marker_text_def)
  qed
  have "render_markers t sources out i cs (places i gaps (ds # dss)) =
    (if known_id sources ds
     then render_markers t sources (out @ g @ ?v) ?e
       (cs @ [\<lparr>uc_url = ?url, uc_start = length out + length g, uc_end = length out + length g + length ?v,
         uc_source_id = the (reverse_lookup sources ?url)\<rparr>]) (places ?e gs dss)
     else Inl InvalidId)"
    using w unfolding g(1) places.simps Let_def by (subst render_marker [where ds = ds and g = g]) simp_all
  then show ?case using Cons.IH [OF g(2) e] g(1) by (simp add: Let_def add.assoc)
qed

lemma render_citations_reads:
  obtains gaps dss where "reads_as t gaps dss" "fst (scan_markers t) = places 0 gaps dss"
    and "render_citations t sources =
      (if snd (scan_markers t) then Inl IncompleteMarker
       else if list_all (known_id sources) dss
       then Inr \<lparr>ca_text = weave gaps (map (shown sources) dss), ca_citations = cites sources 0 gaps dss\<rparr>
       else Inl InvalidId)"
proof -
  obtain gaps dss where r: "reads_as t gaps dss" "fst (scan_markers t) = places 0 gaps dss"
    using scan_reads [of t 0] by (auto simp: scanned_def scan_markers_def)
  moreover have "render_markers t sources [] 0 [] (places 0 gaps dss) =
      (if list_all (known_id sources) dss
       then Inr \<lparr>ca_text = weave gaps (map (shown sources) dss), ca_citations = cites sources 0 gaps dss\<rparr>
       else Inl InvalidId)"
    using render_markers_places [of gaps dss 0 t] r(1) by (simp add: reads_as_def)
  ultimately show thesis by (intro that [OF r]) (simp add: render_citations_def split_beta Let_def)
qed

lemma cites_ranges:
  assumes "length gaps = Suc (length dss)"
  shows "list_all2 (\<lambda>c ds. uc_url c = cited_url sources ds
      \<and> take (uc_end c - uc_start c) (drop (uc_start c) (pre @ weave gaps (map (shown sources) dss))) = shown sources ds)
    (cites sources (length pre) gaps dss) dss"
  using assms
proof (induction dss arbitrary: gaps pre)
  case (Cons ds dss)
  then obtain g gs where g: "gaps = g # gs" "length gs = Suc (length dss)" by (cases gaps) auto
  from Cons.IH [OF g(2), of "pre @ g @ shown sources ds"] show ?case
    using g(1) by (simp add: Let_def add.assoc)
qed (cases gaps; simp)

lemma cites_known:
  "list_all (known_id sources) dss \<Longrightarrow>
   list_all (\<lambda>c. \<exists>s \<in> set sources. uc_url s = uc_url c \<and> uc_source_id c = uc_source_id s) (cites sources off gaps dss)"
proof (induction sources off gaps dss rule: cites.induct)
  case (1 sources off g gs ds dss)
  then have "\<exists>s \<in> set sources. uc_url s = cited_url sources ds
    \<and> the (reverse_lookup sources (cited_url sources ds)) = uc_source_id s"
    using known_lookup [of sources ds] by auto
  with 1 show ?case by (simp add: Let_def)
qed simp_all

section \<open>Cut markers\<close>

lemma scan_cut:
  assumes "t = p @ 91 # ds" "digits ds" "i \<le> length p"
  shows "snd (scan_from t i)"
  using assms(3)
proof (induction "length p - i" arbitrary: i rule: less_induct)
  case less
  define es where "es = takeWhile digit_byte (drop (Suc i) t)"
  define j where "j = Suc i + length es"
  note dig = after_digits [OF es_def j_def]
  have i: "i < length t" and p: "t ! length p = 91" using less.prems assms(1) by simp_all
  show ?case
  proof (cases "i = length p")
    case True
    have tw: "takeWhile digit_byte ds = ds" and "ds \<noteq> []"
      using assms(2) by (simp_all add: digits_def list_all_iff takeWhile_eq_all_conv)
    with True assms(1) show ?thesis by (subst scan_from.simps) (simp add: Let_def tw)
  next
    case False
    have j: "j \<le> length p"
    proof (rule ccontr)
      assume "\<not> j \<le> length p"
      then have l: "length p - Suc i < length es" using False less.prems unfolding j_def by linarith
      then have "es ! (length p - Suc i) = drop (Suc i) t ! (length p - Suc i)"
        unfolding es_def by (rule takeWhile_nth)
      also have "\<dots> = t ! length p" using False less.prems i by (cases p) auto
      finally have "es ! (length p - Suc i) = t ! length p" .
      with l p dig(2) show False by (metis bracket_no_digit(1) list_all_length)
    qed
    have "snd (scan_from t (Suc i))" using less.hyps [of "Suc i"] False less.prems by simp
    moreover have "snd (scan_from t j)" using less.hyps [of j] False less.prems j by (simp add: j_def)
    moreover have "snd (scan_from t (Suc j))" if "t ! j = 93"
    proof -
      have "j \<noteq> length p" using that p by auto
      with j show ?thesis using less.hyps [of "Suc j"] by (simp add: j_def)
    qed
    ultimately show ?thesis
      using i by (subst scan_from.simps) (auto simp: es_def [symmetric] j_def Let_def)
  qed
qed

lemma cut_marker_refused:
  "digits ds \<Longrightarrow> render_citations (p @ 91 # ds) sources = Inl IncompleteMarker"
  using scan_cut [of _ p ds 0] by (simp add: render_citations_def scan_markers_def split_beta)

text \<open>C29. What citing does. If the answer of the model is accepted, it reads as gaps with a marker
  \<open>[N]\<close> after each gap but the last, no gap contains a marker, and every number is that of a
  source. The final text has the same gaps, and for the marker \<open>[N]\<close> the visible citation of the
  N-th source. There is one citation for each marker, in their order; its byte range is exactly that of
  its visible citation, and its URL and its identifier belong to one source.\<close>

theorem citations_exact:
  assumes "render_citations t sources = Inr a"
  shows "\<exists>gaps dss. reads_as t gaps dss \<and> list_all (known_id sources) dss
    \<and> ca_text a = weave gaps (map (shown sources) dss)
    \<and> list_all2 (\<lambda>c ds. uc_url c = cited_url sources ds
        \<and> take (uc_end c - uc_start c) (drop (uc_start c) (ca_text a)) = shown sources ds) (ca_citations a) dss
    \<and> list_all (\<lambda>c. \<exists>s \<in> set sources. uc_url s = uc_url c \<and> uc_source_id c = uc_source_id s) (ca_citations a)"
proof -
  obtain gaps dss where r: "reads_as t gaps dss" and e: "render_citations t sources =
      (if snd (scan_markers t) then Inl IncompleteMarker
       else if list_all (known_id sources) dss
       then Inr \<lparr>ca_text = weave gaps (map (shown sources) dss), ca_citations = cites sources 0 gaps dss\<rparr>
       else Inl InvalidId)" by (rule render_citations_reads)
  with assms have k: "list_all (known_id sources) dss"
    and a: "a = \<lparr>ca_text = weave gaps (map (shown sources) dss), ca_citations = cites sources 0 gaps dss\<rparr>"
    by (auto split: if_splits)
  have "length gaps = Suc (length dss)" using r by (simp add: reads_as_def)
  then show ?thesis
    using r k a cites_ranges [of gaps dss sources "[]"] cites_known [OF k] by (intro exI [of _ gaps] exI [of _ dss]) simp
qed

definition example_sources :: "url_citation list" where
  "example_sources = build_sources [\<lparr>sr_title = [], sr_url = [97], sr_snippet = []\<rparr>]"

lemmas example_render = render_citations_def scan_markers_def scan_from.simps example_sources_def build_sources_def
  Let_def digit_byte_def parse_id_def number_of_def visible_citation_def reverse_lookup_def show_nat.simps digit_char_def
  str_bytes_def

lemma citations_exact_witness:
  "\<exists>gaps dss. reads_as [72, 91, 49, 93, 46] gaps dss \<and> list_all (known_id example_sources) dss
    \<and> [72, 91, 49, 93, 32, 40, 97, 41, 46] = weave gaps (map (shown example_sources) dss)"
proof -
  have "render_citations [72, 91, 49, 93, 46] example_sources =
    Inr \<lparr>ca_text = [72, 91, 49, 93, 32, 40, 97, 41, 46],
      ca_citations = [\<lparr>uc_url = [97], uc_start = 1, uc_end = 8, uc_source_id = str_bytes ''src_1''\<rparr>]\<rparr>"
    by (simp add: example_render)
  from citations_exact [OF this] show ?thesis by auto
qed

section \<open>The text stays text\<close>

lemma ascii_next:
  assumes "utf8_valid (g @ b # r)" "b < 128"
  shows "utf8_valid g" "utf8_valid r"
proof -
  have "is_char_boundary (g @ b # r) (length g)"
    using assms(2) by (auto simp: is_char_boundary_def continuation_def word_less_nat_alt word_le_nat_alt)
  from boundary_cuts [OF assms(1) this] have "utf8_valid g" "utf8_valid (b # r)" by simp_all
  then show "utf8_valid g" "utf8_valid r" using assms(2) utf8_valid_char [of "[b]" r] by simp_all
qed

lemma ascii_prefix: "utf8_valid (p @ r) \<Longrightarrow> list_all (\<lambda>b. b < 128) p \<Longrightarrow> utf8_valid r"
proof (induction p)
  case (Cons b p)
  then show ?case using ascii_next(2) [of "[]" b "p @ r"] by simp
qed simp

lemma digits_ascii: "digits ds \<Longrightarrow> list_all (\<lambda>b. b < 128) ds"
  by (auto simp: digits_def list_all_iff digit_byte_def word_less_nat_alt word_le_nat_alt)

lemma reads_as_valid:
  assumes "utf8_valid (weave gaps (map marker_text dss))" "length gaps = Suc (length dss)" "list_all digits dss"
  shows "list_all utf8_valid gaps"
  using assms
proof (induction dss arbitrary: gaps)
  case Nil
  then show ?case by (cases gaps) auto
next
  case (Cons ds dss)
  then obtain g gs where g: "gaps = g # gs" by (cases gaps) auto
  with Cons.prems(1) have v: "utf8_valid (g @ 91 # (ds @ [93]) @ weave gs (map marker_text dss))"
    by (simp add: marker_text_def [of ds])
  have "utf8_valid g" "utf8_valid ((ds @ [93]) @ weave gs (map marker_text dss))" using ascii_next [OF v] by simp_all
  moreover from this(2) have "utf8_valid (weave gs (map marker_text dss))"
    by (rule ascii_prefix) (use digits_ascii [of ds] Cons.prems(3) in simp)
  ultimately show ?case using Cons g by simp
qed

lemma weave_valid: "list_all utf8_valid gaps \<Longrightarrow> list_all utf8_valid xs \<Longrightarrow> utf8_valid (weave gaps xs)"
  by (induction gaps xs rule: weave.induct) (auto intro!: utf8_valid_append)

lemma show_ascii: "list_all (\<lambda>b. b < 128) (str_bytes (show_nat n))"
proof (induction n rule: show_nat.induct)
  case (1 n)
  have "(of_nat (of_char (digit_char d)) :: u8) < 128" if "d < 10" for d
  proof -
    have "(of_nat (of_char (digit_char d)) :: u8) = of_nat (48 + d)"
      using that by (simp add: digit_char_def of_char_of)
    then show ?thesis using that by (simp only: word_less_nat_alt unat_of_nat) simp
  qed
  with 1 show ?case by (subst show_nat.simps) (auto simp: str_bytes_def)
qed

lemma shown_valid:
  assumes "list_all (\<lambda>s. utf8_valid (uc_url s)) sources" "known_id sources ds"
  shows "utf8_valid (shown sources ds)"
proof -
  have "sources ! (parse_id ds - 1) \<in> set sources" using assms(2) by (intro nth_mem) (auto simp: known_id_def)
  then have "utf8_valid (cited_url sources ds)" using assms(1) by (auto simp: list_all_iff cited_url_def)
  moreover have "utf8_valid (91 # str_bytes (show_nat (parse_id ds)) @ [93, 32, 40])" "utf8_valid [41 :: u8]"
    using show_ascii by (auto intro!: ascii_valid)
  ultimately have "utf8_valid ((91 # str_bytes (show_nat (parse_id ds)) @ [93, 32, 40]) @ cited_url sources ds @ [41])"
    by (intro utf8_valid_append)
  then show ?thesis by (simp add: shown_def visible_citation_def)
qed

lemma boundaries:
  assumes "utf8_valid b" "utf8_valid c"
  shows "is_char_boundary (a @ b @ c) (length a)" "is_char_boundary (a @ b @ c) (length a + length b)"
  using starts_boundary [of "length a" "a @ b @ c"] starts_boundary [of "length a + length b" "a @ b @ c"]
    utf8_valid_append [OF assms] assms(2) by simp_all

lemma cites_boundaries:
  assumes "length gaps = Suc (length dss)" "list_all utf8_valid gaps" "list_all (\<lambda>ds. utf8_valid (shown sources ds)) dss"
  shows "list_all (\<lambda>c. is_char_boundary (pre @ weave gaps (map (shown sources) dss)) (uc_start c)
      \<and> is_char_boundary (pre @ weave gaps (map (shown sources) dss)) (uc_end c)) (cites sources (length pre) gaps dss)"
  using assms
proof (induction dss arbitrary: gaps pre)
  case (Cons ds dss)
  then obtain g gs where g: "gaps = g # gs" "length gs = Suc (length dss)" by (cases gaps) auto
  let ?v = "shown sources ds" and ?w = "weave gs (map (shown sources) dss)"
  have w: "utf8_valid ?w" using Cons.prems(2,3) g(1) by (intro weave_valid) (auto simp: list_all_iff)
  have "utf8_valid ?v" using Cons.prems(3) by simp
  from boundaries [OF this w, of "pre @ g"] show ?case using Cons.IH [of gs "pre @ g @ ?v"] Cons.prems g by (simp add: Let_def add.assoc)
qed simp

lemma places_boundaries:
  assumes "length gaps = Suc (length dss)" "list_all utf8_valid gaps" "list_all digits dss"
  shows "list_all (\<lambda>m. is_char_boundary (pre @ weave gaps (map marker_text dss)) (cm_start m)
      \<and> is_char_boundary (pre @ weave gaps (map marker_text dss)) (cm_end m)) (places (length pre) gaps dss)"
  using assms
proof (induction dss arbitrary: gaps pre)
  case (Cons ds dss)
  then obtain g gs where g: "gaps = g # gs" "length gs = Suc (length dss)" by (cases gaps) auto
  let ?v = "marker_text ds" and ?w = "weave gs (map marker_text dss)"
  have m: "utf8_valid (marker_text es)" if "digits es" for es
    using digits_ascii [OF that] by (auto intro!: ascii_valid simp: marker_text_def)
  have w: "utf8_valid ?w" using Cons.prems(2,3) g(1) m by (intro weave_valid) (auto simp: list_all_iff)
  have "utf8_valid ?v" using Cons.prems(3) m by simp
  moreover have "length ?v = length ds + 2" by (simp add: marker_text_def)
  ultimately show ?case
    using boundaries [OF _ w, of ?v "pre @ g"] Cons.IH [of gs "pre @ g @ ?v"] Cons.prems g
    by (simp add: Let_def add.assoc)
qed simp

text \<open>C30. The result is a Rust string again. If the answer of the model and the URLs of the sources
  are valid UTF-8, so is the final text; the places where the answer is cut are character
  boundaries, so no slice of it panics, and so are the ends of every citation in the final text,
  whatever characters stand around the markers.\<close>

theorem cited_text_valid:
  assumes "utf8_valid t" "list_all (\<lambda>s. utf8_valid (uc_url s)) sources" "render_citations t sources = Inr a"
  shows "utf8_valid (ca_text a)
    \<and> list_all (\<lambda>m. is_char_boundary t (cm_start m) \<and> is_char_boundary t (cm_end m)) (fst (scan_markers t))
    \<and> list_all (\<lambda>c. is_char_boundary (ca_text a) (uc_start c) \<and> is_char_boundary (ca_text a) (uc_end c)) (ca_citations a)"
proof -
  obtain gaps dss where r: "reads_as t gaps dss" and p: "fst (scan_markers t) = places 0 gaps dss"
    and e: "render_citations t sources =
      (if snd (scan_markers t) then Inl IncompleteMarker
       else if list_all (known_id sources) dss
       then Inr \<lparr>ca_text = weave gaps (map (shown sources) dss), ca_citations = cites sources 0 gaps dss\<rparr>
       else Inl InvalidId)" by (rule render_citations_reads)
  with assms(3) have k: "list_all (known_id sources) dss"
    and a: "a = \<lparr>ca_text = weave gaps (map (shown sources) dss), ca_citations = cites sources 0 gaps dss\<rparr>"
    by (auto split: if_splits)
  from r have l: "length gaps = Suc (length dss)" and d: "list_all digits dss"
    and t: "t = weave gaps (map marker_text dss)" by (simp_all add: reads_as_def)
  have g: "list_all utf8_valid gaps" using reads_as_valid assms(1) l d t by blast
  have s: "list_all (\<lambda>ds. utf8_valid (shown sources ds)) dss"
    using k shown_valid [OF assms(2)] by (auto simp: list_all_iff)
  then have "list_all utf8_valid (map (shown sources) dss)" by (simp add: list_all_iff)
  then show ?thesis
    using weave_valid [OF g] cites_boundaries [OF l g s, of "[]"] places_boundaries [OF l g d, of "[]"] a p t by simp
qed

lemma cited_text_valid_witness:
  "utf8_valid [230, 151, 165, 91, 49, 93, 32, 40, 97, 41, 230, 151, 165]
    \<and> is_char_boundary [230, 151, 165, 91, 49, 93, 32, 40, 97, 41, 230, 151, 165] 10"
proof -
  have "render_citations [230, 151, 165, 91, 49, 93, 230, 151, 165] example_sources =
    Inr \<lparr>ca_text = [230, 151, 165, 91, 49, 93, 32, 40, 97, 41, 230, 151, 165],
      ca_citations = [\<lparr>uc_url = [97], uc_start = 3, uc_end = 10, uc_source_id = str_bytes ''src_1''\<rparr>]\<rparr>"
    by (simp add: example_render)
  moreover have "utf8_valid [230, 151, 165, 91, 49, 93, 230, 151, 165]"
    by (simp add: utf8_valid.simps char_len_def second_of_3_def continuation_def)
  moreover have "list_all (\<lambda>s. utf8_valid (uc_url s)) example_sources"
    by (simp add: example_sources_def build_sources_def utf8_valid.simps char_len_def)
  ultimately show ?thesis using cited_text_valid by fastforce
qed

end
