(* ===== verification/Web_Request.thy ===== *)
theory Web_Request
  imports Web_Sse
begin

text \<open>
  The request of the web-search bridge (\<open>src/websearch/wire.rs\<close>, \<open>request.rs\<close> and
  \<open>history.rs\<close>): the typed request, its validation, and the translation of the history into
  chat messages with the matching of call identifiers. Decoding the JSON of a request is the
  library's; printing a JSON value is a parameter.
\<close>

section \<open>The wire\<close>

datatype content_item = InputText bytes | OutputText bytes | InputImage bytes | InputAudio bytes

datatype web_search_action =
  ActionSearch "bytes option" "bytes list option"
| OpenPage "bytes option"
| FindInPage "bytes option" "bytes option"
| ActionOther

datatype response_input_item =
  InMessage bytes "content_item list"
| InFunctionCall bytes bytes bytes
| InCustomToolCall bytes bytes bytes
| InFunctionCallOutput bytes json
| InCustomToolCallOutput bytes json
| InReasoning "json list" "bytes option"
| InWebSearchCall bytes "bytes option" "web_search_action option"

record web_search_filters =
  wf_allowed_domains :: "bytes list option"
  wf_excluded_domains :: "bytes list option"

record web_search_tool =
  wt_external_web_access :: bool
  wt_indexed_web_access :: "bool option"
  wt_filters :: "web_search_filters option"
  wt_user_location :: "json option"
  wt_search_context_size :: "bytes option"
  wt_search_content_types :: "bytes list option"

record function_tool =
  ft_name :: bytes
  ft_description :: "bytes option"
  ft_parameters :: "json option"

datatype response_tool = WebSearch web_search_tool | ClientFunction function_tool

datatype tool_choice = ChoiceString bytes | ChoiceSpecific bytes bytes

datatype text_format = PlainText | JsonObject | JsonSchema json

datatype response_input = InputString bytes | InputItems "response_input_item list"

record responses_request =
  rr_model :: bytes
  rr_input :: response_input
  rr_instructions :: "bytes option"
  rr_stream :: "bool option"
  rr_max_output_tokens :: "u32 option"
  rr_tools :: "response_tool list option"
  rr_tool_choice :: "tool_choice option"
  rr_text :: "text_format option option"
  rr_store :: "bool option"
  rr_previous_response_id :: "bytes option"
  rr_reasoning :: "json option"
  rr_include :: "bytes list option"
  rr_parallel_tool_calls :: "bool option"

section \<open>Chat messages\<close>

record chat_message =
  cm_role :: bytes
  cm_content :: bytes
  cm_tool_calls :: "chat_tool_call list"
  cm_tool_call_id :: "bytes option"

datatype request_error = BadRequest bytes | PayloadTooLarge bytes

definition INTERNAL_SEARCH_TOOL_NAME :: bytes where
  "INTERNAL_SEARCH_TOOL_NAME = str_bytes ''siderostat_web_search''"

definition plain_message :: "bytes \<Rightarrow> bytes \<Rightarrow> chat_message" where
  "plain_message role content = \<lparr>cm_role = role, cm_content = content, cm_tool_calls = [], cm_tool_call_id = None\<rparr>"

definition call_message :: "bytes \<Rightarrow> bytes \<Rightarrow> bytes \<Rightarrow> chat_message" where
  "call_message name arguments call_id =
     \<lparr>cm_role = str_bytes ''assistant'', cm_content = [],
      cm_tool_calls = [\<lparr>tc_id = call_id, tc_name = name, tc_arguments = arguments\<rparr>], cm_tool_call_id = None\<rparr>"

definition tool_message :: "bytes \<Rightarrow> bytes \<Rightarrow> chat_message" where
  "tool_message call_id content =
     \<lparr>cm_role = str_bytes ''tool'', cm_content = content, cm_tool_calls = [], cm_tool_call_id = Some call_id\<rparr>"

definition push_line :: "bytes \<Rightarrow> bytes \<Rightarrow> bytes" where
  "push_line text t = (if text = [] then t else text @ [10] @ t)"

fun message_text_from :: "bytes \<Rightarrow> content_item list \<Rightarrow> request_error + bytes" where
  "message_text_from text [] = Inr text"
| "message_text_from text (InputText t # ps) = message_text_from (push_line text t) ps"
| "message_text_from text (OutputText t # ps) = message_text_from (push_line text t) ps"
| "message_text_from text (_ # ps) = Inl (BadRequest (str_bytes ''image/audio input is unsupported in this bridge''))"

definition message_text :: "content_item list \<Rightarrow> request_error + bytes" where
  "message_text content = message_text_from [] content"

text \<open>\<open>Value::get\<close>, \<open>as_str\<close> and \<open>as_array\<close>.\<close>

fun json_field :: "string \<Rightarrow> json \<Rightarrow> json option" where
  "json_field k (JObj kvs) = map_of kvs k"
| "json_field k _ = None"

fun as_str :: "json \<Rightarrow> bytes option" where
  "as_str (JStr s) = Some s"
| "as_str _ = None"

fun as_array :: "json \<Rightarrow> json list option" where
  "as_array (JArr vs) = Some vs"
| "as_array _ = None"

definition field_str :: "string \<Rightarrow> json \<Rightarrow> bytes option" where
  "field_str k v = Option.bind (json_field k v) as_str"

definition output_line :: "bytes \<Rightarrow> json \<Rightarrow> bytes" where
  "output_line text item = (case field_str ''text'' item of Some t \<Rightarrow> push_line text t | None \<Rightarrow> text)"

fun output_to_text :: "(json \<Rightarrow> bytes) \<Rightarrow> json \<Rightarrow> bytes" where
  "output_to_text print (JStr s) = s"
| "output_to_text print (JArr items) = foldl output_line [] items"
| "output_to_text print v = print v"

fun history_messages :: "(json \<Rightarrow> bytes) \<Rightarrow> bytes list \<Rightarrow> response_input_item list \<Rightarrow> request_error + chat_message list" where
  "history_messages print issued [] = Inr []"
| "history_messages print issued (InMessage role content # items) =
     (case message_text content of
        Inl e \<Rightarrow> Inl e
      | Inr t \<Rightarrow> map_sum id ((#) (plain_message role t)) (history_messages print issued items))"
| "history_messages print issued (InFunctionCall name arguments call_id # items) =
     map_sum id ((#) (call_message name arguments call_id)) (history_messages print (issued @ [call_id]) items)"
| "history_messages print issued (InCustomToolCall name inp call_id # items) =
     map_sum id ((#) (call_message name inp call_id)) (history_messages print (issued @ [call_id]) items)"
| "history_messages print issued (InFunctionCallOutput call_id output # items) =
     (if call_id \<in> set issued
      then map_sum id ((#) (tool_message call_id (output_to_text print output))) (history_messages print issued items)
      else Inl (BadRequest (str_bytes ''unknown function call_id '' @ [39] @ call_id @ [39]
             @ str_bytes '': no matching function_call in history'')))"
| "history_messages print issued (InCustomToolCallOutput call_id output # items) =
     (if call_id \<in> set issued
      then map_sum id ((#) (tool_message call_id (output_to_text print output))) (history_messages print issued items)
      else Inl (BadRequest (str_bytes ''unknown custom tool call_id '' @ [39] @ call_id @ [39]
             @ str_bytes '': no matching call in history'')))"
| "history_messages print issued (InReasoning summary encrypted # items) =
     (if encrypted \<noteq> None
      then Inl (BadRequest (str_bytes ''encrypted reasoning is unsupported (not in the tracked wire profile)''))
      else history_messages print issued items)"
| "history_messages print issued (InWebSearchCall i status action # items) =
     (case action of
        Some (ActionSearch q qs) \<Rightarrow>
          map_sum id ((#) (plain_message (str_bytes ''assistant'') (str_bytes ''[web search performed]'')))
            (history_messages print issued items)
      | _ \<Rightarrow> Inl (BadRequest (str_bytes ''web_search open_page/find_in_page is unsupported in this bridge'')))"

definition history_to_chat_messages :: "(json \<Rightarrow> bytes) \<Rightarrow> response_input_item list \<Rightarrow> request_error + chat_message list" where
  "history_to_chat_messages print items = history_messages print [] items"

fun check_tool_name_conflict :: "response_tool list \<Rightarrow> request_error option" where
  "check_tool_name_conflict [] = None"
| "check_tool_name_conflict (ClientFunction f # ts) =
     (if ft_name f = INTERNAL_SEARCH_TOOL_NAME
      then Some (BadRequest (str_bytes ''tool name '' @ [39] @ INTERNAL_SEARCH_TOOL_NAME @ [39]
             @ str_bytes '' is reserved for the internal web search tool; user tools must not collide with it''))
      else check_tool_name_conflict ts)"
| "check_tool_name_conflict (WebSearch w # ts) = check_tool_name_conflict ts"

section \<open>Validation\<close>

record validated_search =
  vs_live :: bool
  vs_required :: bool
  vs_query_max_chars :: nat

record validated_request =
  vr_model :: bytes
  vr_messages :: "chat_message list"
  vr_stream :: bool
  vr_max_output_tokens :: "u32 option"
  vr_parallel_tool_calls :: "bool option"
  vr_search :: "validated_search option"

definition MAX_BODY_BYTES :: nat where
  "MAX_BODY_BYTES = 2 * 1024 * 1024"

definition MAX_INPUT_BYTES :: nat where
  "MAX_INPUT_BYTES = 1024 * 1024"

definition check_input_size :: "bytes \<Rightarrow> request_error option" where
  "check_input_size inp =
     (if MAX_INPUT_BYTES < length inp
      then Some (PayloadTooLarge (str_bytes (''input exceeds the '' @ show_nat MAX_INPUT_BYTES @ ''-byte limit''))) else None)"

definition search_required :: "tool_choice option \<Rightarrow> bool" where
  "search_required choice =
     (case choice of
        Some (ChoiceString s) \<Rightarrow> s = str_bytes ''required''
      | Some (ChoiceSpecific kind name) \<Rightarrow> kind = str_bytes ''web_search''
      | None \<Rightarrow> False)"

definition search_forbidden :: "tool_choice option \<Rightarrow> bool" where
  "search_forbidden choice = (case choice of Some (ChoiceString s) \<Rightarrow> s = str_bytes ''none'' | _ \<Rightarrow> False)"

definition has_domains :: "bytes list option \<Rightarrow> bool" where
  "has_domains ds = is_some_and (\<lambda>xs. xs \<noteq> []) ds"

definition validate_web_search :: "web_search_tool \<Rightarrow> request_error + bool" where
  "validate_web_search w =
     (if wt_indexed_web_access w = Some True
      then Inl (BadRequest (str_bytes ''web_search indexed access is unsupported in this bridge''))
      else if is_some_and (\<lambda>f. has_domains (wf_allowed_domains f) \<or> has_domains (wf_excluded_domains f)) (wt_filters w)
      then Inl (BadRequest (str_bytes ''web_search filters are unsupported in this bridge''))
      else if wt_user_location w \<noteq> None
      then Inl (BadRequest (str_bytes ''web_search user_location is unsupported in this bridge''))
      else if is_some_and (list_ex (\<lambda>t. t = str_bytes ''image'')) (wt_search_content_types w)
      then Inl (BadRequest (str_bytes ''web_search image search is unsupported in this bridge''))
      else Inr (wt_external_web_access w \<and> wt_indexed_web_access w \<noteq> Some True))"

fun scan_tools :: "bool \<Rightarrow> bool \<Rightarrow> response_tool list \<Rightarrow> request_error + bool \<times> bool" where
  "scan_tools has live [] = Inr (has, live)"
| "scan_tools has live (WebSearch w # ts) =
     (case validate_web_search w of Inl e \<Rightarrow> Inl e | Inr l \<Rightarrow> scan_tools True (l \<or> live) ts)"
| "scan_tools has live (ClientFunction f # ts) = scan_tools has live ts"

definition select_search :: "tool_choice option \<Rightarrow> bool \<Rightarrow> bool \<Rightarrow> request_error + validated_search option" where
  "select_search choice has live =
     (let required = search_required choice in
      if search_forbidden choice then Inr None
      else if required \<and> has \<and> \<not> live
      then Inl (BadRequest (str_bytes (''required web search is unsupported without a live web_search tool ''
             @ ''(cached-only search is not executed by this bridge)'')))
      else if live then Inr (Some \<lparr>vs_live = True, vs_required = required, vs_query_max_chars = 1024\<rparr>)
      else Inr None)"

definition to_chat_messages :: "(json \<Rightarrow> bytes) \<Rightarrow> responses_request \<Rightarrow> request_error + chat_message list" where
  "to_chat_messages print r =
     (let system = (case rr_instructions r of
          Some t \<Rightarrow> if blank_utf8 (map unat t) then [] else [plain_message (str_bytes ''system'') t]
        | None \<Rightarrow> []) in
      case rr_input r of
        InputString t \<Rightarrow>
          (case check_input_size t of Some e \<Rightarrow> Inl e | None \<Rightarrow> Inr (system @ [plain_message (str_bytes ''user'') t]))
      | InputItems items \<Rightarrow> map_sum id ((@) system) (history_to_chat_messages print items))"

definition unsupported :: "responses_request \<Rightarrow> request_error option" where
  "unsupported r =
     (if rr_store r = Some True then Some (BadRequest (str_bytes ''store=true is unsupported (stateless bridge)''))
      else if rr_previous_response_id r \<noteq> None
      then Some (BadRequest (str_bytes ''previous_response_id is unsupported (stateless bridge)''))
      else if rr_reasoning r \<noteq> None then Some (BadRequest (str_bytes ''reasoning is unsupported in this bridge''))
      else if is_some_and (\<lambda>i. i \<noteq> []) (rr_include r)
      then Some (BadRequest (str_bytes ''include is unsupported in this bridge''))
      else if \<exists>f \<in> set_option (rr_text r). f \<noteq> None \<and> f \<noteq> Some PlainText
      then Some (BadRequest (str_bytes ''text format other than plain text is unsupported in this bridge''))
      else check_tool_name_conflict (case rr_tools r of Some ts \<Rightarrow> ts | None \<Rightarrow> []))"

definition validate :: "(json \<Rightarrow> bytes) \<Rightarrow> responses_request \<Rightarrow> request_error + validated_request" where
  "validate print r =
     (case unsupported r of
        Some e \<Rightarrow> Inl e
      | None \<Rightarrow>
          case scan_tools False False (case rr_tools r of Some ts \<Rightarrow> ts | None \<Rightarrow> []) of
            Inl e \<Rightarrow> Inl e
          | Inr (has, live) \<Rightarrow>
              case select_search (rr_tool_choice r) has live of
                Inl e \<Rightarrow> Inl e
              | Inr search \<Rightarrow>
                  map_sum id (\<lambda>messages.
                    \<lparr>vr_model = rr_model r, vr_messages = messages, vr_stream = (rr_stream r = Some True),
                     vr_max_output_tokens = rr_max_output_tokens r, vr_parallel_tool_calls = rr_parallel_tool_calls r,
                     vr_search = search\<rparr>) (to_chat_messages print r))"

section \<open>The history is kept\<close>

text \<open>The identifiers a part of the history has issued, the one an item answers to, and whether an
  item is supported at all.\<close>

fun issues :: "response_input_item \<Rightarrow> bytes list" where
  "issues (InFunctionCall name arguments call_id) = [call_id]"
| "issues (InCustomToolCall name inp call_id) = [call_id]"
| "issues _ = []"

fun answers :: "response_input_item \<Rightarrow> bytes option" where
  "answers (InFunctionCallOutput call_id output) = Some call_id"
| "answers (InCustomToolCallOutput call_id output) = Some call_id"
| "answers _ = None"

fun textual :: "content_item \<Rightarrow> bool" where
  "textual (InputText t) = True"
| "textual (OutputText t) = True"
| "textual _ = False"

fun supported :: "response_input_item \<Rightarrow> bool" where
  "supported (InMessage role content) = list_all textual content"
| "supported (InReasoning summary encrypted) = (encrypted = None)"
| "supported (InWebSearchCall i status action) = (\<exists>q qs. action = Some (ActionSearch q qs))"
| "supported _ = True"

fun content_line :: "bytes \<Rightarrow> content_item \<Rightarrow> bytes" where
  "content_line text (InputText t) = push_line text t"
| "content_line text (OutputText t) = push_line text t"
| "content_line text _ = text"

fun item_messages :: "(json \<Rightarrow> bytes) \<Rightarrow> response_input_item \<Rightarrow> chat_message list" where
  "item_messages print (InMessage role content) = [plain_message role (foldl content_line [] content)]"
| "item_messages print (InFunctionCall name arguments call_id) = [call_message name arguments call_id]"
| "item_messages print (InCustomToolCall name inp call_id) = [call_message name inp call_id]"
| "item_messages print (InFunctionCallOutput call_id output) = [tool_message call_id (output_to_text print output)]"
| "item_messages print (InCustomToolCallOutput call_id output) = [tool_message call_id (output_to_text print output)]"
| "item_messages print (InReasoning summary encrypted) = []"
| "item_messages print (InWebSearchCall i status action) =
     [plain_message (str_bytes ''assistant'') (str_bytes ''[web search performed]'')]"

definition answered_before :: "bytes set \<Rightarrow> response_input_item list \<Rightarrow> bool" where
  "answered_before known items \<longleftrightarrow>
     (\<forall>k < length items. \<forall>c. answers (items ! k) = Some c \<longrightarrow> c \<in> known \<union> set (concat (map issues (take k items))))"

lemma message_text_exact:
  "message_text_from acc content = Inr t \<longleftrightarrow> list_all textual content \<and> t = foldl content_line acc content"
  by (induction acc content rule: message_text_from.induct) auto

lemma answered_before_Nil [simp]: "answered_before known []"
  by (simp add: answered_before_def)

lemma answered_before_Cons:
  "answered_before known (x # xs) \<longleftrightarrow>
     (\<forall>c. answers x = Some c \<longrightarrow> c \<in> known) \<and> answered_before (known \<union> set (issues x)) xs"
  by (auto simp: answered_before_def All_less_Suc2)

lemma map_sum_Inr [simp]: "map_sum id f s = Inr y \<longleftrightarrow> (\<exists>x. s = Inr x \<and> y = f x)"
  by (cases s) auto

lemma history_exact:
  "history_messages print issued items = Inr ms \<longleftrightarrow>
     list_all supported items \<and> answered_before (set issued) items \<and> ms = concat (map (item_messages print) items)"
proof (induction items arbitrary: issued ms)
  case Nil
  show ?case by auto
next
  case (Cons x xs)
  note facts = answered_before_Cons Cons.IH
  show ?case
  proof (cases x)
    case (InReasoning a b)
    then show ?thesis by (simp add: facts)
  next
    case (InFunctionCall a b c)
    then show ?thesis by (simp add: facts)
  next
    case (InCustomToolCall a b c)
    then show ?thesis by (simp add: facts)
  next
    case (InFunctionCallOutput a b)
    then show ?thesis by (simp add: facts)
  next
    case (InCustomToolCallOutput a b)
    then show ?thesis by (simp add: facts)
  next
    case (InMessage role content)
    have m: "message_text content = Inr t \<longleftrightarrow> list_all textual content \<and> t = foldl content_line [] content" for t
      by (simp add: message_text_def message_text_exact)
    show ?thesis
    proof (cases "message_text content")
      case (Inl e)
      with m have "\<not> list_all textual content" by force
      with Inl InMessage show ?thesis by simp
    next
      case (Inr t)
      with m [of t] have "list_all textual content" "t = foldl content_line [] content" by simp_all
      with Inr InMessage show ?thesis by (simp add: facts)
    qed
  next
    case (InWebSearchCall i status action)
    then show ?thesis by (simp add: facts split: option.split web_search_action.split)
  qed
qed

section \<open>What a validated request is\<close>

text \<open>In a conversation every result of a tool answers a call that stands before it.\<close>

definition calls_matched :: "chat_message list \<Rightarrow> bool" where
  "calls_matched ms \<longleftrightarrow>
     (\<forall>k < length ms. \<forall>c. cm_tool_call_id (ms ! k) = Some c \<longrightarrow>
        c \<in> set (map tc_id (concat (map cm_tool_calls (take k ms)))))"

definition matched_after :: "bytes set \<Rightarrow> chat_message list \<Rightarrow> bool" where
  "matched_after known ms \<longleftrightarrow>
     (\<forall>k < length ms. \<forall>c. cm_tool_call_id (ms ! k) = Some c \<longrightarrow>
        c \<in> known \<union> set (map tc_id (concat (map cm_tool_calls (take k ms)))))"

lemma calls_matched_after: "calls_matched ms = matched_after {} ms"
  by (simp add: calls_matched_def matched_after_def)

lemma matched_after_Nil [simp]: "matched_after known []"
  by (simp add: matched_after_def)

lemma matched_after_Cons [simp]:
  "matched_after known (m # ms) \<longleftrightarrow>
     (\<forall>c. cm_tool_call_id m = Some c \<longrightarrow> c \<in> known) \<and> matched_after (known \<union> set (map tc_id (cm_tool_calls m))) ms"
  unfolding matched_after_def by (simp add: All_less_Suc2 Un_assoc image_Un)

lemma history_matched:
  "answered_before known items \<Longrightarrow> matched_after known (concat (map (item_messages print) items))"
proof (induction items arbitrary: known)
  case (Cons x xs)
  then show ?case
    by (cases x) (simp_all add: answered_before_Cons plain_message_def call_message_def tool_message_def)
qed simp

definition request_tools :: "responses_request \<Rightarrow> response_tool list" where
  "request_tools r = (case rr_tools r of Some ts \<Rightarrow> ts | None \<Rightarrow> [])"

fun live_tool :: "response_tool \<Rightarrow> bool" where
  "live_tool (WebSearch w) = (wt_external_web_access w \<and> wt_indexed_web_access w \<noteq> Some True)"
| "live_tool (ClientFunction f) = False"

lemma scan_tools_live: "scan_tools has live ts = Inr (h, l) \<Longrightarrow> l \<longleftrightarrow> live \<or> list_ex live_tool ts"
  by (induction has live ts rule: scan_tools.induct)
    (auto simp: validate_web_search_def split: sum.splits if_splits)

lemma conflict_free: "check_tool_name_conflict ts = None \<longleftrightarrow>
    list_all (\<lambda>t. \<forall>f. t = ClientFunction f \<longrightarrow> ft_name f \<noteq> INTERNAL_SEARCH_TOOL_NAME) ts"
  by (induction ts rule: check_tool_name_conflict.induct) auto

definition system_messages :: "responses_request \<Rightarrow> chat_message list" where
  "system_messages r = (case rr_instructions r of
     Some t \<Rightarrow> if blank_utf8 (map unat t) then [] else [plain_message (str_bytes ''system'') t] | None \<Rightarrow> [])"

lemma to_chat_messages_exact:
  "to_chat_messages print r = Inr ms \<longleftrightarrow>
     (case rr_input r of
        InputString t \<Rightarrow> length t \<le> MAX_INPUT_BYTES \<and> ms = system_messages r @ [plain_message (str_bytes ''user'') t]
      | InputItems items \<Rightarrow> list_all supported items \<and> answered_before {} items
          \<and> ms = system_messages r @ concat (map (item_messages print) items))"
  unfolding to_chat_messages_def system_messages_def [symmetric] Let_def
  by (cases "rr_input r")
    (auto simp: check_input_size_def history_to_chat_messages_def history_exact split: if_splits)

lemma system_unmatched [simp]: "matched_after known (system_messages r @ ms) = matched_after known ms"
  by (simp add: system_messages_def plain_message_def split: option.split)

lemma select_search_exact:
  assumes "select_search choice has live = Inr s"
  shows "s \<noteq> None \<longleftrightarrow> \<not> search_forbidden choice \<and> live"
    "s = Some x \<Longrightarrow> vs_required x = search_required choice"
  using assms unfolding select_search_def Let_def by (auto split: if_splits)

text \<open>C31. What a validated request is. The conversation that goes to the model begins with the
  instructions, unless they are blank, and continues with the messages of the input in their order; every
  result of a tool answers a call before it. A search is granted exactly when the choice of tools is not
  none and some search tool asks for live access, and it is a required one exactly when the choice says
  so. No client tool has the name of the internal search.\<close>

theorem validated_request_exact:
  assumes "validate print r = Inr v"
  shows "calls_matched (vr_messages v)
    \<and> (case rr_input r of
        InputString t \<Rightarrow> length t \<le> MAX_INPUT_BYTES
          \<and> vr_messages v = system_messages r @ [plain_message (str_bytes ''user'') t]
      | InputItems items \<Rightarrow> list_all supported items
          \<and> vr_messages v = system_messages r @ concat (map (item_messages print) items))
    \<and> (vr_search v \<noteq> None \<longleftrightarrow> \<not> search_forbidden (rr_tool_choice r) \<and> list_ex live_tool (request_tools r))
    \<and> (\<forall>s. vr_search v = Some s \<longrightarrow> vs_required s = search_required (rr_tool_choice r))
    \<and> list_all (\<lambda>t. \<forall>f. t = ClientFunction f \<longrightarrow> ft_name f \<noteq> INTERNAL_SEARCH_TOOL_NAME) (request_tools r)"
proof -
  from assms obtain h l where u: "unsupported r = None" and s: "scan_tools False False (request_tools r) = Inr (h, l)"
    and g: "select_search (rr_tool_choice r) h l = Inr (vr_search v)"
    and m: "to_chat_messages print r = Inr (vr_messages v)"
    unfolding validate_def request_tools_def [symmetric] by (auto split: option.splits sum.splits prod.splits)
  have "list_all (\<lambda>t. \<forall>f. t = ClientFunction f \<longrightarrow> ft_name f \<noteq> INTERNAL_SEARCH_TOOL_NAME) (request_tools r)"
    using u unfolding unsupported_def request_tools_def [symmetric] conflict_free [symmetric] by (auto split: if_splits)
  moreover have "l = list_ex live_tool (request_tools r)" using scan_tools_live [OF s] by simp
  moreover have "calls_matched (vr_messages v)"
    using m history_matched by (cases "rr_input r") (auto simp: calls_matched_after to_chat_messages_exact plain_message_def)
  moreover have "vr_search v \<noteq> None \<longleftrightarrow> \<not> search_forbidden (rr_tool_choice r) \<and> l"
    "\<forall>s. vr_search v = Some s \<longrightarrow> vs_required s = search_required (rr_tool_choice r)"
    using select_search_exact [OF g] by blast+
  ultimately show ?thesis using m by (auto simp: to_chat_messages_exact split: response_input.splits)
qed

definition example_request :: responses_request where
  "example_request =
     \<lparr>rr_model = [109],
      rr_input = InputItems [InMessage [117] [InputText [104], InputText [105]], InFunctionCall [102] [] [49],
        InFunctionCallOutput [49] (JStr [111])],
      rr_instructions = Some [32, 98], rr_stream = Some True, rr_max_output_tokens = None,
      rr_tools = Some [WebSearch \<lparr>wt_external_web_access = True, wt_indexed_web_access = None, wt_filters = None,
        wt_user_location = None, wt_search_context_size = None, wt_search_content_types = None\<rparr>],
      rr_tool_choice = None, rr_text = None, rr_store = None, rr_previous_response_id = None, rr_reasoning = None,
      rr_include = None, rr_parallel_tool_calls = None\<rparr>"

definition example_messages :: "chat_message list" where
  "example_messages =
     [plain_message (str_bytes ''system'') [32, 98], plain_message [117] [104, 10, 105],
      call_message [102] [] [49], tool_message [49] [111]]"

definition example_valid :: validated_request where
  "example_valid = \<lparr>vr_model = [109], vr_messages = example_messages, vr_stream = True, vr_max_output_tokens = None,
     vr_parallel_tool_calls = None,
     vr_search = Some \<lparr>vs_live = True, vs_required = False, vs_query_max_chars = 1024\<rparr>\<rparr>"

lemma example_validated: "validate print example_request = Inr example_valid"
  by (simp add: validate_def unsupported_def example_request_def example_valid_def validate_web_search_def has_domains_def
      select_search_def search_required_def search_forbidden_def to_chat_messages_def history_to_chat_messages_def
      message_text_def push_line_def example_messages_def white_space_2_def)

lemma validated_request_exact_witness:
  "validate (\<lambda>_. []) example_request = Inr example_valid \<and> calls_matched example_messages
    \<and> list_ex live_tool (request_tools example_request)"
  using example_validated [of "\<lambda>_. []"] validated_request_exact [OF example_validated [of "\<lambda>_. []"]]
  by (simp add: example_valid_def)

end
