(* ===== verification/Web_Search.thy ===== *)
theory Web_Search
  imports Web_Request
begin

text \<open>
  The search side of the web-search bridge (\<open>src/websearch/backend.rs\<close> and \<open>searxng.rs\<close>): the
  classification of an answer of SearXNG and the normalisation of its results. The URL library and
  the JSON parser are parameters. The property says what a caller can rely on: few results, all
  of them web pages, no URL twice, bounded snippets.
\<close>

section \<open>Results\<close>

datatype search_error =
  Forbidden | RateLimited | Captcha | SearchTimeout | InvalidJson | NoResults | ResponseTooLarge | SearchUnavailable

text \<open>What the bridge uses of the \<open>url\<close> crate: parsing to the normal text of a URL, and the scheme.\<close>

record url_lib =
  ul_parse :: "bytes \<Rightarrow> bytes option"
  ul_scheme :: "bytes \<Rightarrow> bytes"

definition MAX_RESULTS_LIMIT :: nat where
  "MAX_RESULTS_LIMIT = 10"

definition MAX_SNIPPET_CHARS :: nat where
  "MAX_SNIPPET_CHARS = 4096"

definition excluded_scheme :: "url_lib \<Rightarrow> bytes \<Rightarrow> bool" where
  "excluded_scheme ul url \<longleftrightarrow> ul_scheme ul url \<noteq> str_bytes ''http'' \<and> ul_scheme ul url \<noteq> str_bytes ''https''"

text \<open>\<open>chars().take(n).collect()\<close>.\<close>

fun take_chars :: "nat \<Rightarrow> bytes \<Rightarrow> bytes" where
  "take_chars 0 bs = []"
| "take_chars (Suc n) [] = []"
| "take_chars (Suc n) (b # bs) = take (char_len b) (b # bs) @ take_chars n (drop (char_len b) (b # bs))"

fun normalize_from :: "url_lib \<Rightarrow> nat \<Rightarrow> bytes list \<Rightarrow> search_result list \<Rightarrow> search_result list \<Rightarrow> search_result list" where
  "normalize_from ul limit seen out [] = out"
| "normalize_from ul limit seen out (r # rs) =
     (if limit \<le> length out then out
      else if excluded_scheme ul (sr_url r) then normalize_from ul limit seen out rs
      else if sr_url r \<in> set seen then normalize_from ul limit seen out rs
      else normalize_from ul limit (sr_url r # seen)
             (out @ [\<lparr>sr_title = sr_title r, sr_url = sr_url r, sr_snippet = take_chars MAX_SNIPPET_CHARS (sr_snippet r)\<rparr>]) rs)"

definition clamp_results :: "nat \<Rightarrow> nat" where
  "clamp_results n = max 1 (min n MAX_RESULTS_LIMIT)"

definition normalize_results :: "url_lib \<Rightarrow> search_result list \<Rightarrow> nat \<Rightarrow> search_result list" where
  "normalize_results ul results max_results = normalize_from ul (clamp_results max_results) [] [] results"

section \<open>SearXNG\<close>

record searxng_http_response =
  sx_status :: u16
  sx_body :: bytes
  sx_content_type :: "bytes option"

definition MAX_PROVIDER_BODY_BYTES :: nat where
  "MAX_PROVIDER_BODY_BYTES = 1024 * 1024"

fun contains_text :: "bytes \<Rightarrow> bytes \<Rightarrow> bool" where
  "contains_text p [] \<longleftrightarrow> p = []"
| "contains_text p (b # bs) \<longleftrightarrow> take (length p) (b # bs) = p \<or> contains_text p bs"

definition str_or_empty :: "string \<Rightarrow> json \<Rightarrow> bytes" where
  "str_or_empty k v = (case field_str k v of Some s \<Rightarrow> s | None \<Rightarrow> [])"

fun parse_results :: "url_lib \<Rightarrow> json list \<Rightarrow> search_result list" where
  "parse_results ul [] = []"
| "parse_results ul (item # items) =
     (case ul_parse ul (str_or_empty ''url'' item) of
        None \<Rightarrow> parse_results ul items
      | Some url \<Rightarrow>
          \<lparr>sr_title = str_or_empty ''title'' item, sr_url = url, sr_snippet = str_or_empty ''content'' item\<rparr>
          # parse_results ul items)"

definition classify_response ::
  "url_lib \<Rightarrow> (bytes \<Rightarrow> json option) \<Rightarrow> searxng_http_response \<Rightarrow> nat \<Rightarrow> search_error + search_result list" where
  "classify_response ul from_slice resp max_results =
     (if sx_status resp = 403 then Inl Forbidden
      else if sx_status resp = 429 then Inl RateLimited
      else if sx_status resp \<noteq> 200 then Inl SearchUnavailable
      else if MAX_PROVIDER_BODY_BYTES < length (sx_body resp) then Inl ResponseTooLarge
      else if is_some_and (contains_text (str_bytes ''text/html'')) (sx_content_type resp) then Inl Captcha
      else case from_slice (sx_body resp) of
        None \<Rightarrow> Inl InvalidJson
      | Some v \<Rightarrow>
          case Option.bind (json_field ''results'' v) as_array of
            None \<Rightarrow> Inl NoResults
          | Some items \<Rightarrow>
              let normalized = normalize_results ul (parse_results ul items) max_results in
              if normalized = [] then Inl NoResults else Inr normalized)"

text \<open>The adapter, with what the transport answers to the query as an input.\<close>

record searxng_backend =
  sb_url_lib :: url_lib
  sb_from_slice :: "bytes \<Rightarrow> json option"
  sb_max_results :: nat

definition with_max_results :: "nat \<Rightarrow> searxng_backend \<Rightarrow> searxng_backend" where
  "with_max_results n b = b\<lparr>sb_max_results := clamp_results n\<rparr>"

definition search_blocking ::
  "searxng_backend \<Rightarrow> (bytes \<Rightarrow> search_error + searxng_http_response) \<Rightarrow> bytes \<Rightarrow> search_error + search_result list" where
  "search_blocking b post_search query =
     (if blank_utf8 (map unat query) then Inl NoResults
      else case post_search query of
        Inl e \<Rightarrow> Inl e
      | Inr resp \<Rightarrow> classify_response (sb_url_lib b) (sb_from_slice b) resp (sb_max_results b))"

section \<open>What a search gives\<close>

lemma take_chars_chars:
  assumes "list_all utf8_char cs"
  shows "take_chars n (concat cs) = concat (take n cs)"
  using assms
proof (induction n arbitrary: cs)
  case (Suc n)
  show ?case
  proof (cases cs)
    case (Cons c ds)
    with Suc.prems obtain b rest where c: "c = b # rest" "char_len b = length c" by (auto elim: utf8_charE)
    then have "take_chars (Suc n) (concat cs) = c @ take_chars n (concat ds)" using Cons by simp
    with Suc Cons show ?thesis by simp
  qed simp
qed simp

lemma take_chars_valid:
  assumes "utf8_valid bs"
  shows "\<exists>cs. take_chars n bs = concat cs \<and> list_all utf8_char cs \<and> length cs \<le> n"
proof -
  obtain cs where cs: "bs = concat cs" "list_all utf8_char cs" using assms utf8_valid_chars by blast
  then have "list_all utf8_char (take n cs)" by (metis append_take_drop_id list_all_append)
  with cs show ?thesis by (intro exI [of _ "take n cs"]) (simp add: take_chars_chars)
qed

lemma take_chars_short: "length bs \<le> n \<Longrightarrow> take_chars n bs = bs"
proof (induction n bs rule: take_chars.induct)
  case (3 n b bs)
  moreover have "length (drop (char_len b) (b # bs)) \<le> n" 
  proof -
    have "length (b # bs) - char_len b \<le> n" using 3(2) char_len_pos [of b] by (simp del: char_len_pos)
    then show ?thesis by simp
  qed
  ultimately show ?case using append_take_drop_id [of "char_len b" "b # bs"] by simp
qed simp_all

definition snippet_ok :: "bytes \<Rightarrow> bool" where
  "snippet_ok s \<longleftrightarrow> (\<exists>cs. s = concat cs \<and> list_all utf8_char cs \<and> length cs \<le> MAX_SNIPPET_CHARS)"

definition results_clean :: "url_lib \<Rightarrow> nat \<Rightarrow> search_result list \<Rightarrow> bool" where
  "results_clean ul limit rs \<longleftrightarrow> length rs \<le> limit \<and> distinct (map sr_url rs)
     \<and> list_all (\<lambda>r. \<not> excluded_scheme ul (sr_url r) \<and> snippet_ok (sr_snippet r)) rs"

lemma normalize_clean:
  assumes "results_clean ul limit out" "set seen = sr_url ` set out" "list_all (\<lambda>r. utf8_valid (sr_snippet r)) rs"
  shows "results_clean ul limit (normalize_from ul limit seen out rs)"
  using assms
  by (induction ul limit seen out rs rule: normalize_from.induct)
    (auto simp: results_clean_def snippet_ok_def take_chars_valid)

text \<open>Nothing that qualifies is lost: the URLs are the first ones, without repetitions.\<close>

lemma normalize_urls:
  assumes "length out \<le> limit" "set seen = sr_url ` set out"
  shows "map sr_url (normalize_from ul limit seen out rs) =
    map sr_url out @ take (limit - length out)
      (rev (remdups (rev (filter (\<lambda>u. \<not> excluded_scheme ul u \<and> u \<notin> set seen) (map sr_url rs)))))"
  using assms
proof (induction rs arbitrary: seen out)
  case (Cons r rs)
  let ?f = "\<lambda>s. filter (\<lambda>u. \<not> excluded_scheme ul u \<and> u \<notin> set s) (map sr_url rs)"
  have rd: "rev (remdups (rev (x # xs))) = x # rev (remdups (rev (filter (\<lambda>y. y \<noteq> x) xs)))" for x :: bytes and xs
    by (induction xs rule: rev_induct) (auto simp: remdups_filter rev_filter filter_empty_conv)
  show ?case
  proof (cases "limit \<le> length out \<or> excluded_scheme ul (sr_url r) \<or> sr_url r \<in> set seen")
    case True
    with Cons show ?thesis by auto
  next
    case False
    moreover have "filter (\<lambda>y. y \<noteq> sr_url r) (?f seen) = ?f (sr_url r # seen)" by (auto intro: filter_cong)
    moreover have "limit - length out = Suc (limit - Suc (length out))" using False by auto
    ultimately show ?thesis
      using Cons.prems Cons.IH [of "out @ [\<lparr>sr_title = sr_title r, sr_url = sr_url r,
        sr_snippet = take_chars MAX_SNIPPET_CHARS (sr_snippet r)\<rparr>]" "sr_url r # seen"] rd [of "sr_url r" "?f seen"]
      by simp
  qed
qed simp

text \<open>The parser of JSON gives strings of valid UTF-8 only.\<close>

fun json_valid :: "json \<Rightarrow> bool" where
  "json_valid (JStr s) = utf8_valid s"
| "json_valid (JArr vs) = list_all json_valid vs"
| "json_valid (JObj kvs) = list_all (\<lambda>kv. json_valid (snd kv)) kvs"
| "json_valid _ = True"

lemma json_valid_field: "json_valid v \<Longrightarrow> json_field k v = Some w \<Longrightarrow> json_valid w"
  by (cases v) (auto simp: list_all_iff dest!: map_of_SomeD)

lemma json_valid_str: "json_valid v \<Longrightarrow> utf8_valid (str_or_empty k v)"
proof -
  assume "json_valid v"
  moreover have "utf8_valid s" if "json_valid w" "as_str w = Some s" for w s using that by (cases w) auto
  ultimately show ?thesis
    by (auto simp: str_or_empty_def field_str_def bind_eq_Some_conv dest: json_valid_field split: option.split)
qed

lemma parse_results_valid:
  "list_all json_valid items \<Longrightarrow> list_all (\<lambda>r. utf8_valid (sr_snippet r)) (parse_results ul items)"
  by (induction items) (auto simp: json_valid_str split: option.split)

lemma clamp_bounds: "1 \<le> clamp_results n" "clamp_results n \<le> 10"
  by (simp_all add: clamp_results_def MAX_RESULTS_LIMIT_def)

lemma normalize_results_clean:
  assumes "list_all (\<lambda>r. utf8_valid (sr_snippet r)) rs"
  shows "results_clean ul (clamp_results n) (normalize_results ul rs n)"
  unfolding normalize_results_def using assms by (intro normalize_clean) (simp_all add: results_clean_def)

text \<open>What a search gives. A search that succeeds had a query that is not blank and an answer with
  status 200 and a bounded body that is not HTML, and gives at least one and at most ten results, all
  of them with an http or https URL, no URL twice, and every snippet is valid text of at most 4096
  characters.\<close>

lemma search_results_clean:
  assumes "search_blocking b post_search query = Inr rs"
    and "\<And>body v. sb_from_slice b body = Some v \<Longrightarrow> json_valid v"
  shows "rs \<noteq> [] \<and> results_clean (sb_url_lib b) (clamp_results (sb_max_results b)) rs \<and> length rs \<le> 10
    \<and> \<not> blank_utf8 (map unat query)
    \<and> (\<exists>resp. post_search query = Inr resp \<and> sx_status resp = 200 \<and> length (sx_body resp) \<le> MAX_PROVIDER_BODY_BYTES)"
proof -
  from assms(1) obtain resp v items where r: "\<not> blank_utf8 (map unat query)" "post_search query = Inr resp"
    "sx_status resp = 200" "length (sx_body resp) \<le> MAX_PROVIDER_BODY_BYTES" "rs \<noteq> []"
    and v: "sb_from_slice b (sx_body resp) = Some v" "Option.bind (json_field ''results'' v) as_array = Some items"
    and rs: "rs = normalize_results (sb_url_lib b) (parse_results (sb_url_lib b) items) (sb_max_results b)"
    unfolding search_blocking_def classify_response_def Let_def
    by (auto split: if_splits sum.splits option.splits)
  have "list_all json_valid items"
  proof -
    from v(2) obtain w where w: "json_field ''results'' v = Some w" "as_array w = Some items"
      by (auto simp: bind_eq_Some_conv)
    then have "json_valid w" using json_valid_field assms(2) [OF v(1)] by blast
    with w(2) show ?thesis by (cases w) auto
  qed
  then have "results_clean (sb_url_lib b) (clamp_results (sb_max_results b)) rs"
    unfolding rs by (intro normalize_results_clean parse_results_valid)
  with r show ?thesis using clamp_bounds(2) [of "sb_max_results b"] by (auto simp: results_clean_def)
qed

text \<open>Two entries with the same URL and one with another scheme: one result is left.\<close>

definition example_item :: "bytes \<Rightarrow> json" where
  "example_item u = JObj [(''title'', JStr [116]), (''url'', JStr u), (''content'', JStr [115])]"

definition example_backend :: searxng_backend where
  "example_backend = \<lparr>sb_url_lib = \<lparr>ul_parse = Some, ul_scheme = takeWhile (\<lambda>c. c \<noteq> 58)\<rparr>,
     sb_from_slice = (\<lambda>_. Some (JObj [(''results'', JArr [example_item (str_bytes ''http:a''), example_item (str_bytes ''file:b''),
       example_item (str_bytes ''http:a'')])])), sb_max_results = 5\<rparr>"

lemma search_results_clean_example:
  "results_clean (sb_url_lib example_backend) 5 [\<lparr>sr_title = [116], sr_url = str_bytes ''http:a'', sr_snippet = [115]\<rparr>]"
proof -
  have "search_blocking example_backend (\<lambda>_. Inr \<lparr>sx_status = 200, sx_body = [], sx_content_type = None\<rparr>) [113] =
    Inr [\<lparr>sr_title = [116], sr_url = str_bytes ''http:a'', sr_snippet = [115]\<rparr>]"
    by (simp add: search_blocking_def classify_response_def example_backend_def example_item_def field_str_def str_or_empty_def
        normalize_results_def clamp_results_def MAX_RESULTS_LIMIT_def MAX_PROVIDER_BODY_BYTES_def MAX_SNIPPET_CHARS_def
        excluded_scheme_def str_bytes_def take_chars_short)
  moreover have "json_valid v" if "sb_from_slice example_backend body = Some v" for body v
    using that by (auto simp: example_backend_def example_item_def str_bytes_def utf8_valid.simps char_len_def)
  ultimately show ?thesis using search_results_clean [of example_backend]
    by (fastforce simp: example_backend_def clamp_results_def MAX_RESULTS_LIMIT_def)
qed

end
