(* ===== verification/Web_Server.thy ===== *)
theory Web_Server
  imports Web_Engine
begin

text \<open>
  The handler of the web-search bridge (\<open>src/websearch/server.rs\<close>): authentication, the bounded
  body, validation, the consent to external access, the permits, the run of the engine, the
  citations and the stream of events. Decoding and printing JSON are parameters, and so are the answers
  of the model and of the search. The properties compose those of the request, the engine, the
  citations and the stream.
\<close>

section \<open>The handler\<close>

record bridge_config =
  bc_bearer_token :: bytes
  bc_external_access :: bool

text \<open>The libraries and the world: decoding a request, printing JSON, and what the engine meets.\<close>

record bridge_world =
  bw_decode :: "bytes \<Rightarrow> bytes + responses_request"
  bw_print :: "json \<Rightarrow> bytes"
  bw_env :: engine_env

text \<open>A request: the text of its authorization header if there is one, the chunks of its body,
  and the identifier that an answer gets.\<close>

record bridge_request =
  bq_authorization :: "bytes option"
  bq_body :: "(unit + bytes) list"
  bq_response_id :: bytes

datatype bridge_reply = ReplyStatus nat bytes | ReplyEvents "json list"

definition MAX_SSE_EVENT_BYTES :: nat where
  "MAX_SSE_EVENT_BYTES = 16 * 1024"

definition strip_prefix :: "bytes \<Rightarrow> bytes \<Rightarrow> bytes option" where
  "strip_prefix p t = (if take (length p) t = p then Some (drop (length p) t) else None)"

definition authorize :: "bridge_config \<Rightarrow> bytes option \<Rightarrow> bool" where
  "authorize cfg header \<longleftrightarrow> bc_bearer_token cfg \<noteq> []
     \<and> Option.bind header (strip_prefix (str_bytes ''Bearer '')) = Some (bc_bearer_token cfg)"

fun read_bounded_body :: "nat \<Rightarrow> bytes \<Rightarrow> (unit + bytes) list \<Rightarrow> unit + bytes" where
  "read_bounded_body limit collected [] = Inr collected"
| "read_bounded_body limit collected (Inl e # cs) = Inl ()"
| "read_bounded_body limit collected (Inr c # cs) =
     (if limit < length (collected @ c) then Inl () else read_bounded_body limit (collected @ c) cs)"

definition parse_body :: "bridge_world \<Rightarrow> bytes \<Rightarrow> request_error + validated_request" where
  "parse_body w body =
     (if MAX_BODY_BYTES < length body
      then Inl (PayloadTooLarge (str_bytes (''body '' @ show_nat (length body) @ '' bytes exceeds '' @ show_nat MAX_BODY_BYTES)))
      else case bw_decode w body of
        Inl e \<Rightarrow> Inl (BadRequest (str_bytes ''invalid responses request: '' @ e))
      | Inr r \<Rightarrow> validate (bw_print w) r)"

fun error_code :: "engine_error \<Rightarrow> string" where
  "error_code LimitExceeded = ''limit_exceeded''"
| "error_code InvalidToolArguments = ''invalid_tool_arguments''"
| "error_code EngineNoResults = ''no_results''"
| "error_code BackendUnavailable = ''backend_unavailable''"
| "error_code DeadlineExceeded = ''deadline_exceeded''"
| "error_code TooManyTurns = ''too_many_turns''"
| "error_code CitationInvalid = ''citation_invalid''"
| "error_code EngineOther = ''other''"

definition stream_events :: "bridge_world \<Rightarrow> json list \<Rightarrow> bridge_reply" where
  "stream_events w events = ReplyEvents (filter (\<lambda>ev. \<not> MAX_SSE_EVENT_BYTES < length (bw_print w ev)) events)"

definition stream_sse :: "bridge_world \<Rightarrow> assembled_response \<Rightarrow> bridge_reply" where
  "stream_sse w a = stream_events w (render_sse a)"

text \<open>The text of an outcome with search results gets its citations; without one it is refused.\<close>

definition cite_outcome :: "engine_outcome \<Rightarrow> engine_outcome option" where
  "cite_outcome out =
     (if eo_search_results out = [] then Some out
      else case render_citations (eo_text out) (build_sources (eo_search_results out)) of
        Inl e \<Rightarrow> None
      | Inr cited \<Rightarrow> if ca_citations cited = [] then None else Some (out\<lparr>eo_text := ca_text cited\<rparr>))"

definition answer_outcome :: "bridge_world \<Rightarrow> bytes \<Rightarrow> engine_error + engine_outcome \<Rightarrow> bridge_reply" where
  "answer_outcome w response_id outcome =
     (case outcome of
        Inl err \<Rightarrow> stream_events w (render_failed response_id (str_bytes (error_code err)) (str_bytes (error_code err)))
      | Inr out \<Rightarrow>
          case cite_outcome out of
            None \<Rightarrow> stream_events w (render_failed response_id (str_bytes ''citation_invalid'')
                      (str_bytes ''search result citation was missing or invalid''))
          | Some out \<Rightarrow> stream_sse w (assemble out response_id))"

definition require_search :: "validated_request \<Rightarrow> bool" where
  "require_search v = is_some_and vs_required (vr_search v)"

definition handle_responses ::
  "bridge_config \<Rightarrow> bridge_world \<Rightarrow> nat \<Rightarrow> bridge_request \<Rightarrow> bridge_reply \<times> engine_call list" where
  "handle_responses cfg w permits rq =
     (if \<not> authorize cfg (bq_authorization rq) then (ReplyStatus 401 [], [])
      else case read_bounded_body MAX_BODY_BYTES [] (bq_body rq) of
        Inl _ \<Rightarrow> (ReplyStatus 413 [], [])
      | Inr body \<Rightarrow>
          case parse_body w body of
            Inl (BadRequest msg) \<Rightarrow> (ReplyStatus 400 msg, [])
          | Inl (PayloadTooLarge msg) \<Rightarrow> (ReplyStatus 413 msg, [])
          | Inr v \<Rightarrow>
              if vr_search v \<noteq> None \<and> \<not> bc_external_access cfg
              then (ReplyStatus 403 (str_bytes ''external web search is disabled; enable external_access explicitly''), [])
              else if permits = 0 then (ReplyStatus 429 [], [])
              else let (outcome, l) = run_with_search_requirement (bw_env w) (vr_messages v) (require_search v)
                in (answer_outcome w (bq_response_id rq) outcome, l))"

section \<open>What passes the gate\<close>

definition admitted :: "bridge_config \<Rightarrow> bridge_world \<Rightarrow> nat \<Rightarrow> bridge_request \<Rightarrow> validated_request \<Rightarrow> bool" where
  "admitted cfg w permits rq v \<longleftrightarrow> authorize cfg (bq_authorization rq) \<and> 0 < permits
     \<and> (vr_search v = None \<or> bc_external_access cfg)
     \<and> (\<exists>body. read_bounded_body MAX_BODY_BYTES [] (bq_body rq) = Inr body \<and> parse_body w body = Inr v)"

lemma handle_admitted:
  assumes "admitted cfg w permits rq v"
  shows "handle_responses cfg w permits rq =
    (let (outcome, l) = run_with_search_requirement (bw_env w) (vr_messages v) (require_search v)
     in (answer_outcome w (bq_response_id rq) outcome, l))"
  using assms by (auto simp: admitted_def handle_responses_def)

lemma handle_refused:
  assumes "\<nexists>v. admitted cfg w permits rq v"
  shows "\<exists>status msg. handle_responses cfg w permits rq = (ReplyStatus status msg, []) \<and> status \<in> {400, 401, 403, 413, 429}"
proof (cases "authorize cfg (bq_authorization rq)")
  case True
  show ?thesis
  proof (cases "read_bounded_body MAX_BODY_BYTES [] (bq_body rq)")
    case (Inr body)
    with True assms show ?thesis
      by (cases "parse_body w body") (auto simp: handle_responses_def admitted_def split: request_error.split)
  qed (use True in \<open>auto simp: handle_responses_def\<close>)
qed (simp add: handle_responses_def)

lemma body_chunks:
  "read_bounded_body limit collected cs = Inr body \<Longrightarrow> length collected \<le> limit \<Longrightarrow>
   length body \<le> limit \<and> (\<exists>ds. cs = map Inr ds \<and> body = collected @ concat ds)"
proof (induction limit collected cs rule: read_bounded_body.induct)
  case (3 limit collected c cs)
  then obtain ds where "cs = map Inr ds" "body = (collected @ c) @ concat ds" "length body \<le> limit"
    by (auto split: if_splits)
  then show ?case by (intro conjI exI [of _ "c # ds"]) simp_all
qed auto

text \<open>The record of the calls only grows.\<close>

definition log_grows :: "engine_state \<Rightarrow> engine_state \<Rightarrow> bool" where
  "log_grows s s' \<longleftrightarrow> (\<exists>m. es_log s' = es_log s @ m)"

lemma log_grows_trans: "log_grows a b \<Longrightarrow> log_grows b c \<Longrightarrow> log_grows a c"
  by (auto simp: log_grows_def)

lemma run_calls_log: "log_grows s (snd (run_calls env cs s))"
proof (induction cs arbitrary: s)
  case (Cons c cs)
  have "log_grows s (snd (run_search env c s))"
    by (auto simp: log_grows_def run_search_def Let_def split: sum.split)
  moreover have "log_grows s (keep_client_call c s)" by (simp add: log_grows_def keep_client_call_def)
  ultimately show ?case
    using Cons.IH log_grows_trans by (cases "run_search env c s"; cases "fst (run_search env c s)") auto
qed (simp add: log_grows_def)

lemma engine_turn_log:
  assumes "\<And>s. log_grows s (snd (engine_loop env False n s))"
  shows "log_grows (s\<lparr>es_log := es_log s @ [ModelCall required (es_messages s)
      (ev_send_turn env (MAX_MODEL_TURNS - Suc n) required (es_messages s))]\<rparr>) (snd (engine_loop env required (Suc n) s))"
proof -
  define turn where "turn = ev_send_turn env (MAX_MODEL_TURNS - Suc n) required (es_messages s)"
  define s1 where "s1 = s\<lparr>es_log := es_log s @ [ModelCall required (es_messages s) turn]\<rparr>"
  have refl: "log_grows s1 s1" by (simp add: log_grows_def)
  show ?thesis
  proof (cases turn)
    case (Inl e)
    then show ?thesis using refl
      unfolding engine_loop.simps Let_def turn_def [symmetric] s1_def [symmetric] by simp
  next
    case (Inr t)
    obtain e s2 where r: "run_calls env (ct_tool_calls t) s1 = (e, s2)" by force
    have "log_grows s1 s2" using run_calls_log [of s1 env "ct_tool_calls t"] r by simp
    then have "log_grows s1 (snd (engine_loop env False n s2))" using assms by (rule log_grows_trans)
    with Inr r refl \<open>log_grows s1 s2\<close> show ?thesis
      unfolding engine_loop.simps Let_def turn_def [symmetric] s1_def [symmetric] by (auto split: option.split)
  qed
qed

lemma engine_loop_log: "log_grows s (snd (engine_loop env required n s))"
proof (induction n arbitrary: required s)
  case (Suc n)
  show ?case by (rule log_grows_trans [OF _ engine_turn_log [OF Suc.IH]]) (simp add: log_grows_def)
qed (simp add: log_grows_def)

text \<open>The engine always asks the model first.\<close>

lemma engine_asks_model: "snd (run_with_search_requirement env ms required) \<noteq> []"
  using engine_turn_log [of env 5 "engine_start ms" required, OF engine_loop_log]
  by (auto simp: run_with_search_requirement_def six_turns(1) log_grows_def simp del: engine_loop.simps)

text \<open>C27. Model and search are asked only for an admitted request: the token is the configured one, which
  is not empty, a permit is free, the body is the concatenation of its chunks, at most two megabytes
  long, and a valid request, and if it is granted a search then the configuration allows external
  access. Every other request is answered by a status without any call to the outside.\<close>

theorem bridge_gate:
  "snd (handle_responses cfg w permits rq) \<noteq> [] \<longleftrightarrow>
     bc_bearer_token cfg \<noteq> [] \<and> bq_authorization rq = Some (str_bytes ''Bearer '' @ bc_bearer_token cfg) \<and> 0 < permits
     \<and> (\<exists>chunks v. bq_body rq = map Inr chunks \<and> length (concat chunks) \<le> MAX_BODY_BYTES
         \<and> parse_body w (concat chunks) = Inr v \<and> (vr_search v = None \<or> bc_external_access cfg))"
proof -
  have sp: "strip_prefix p t = Some u \<longleftrightarrow> t = p @ u" for p t u
    by (auto simp: strip_prefix_def) (metis append_take_drop_id)
  have rb: "read_bounded_body limit c (map Inr ds) = Inr (c @ concat ds)"
    if "length (c @ concat ds) \<le> limit" for limit c ds
    using that by (induction ds arbitrary: c) auto
  have "snd (handle_responses cfg w permits rq) \<noteq> [] \<longleftrightarrow> (\<exists>v. admitted cfg w permits rq v)"
    using handle_admitted [of cfg w permits rq] handle_refused [of cfg w permits rq] engine_asks_model
    by (fastforce simp: Let_def split_beta)
  also have "\<dots> \<longleftrightarrow> bc_bearer_token cfg \<noteq> [] \<and> bq_authorization rq = Some (str_bytes ''Bearer '' @ bc_bearer_token cfg)
     \<and> 0 < permits \<and> (\<exists>chunks v. bq_body rq = map Inr chunks \<and> length (concat chunks) \<le> MAX_BODY_BYTES
         \<and> parse_body w (concat chunks) = Inr v \<and> (vr_search v = None \<or> bc_external_access cfg))"
    using body_chunks [of MAX_BODY_BYTES "[]" "bq_body rq"] rb [of "[]" _ MAX_BODY_BYTES]
    by (fastforce simp: admitted_def authorize_def bind_eq_Some_conv sp)
  finally show ?thesis .
qed

section \<open>What an answer carries\<close>

definition is_failed :: "json \<Rightarrow> bool" where
  "is_failed e \<longleftrightarrow> json_get ''type'' e = text_lit ''response.failed''"

text \<open>The text that is shown for an outcome.\<close>

definition shown_text :: "engine_outcome \<Rightarrow> bytes \<Rightarrow> bool" where
  "shown_text out txt \<longleftrightarrow>
     (if eo_search_results out = [] then txt = eo_text out
      else \<exists>a. render_citations (eo_text out) (build_sources (eo_search_results out)) = Inr a
        \<and> ca_citations a \<noteq> [] \<and> txt = ca_text a)"

lemma cite_outcome_shown: "cite_outcome out = Some out' \<Longrightarrow> \<exists>txt. shown_text out txt \<and> out' = out\<lparr>eo_text := txt\<rparr>"
  by (auto simp: cite_outcome_def shown_text_def split: if_splits sum.splits)

lemma render_sse_split:
  "\<exists>body n. render_sse a = body @ [response_event ''response.completed'' n (nonstreaming_object a)]
     \<and> \<not> list_ex is_completed body"
  using output_events_read(3) [of 4096 2 0 "ar_output a"]
  by (auto simp: render_sse_def render_sse_with_chunk_def Let_def event_defs)

lemma completed_event [simp]:
  "is_completed (response_event ''response.completed'' n v)" "json_get ''response'' (response_event k n v) = v"
  by (simp_all add: event_defs)

lemma stream_completed:
  assumes "stream_sse w a = ReplyEvents es" "list_ex is_completed es"
  shows "reconstruct_object es = Some (nonstreaming_object a)"
proof -
  obtain body n where b: "render_sse a = body @ [response_event ''response.completed'' n (nonstreaming_object a)]"
    "\<not> list_ex is_completed body" using render_sse_split by blast
  let ?keep = "\<lambda>ev. \<not> MAX_SSE_EVENT_BYTES < length (bw_print w ev)"
  have f: "\<not> list_ex is_completed (filter ?keep body)" using b(2) by (auto simp: list_ex_iff)
  with assms b(1) have "es = filter ?keep body @ [response_event ''response.completed'' n (nonstreaming_object a)]"
    by (auto simp: stream_sse_def stream_events_def split: if_splits)
  with f show ?thesis by (simp add: reconstruct_skips) (simp add: event_defs)
qed

lemma failed_stream: "stream_events w (render_failed i c m) = ReplyEvents es \<Longrightarrow> \<not> list_ex is_completed es"
  using failed_not_completed(2) [of i c m] by (auto simp: stream_events_def list_ex_iff)

text \<open>C26. An answer that is announced as complete is what happened. The engine succeeded, within its bounds,
  with an outcome that records the calls of this run; the object in the stream is that of this
  outcome; and if anything was searched, the text is the citing form of the text of the model with at least one
  citation. So no answer is complete after a failed search, and none uses results without citing.\<close>

theorem bridge_answer_cited:
  assumes "handle_responses cfg w permits rq = (ReplyEvents es, l)" "list_ex is_completed es"
  shows "\<exists>out txt. outcome_of l out \<and> shown_text out txt
    \<and> reconstruct_object es = Some (nonstreaming_object (assemble (out\<lparr>eo_text := txt\<rparr>) (bq_response_id rq)))
    \<and> length (log_queries l) \<le> 3 \<and> model_calls l \<le> 6"
proof -
  obtain v where v: "admitted cfg w permits rq v" using handle_refused [of cfg w permits rq] assms(1) by auto
  obtain outcome where run: "run_with_search_requirement (bw_env w) (vr_messages v) (require_search v) = (outcome, l)"
    and ans: "answer_outcome w (bq_response_id rq) outcome = ReplyEvents es"
    using handle_admitted [OF v] assms(1) by (auto simp: Let_def split: prod.splits)
  have "\<exists>out out'. outcome = Inr out \<and> cite_outcome out = Some out'
      \<and> stream_sse w (assemble out' (bq_response_id rq)) = ReplyEvents es"
    using ans assms(2) failed_stream unfolding answer_outcome_def by (fastforce split: sum.splits option.splits)
  then obtain out out' where oc: "outcome = Inr out" "cite_outcome out = Some out'"
    "stream_sse w (assemble out' (bq_response_id rq)) = ReplyEvents es" by blast
  from cite_outcome_shown [OF oc(2)] obtain tx where t: "shown_text out tx" "out' = out\<lparr>eo_text := tx\<rparr>" by blast
  show ?thesis
    using engine_run_bounded [OF run] oc(1) t stream_completed [OF oc(3) assms(2)] by blast
qed

section \<open>Where the bridge falls short\<close>

lemma large_event_dropped:
  assumes "render_sse a = body @ [e]" "MAX_SSE_EVENT_BYTES < length (bw_print w e)" "stream_sse w a = ReplyEvents es"
  shows "set es \<subseteq> set body"
  using assms by (auto simp: stream_sse_def stream_events_def)

lemma output_event_types:
  "e \<in> set (output_events chunk n k items) \<Longrightarrow> json_get ''type'' e \<in> text_lit ` {''response.output_item.added'',
     ''response.output_text.delta'', ''response.function_call_arguments.delta'', ''response.output_item.done''}"
proof (induction items arbitrary: n k)
  case (Cons item items)
  have d: "e \<in> set (delta_events mk m ds) \<Longrightarrow> \<exists>j d. e = mk j d" for mk m ds by (induction ds arbitrary: m) auto
  have "e \<in> set (item_deltas chunk m k item) \<Longrightarrow>
    json_get ''type'' e \<in> text_lit ` {''response.output_text.delta'', ''response.function_call_arguments.delta''}" for m
    by (cases item) (auto dest!: d simp: event_defs)
  with Cons show ?case by (auto simp: Let_def item_events_def event_defs)
qed simp

text \<open>The number of bytes of the strings in a JSON value: its text is at least as long.\<close>

fun json_chars :: "json \<Rightarrow> nat" where
  "json_chars (JStr s) = length s"
| "json_chars (JArr vs) = sum_list (map json_chars vs)"
| "json_chars (JObj kvs) = sum_list (map (\<lambda>kv. json_chars (snd kv)) kvs)"
| "json_chars _ = 0"

lemma completed_chars:
  "length (eo_text out) \<le> json_chars (response_event ''response.completed'' n (nonstreaming_object (assemble out i)))"
  by (simp add: response_event_def nonstreaming_object_def assemble_def Let_def)


text \<open>C32. A search happens without consent. A request that forbids searching, on a bridge that does not
  allow external access, is admitted as an ordinary conversation; but the model is offered the search
  tool all the same, and when it calls it the search is carried out.\<close>

theorem search_without_consent:
  assumes "admitted cfg w permits rq v" "\<not> bc_external_access cfg"
    and "ev_send_turn (bw_env w) 0 False (vr_messages v) = Inr t" "ct_tool_calls t = c # cs"
    and "on_time (bw_env w) 0" "asks_search (bw_env w) c q"
  shows "SearchCall q (ev_search (bw_env w) 0 q) \<in> set (snd (handle_responses cfg w permits rq))"
proof -
  let ?env = "bw_env w" and ?s = "engine_start (vr_messages v)"
  have n: "vr_search v = None" using assms(1,2) by (simp add: admitted_def)
  let ?s1 = "?s\<lparr>es_log := [ModelCall False (vr_messages v) (Inr t)]\<rparr>"
  obtain e s2 where s2: "run_calls ?env (ct_tool_calls t) ?s1 = (e, s2)" by force
  obtain e1 s3 where s3: "run_search ?env c ?s1 = (e1, s3)" by force
  have i: "SearchCall q (ev_search ?env 0 q) \<in> set (es_log s3)"
    using s3 assms(6) by (auto simp: run_search_def asks_search_def engine_start_def six_turns Let_def split: sum.splits if_splits)
  have "log_grows s3 s2"
    using s2 s3 assms(4,6) run_calls_log [of s3 ?env cs] by (cases e1) (auto simp: asks_search_def log_grows_def)
  moreover have "log_grows s2 (snd (engine_loop ?env False MAX_MODEL_TURNS ?s))"
  proof -
    have "engine_loop ?env False (Suc 5) ?s = (case e of Some x \<Rightarrow> (Inl x, s2) | None \<Rightarrow> engine_loop ?env False 5 s2)"
    proof (rule engine_calls_turn)
      show "ev_send_turn ?env (MAX_MODEL_TURNS - Suc 5) False (es_messages ?s) = Inr t" "ct_tool_calls t \<noteq> []"
        "on_time ?env (MAX_MODEL_TURNS - Suc 5)" using assms(3-5) by (simp_all add: six_turns engine_start_def)
      show "run_calls ?env (ct_tool_calls t) (?s\<lparr>es_log := es_log ?s @ [ModelCall False (es_messages ?s) (Inr t)]\<rparr>) = (e, s2)"
        using s2 by (simp add: engine_start_def del: run_calls.simps)
    qed
    then show ?thesis using engine_loop_log [of s2 ?env False 5]
      by (cases e) (simp_all add: six_turns(1) log_grows_def del: engine_loop.simps)
  qed
  ultimately have "SearchCall q (ev_search ?env 0 q) \<in> set (snd (run_with_search_requirement ?env (vr_messages v) False))"
    using i by (auto simp: log_grows_def run_with_search_requirement_def)
  then show ?thesis using handle_admitted [OF assms(1)] n by (simp add: require_search_def Let_def split_beta)
qed

section \<open>Examples\<close>

definition silent_request :: responses_request where
  "silent_request = example_request\<lparr>rr_tool_choice := Some (ChoiceString (str_bytes ''none''))\<rparr>"

definition example_world :: "engine_env \<Rightarrow> bridge_world" where
  "example_world env = \<lparr>bw_decode = (\<lambda>_. Inr silent_request), bw_print = (\<lambda>j. replicate (json_chars j) 32), bw_env = env\<rparr>"

definition example_config :: bridge_config where
  "example_config = \<lparr>bc_bearer_token = [116], bc_external_access = False\<rparr>"

definition example_rq :: bridge_request where
  "example_rq = \<lparr>bq_authorization = Some (str_bytes ''Bearer t''), bq_body = [Inr [123], Inr [125]], bq_response_id = [105]\<rparr>"

lemma silent_validated: "validate print silent_request = Inr (example_valid\<lparr>vr_search := None\<rparr>)"
  by (simp add: silent_request_def validate_def unsupported_def example_request_def example_valid_def validate_web_search_def
      has_domains_def select_search_def search_required_def search_forbidden_def to_chat_messages_def
      history_to_chat_messages_def message_text_def push_line_def example_messages_def white_space_2_def)

lemma example_admitted: "admitted example_config (example_world env) 4 example_rq (example_valid\<lparr>vr_search := None\<rparr>)"
  by (simp add: admitted_def example_config_def example_world_def example_rq_def authorize_def strip_prefix_def
      parse_body_def silent_validated MAX_BODY_BYTES_def) (simp add: str_bytes_def example_valid_def)

lemma search_without_consent_witness:
  "SearchCall [113] (Inr [example_result 0])
     \<in> set (snd (handle_responses example_config (example_world example_env) 4 example_rq))
   \<and> \<not> bc_external_access example_config \<and> search_forbidden (rr_tool_choice silent_request)"
  using search_without_consent [OF example_admitted, of example_env "example_turn 0" "example_call 0" "[]" "[113]"]
  by (simp add: example_world_def example_config_def silent_request_def search_forbidden_def)

text \<open>A model that answers at once with a given text.\<close>

definition plain_env :: "bytes \<Rightarrow> engine_env" where
  "plain_env t = \<lparr>ev_send_turn = (\<lambda>_ _ _. Inr \<lparr>ct_messages = [], ct_tool_calls = [], ct_text = t\<rparr>), ev_elapsed = (\<lambda>_. 1),
     ev_search = (\<lambda>_ _. Inl NoResults), ev_from_str = (\<lambda>_. None)\<rparr>"

lemma plain_run:
  "run_with_search_requirement (plain_env t) ms False =
    (Inr \<lparr>eo_search_results = [], eo_search_queries = [], eo_client_calls = [], eo_text = t, eo_model_turns = 1\<rparr>,
     [ModelCall False ms (Inr \<lparr>ct_messages = [], ct_tool_calls = [], ct_text = t\<rparr>)])"
  using engine_final_turn [of "plain_env t" 5 False "engine_start ms"]
  by (simp add: run_with_search_requirement_def six_turns engine_start_def plain_env_def on_time_def TOTAL_DEADLINE_def
      del: engine_loop.simps)

lemma plain_handled:
  "handle_responses example_config (example_world (plain_env t)) 4 example_rq =
    (stream_sse (example_world (plain_env t)) (assemble \<lparr>eo_search_results = [], eo_search_queries = [],
       eo_client_calls = [], eo_text = t, eo_model_turns = 1\<rparr> [105]),
     [ModelCall False (vr_messages (example_valid\<lparr>vr_search := None\<rparr>)) (Inr \<lparr>ct_messages = [], ct_tool_calls = [], ct_text = t\<rparr>)])"
proof -
  have "bw_env (example_world (plain_env t)) = plain_env t" "bq_response_id example_rq = [105]"
    by (simp_all add: example_world_def example_rq_def)
  then show ?thesis
    unfolding handle_admitted [OF example_admitted] by (simp add: require_search_def plain_run answer_outcome_def cite_outcome_def)
qed


lemma bridge_answer_cited_witness:
  "\<exists>es l. handle_responses example_config (example_world (plain_env [97])) 4 example_rq = (ReplyEvents es, l)
     \<and> (\<exists>out txt. outcome_of l out \<and> shown_text out txt
       \<and> reconstruct_object es = Some (nonstreaming_object (assemble (out\<lparr>eo_text := txt\<rparr>) [105])))"
proof -
  let ?w = "example_world (plain_env [97])"
  let ?a = "assemble \<lparr>eo_search_results = [], eo_search_queries = [], eo_client_calls = [], eo_text = [97], eo_model_turns = 1\<rparr> [105]"
  obtain es where st: "stream_sse ?w ?a = ReplyEvents es" by (simp add: stream_sse_def stream_events_def)
  then have h: "handle_responses example_config ?w 4 example_rq = (ReplyEvents es, [ModelCall False
      (vr_messages (example_valid\<lparr>vr_search := None\<rparr>)) (Inr \<lparr>ct_messages = [], ct_tool_calls = [], ct_text = [97]\<rparr>)])"
    by (simp only: plain_handled)
  obtain body n where r: "render_sse ?a = body @ [response_event ''response.completed'' n (nonstreaming_object ?a)]"
    using render_sse_split by blast
  have "\<not> MAX_SSE_EVENT_BYTES < json_chars (response_event ''response.completed'' n (nonstreaming_object ?a))"
    by (simp add: response_event_def nonstreaming_object_def assemble_def MAX_SSE_EVENT_BYTES_def item_name_def
        show_nat.simps str_bytes_def)
  then have "list_ex is_completed es"
    using st r by (auto simp: stream_sse_def stream_events_def example_world_def)
  from bridge_answer_cited [OF h this] h show ?thesis by (auto simp: example_rq_def)
qed

end
