(* ===== verification/Manager_Jobs.thy ===== *)
theory Manager_Jobs
  imports Text_Codec "HOL-Library.AList"
begin

text \<open>
  The jobs of the model manager: the journal (\<open>src/manager/jobs.rs\<close>) and the requests of its
  API (\<open>src/manager/api.rs\<close>). A hash map is an association list with distinct keys, the clock is
  an input. The properties say what holds after every history of requests and results, and what a
  cancellation does to a job that has ended.
\<close>

datatype job_kind = Fetch | Build | Download | VerifyJob | Stage | Activate | Rollback

fun kind_name :: "job_kind \<Rightarrow> string" where
  "kind_name Fetch = ''fetch''"
| "kind_name Build = ''build''"
| "kind_name Download = ''download''"
| "kind_name VerifyJob = ''verify''"
| "kind_name Stage = ''stage''"
| "kind_name Activate = ''activate''"
| "kind_name Rollback = ''rollback''"

datatype job_phase = JobRunning | JobSucceeded | JobFailed | JobCancelling

record manager_job =
  mj_id :: string
  mj_kind :: job_kind
  mj_progress :: u8
  mj_phase :: job_phase
  mj_error :: string
  mj_created_at :: u64
  mj_updated_at :: u64
  mj_cancel :: bool

definition job_new :: "u64 \<Rightarrow> string \<Rightarrow> job_kind \<Rightarrow> manager_job" where
  "job_new now i k = \<lparr>mj_id = i, mj_kind = k, mj_progress = 0, mj_phase = JobRunning, mj_error = '''',
     mj_created_at = now, mj_updated_at = now, mj_cancel = False\<rparr>"

definition job_set_progress :: "u64 \<Rightarrow> u8 \<Rightarrow> manager_job \<Rightarrow> manager_job" where
  "job_set_progress now p j = j\<lparr>mj_progress := min p 100, mj_updated_at := now\<rparr>"

definition job_succeed :: "u64 \<Rightarrow> manager_job \<Rightarrow> manager_job" where
  "job_succeed now j = j\<lparr>mj_phase := JobSucceeded, mj_progress := 100, mj_updated_at := now\<rparr>"

definition job_fail :: "u64 \<Rightarrow> string \<Rightarrow> manager_job \<Rightarrow> manager_job" where
  "job_fail now e j = j\<lparr>mj_phase := JobFailed, mj_error := e, mj_updated_at := now\<rparr>"

definition job_request_cancel :: "u64 \<Rightarrow> manager_job \<Rightarrow> manager_job" where
  "job_request_cancel now j = j\<lparr>mj_cancel := True, mj_phase := JobCancelling, mj_updated_at := now\<rparr>"

section \<open>The journal\<close>

datatype manager_job_error = UnknownKind | JobNotFound

record job_journal =
  jj_jobs :: "(string \<times> manager_job) list"
  jj_running_by_key :: "(string \<times> string) list"
  jj_next_id :: u64

definition journal_new :: job_journal where
  "journal_new = \<lparr>jj_jobs = [], jj_running_by_key = [], jj_next_id = 0\<rparr>"

definition job_id :: "job_kind \<Rightarrow> u64 \<Rightarrow> string" where
  "job_id k n = kind_name k @ ''-'' @ show_u64 n"

definition enqueue :: "u64 \<Rightarrow> job_kind \<Rightarrow> string \<Rightarrow> job_journal \<Rightarrow> string \<times> job_journal" where
  "enqueue now k payload_key j =
     (case map_of (jj_running_by_key j) payload_key of
        Some i \<Rightarrow> (i, j)
      | None \<Rightarrow>
          let i = job_id k (jj_next_id j) in
          (i, \<lparr>jj_jobs = AList.update i (job_new now i k) (jj_jobs j),
               jj_running_by_key = AList.update payload_key i (jj_running_by_key j),
               jj_next_id = jj_next_id j + 1\<rparr>))"

definition job_get :: "job_journal \<Rightarrow> string \<Rightarrow> manager_job option" where
  "job_get j i = map_of (jj_jobs j) i"

definition release_key :: "string \<Rightarrow> job_journal \<Rightarrow> job_journal" where
  "release_key i j = j\<lparr>jj_running_by_key := filter (\<lambda>(_, v). v \<noteq> i) (jj_running_by_key j)\<rparr>"

definition change_job ::
  "(manager_job \<Rightarrow> manager_job) \<Rightarrow> string \<Rightarrow> job_journal \<Rightarrow> (manager_job_error + unit) \<times> job_journal" where
  "change_job f i j =
     (case job_get j i of
        None \<Rightarrow> (Inl JobNotFound, j)
      | Some job \<Rightarrow> (Inr (), j\<lparr>jj_jobs := AList.update i (f job) (jj_jobs j)\<rparr>))"

definition close_job ::
  "(manager_job \<Rightarrow> manager_job) \<Rightarrow> string \<Rightarrow> job_journal \<Rightarrow> (manager_job_error + unit) \<times> job_journal" where
  "close_job f i j =
     (case change_job f i j of (Inl e, j') \<Rightarrow> (Inl e, j') | (Inr _, j') \<Rightarrow> (Inr (), release_key i j'))"

definition journal_succeed :: "u64 \<Rightarrow> string \<Rightarrow> job_journal \<Rightarrow> (manager_job_error + unit) \<times> job_journal" where
  "journal_succeed now i j = close_job (job_succeed now) i j"

definition journal_fail :: "u64 \<Rightarrow> string \<Rightarrow> string \<Rightarrow> job_journal \<Rightarrow> (manager_job_error + unit) \<times> job_journal" where
  "journal_fail now i e j = close_job (job_fail now e) i j"

definition journal_request_cancel :: "u64 \<Rightarrow> string \<Rightarrow> job_journal \<Rightarrow> (manager_job_error + unit) \<times> job_journal" where
  "journal_request_cancel now i j = change_job (job_request_cancel now) i j"

definition in_progress :: "manager_job \<Rightarrow> bool" where
  "in_progress job = (mj_phase job \<in> {JobRunning, JobCancelling})"

definition has_running :: "job_kind \<Rightarrow> job_journal \<Rightarrow> bool" where
  "has_running k j = list_ex (\<lambda>(_, job). mj_kind job = k \<and> in_progress job) (jj_jobs j)"

section \<open>The API\<close>

record job_submit_request =
  js_kind :: string
  js_payload_key :: string
  js_expected_generation :: u64
  js_runtime_lease :: "string option"

datatype manager_api_error = BadRequest | ApiNotFound | Conflict

fun parse_kind :: "string \<Rightarrow> job_kind option" where
  "parse_kind s =
     (if s = ''fetch'' then Some Fetch else if s = ''build'' then Some Build else if s = ''download'' then Some Download
      else if s = ''verify'' then Some VerifyJob else if s = ''stage'' then Some Stage
      else if s = ''activate'' then Some Activate else if s = ''rollback'' then Some Rollback else None)"

definition submit :: "u64 \<Rightarrow> job_submit_request \<Rightarrow> job_journal \<Rightarrow> (manager_api_error + string) \<times> job_journal" where
  "submit now r j =
     (case parse_kind (js_kind r) of
        None \<Rightarrow> (Inl BadRequest, j)
      | Some k \<Rightarrow>
          if k \<in> {Activate, Rollback}
             \<and> (js_expected_generation r = 0 \<or> is_none_or (\<lambda>l. l = '''') (js_runtime_lease r)) then (Inl BadRequest, j)
          else if k = Activate \<and> has_running Activate j then (Inl Conflict, j)
          else apfst Inr (enqueue now k (js_payload_key r) j))"

definition api_get :: "job_journal \<Rightarrow> string \<Rightarrow> manager_api_error + manager_job" where
  "api_get j i = (case job_get j i of None \<Rightarrow> Inl ApiNotFound | Some job \<Rightarrow> Inr job)"

definition api_cancel :: "u64 \<Rightarrow> string \<Rightarrow> job_journal \<Rightarrow> (manager_api_error + unit) \<times> job_journal" where
  "api_cancel now i j = apfst (map_sum (\<lambda>_. ApiNotFound) id) (journal_request_cancel now i j)"

definition queue_depth :: "job_journal \<Rightarrow> nat" where
  "queue_depth j = length (filter (\<lambda>(_, job). in_progress job) (jj_jobs j))"

section \<open>Histories\<close>

datatype job_op =
  OpSubmit u64 job_submit_request
| OpCancel u64 string
| OpSucceed u64 string
| OpFail u64 string string

fun job_act :: "job_op \<Rightarrow> job_journal \<Rightarrow> job_journal" where
  "job_act (OpSubmit now r) j = snd (submit now r j)"
| "job_act (OpCancel now i) j = snd (api_cancel now i j)"
| "job_act (OpSucceed now i) j = snd (journal_succeed now i j)"
| "job_act (OpFail now i e) j = snd (journal_fail now i e j)"

definition job_run :: "job_journal \<Rightarrow> job_op list \<Rightarrow> job_journal" where
  "job_run j ops = fold job_act ops j"

fun is_request :: "job_op \<Rightarrow> bool" where
  "is_request (OpSubmit _ _) = True"
| "is_request (OpCancel _ _) = True"
| "is_request _ = False"

section \<open>Identifiers\<close>

lemma kind_name_dash: "CHR ''-'' \<notin> set (kind_name k)"
  by (cases k) simp_all

lemma job_id_inj [simp]: "job_id k n = job_id k' n' \<longleftrightarrow> k = k' \<and> n = n'"
proof
  assume eq: "job_id k n = job_id k' n'"
  have split: "takeWhile (\<lambda>c. c \<noteq> CHR ''-'') (job_id k n) = kind_name k" for k n
    unfolding job_id_def using kind_name_dash [of k] by (subst takeWhile_append2) auto
  from eq split [of k n] split [of k' n'] have "kind_name k = kind_name k'" by simp
  moreover from this have "k = k'" by (cases k; cases k') simp_all
  ultimately show "k = k' \<and> n = n'" using eq by (simp add: job_id_def)
qed simp

section \<open>The invariant\<close>

definition running :: "job_journal \<Rightarrow> string \<Rightarrow> manager_job \<Rightarrow> bool" where
  "running j i job \<longleftrightarrow> job_get j i = Some job \<and> mj_phase job = JobRunning"

definition named_below :: "job_journal \<Rightarrow> bool" where
  "named_below j \<longleftrightarrow> (\<forall>i job. job_get j i = Some job \<longrightarrow> (\<exists>m < jj_next_id j. i = job_id (mj_kind job) m))"

definition keys_ok :: "job_journal \<Rightarrow> bool" where
  "keys_ok j \<longleftrightarrow> distinct (map fst (jj_running_by_key j)) \<and> distinct (map snd (jj_running_by_key j))
     \<and> (\<forall>(k, i) \<in> set (jj_running_by_key j). is_some_and in_progress (job_get j i))
     \<and> (\<forall>i job. running j i job \<longrightarrow> i \<in> snd ` set (jj_running_by_key j))"

definition one_activation :: "job_journal \<Rightarrow> bool" where
  "one_activation j \<longleftrightarrow> (\<forall>i job i' job'. running j i job \<and> running j i' job' \<and> mj_kind job = Activate
     \<and> mj_kind job' = Activate \<longrightarrow> i = i')"

definition journal_ok :: "job_journal \<Rightarrow> bool" where
  "journal_ok j \<longleftrightarrow> named_below j \<and> keys_ok j \<and> one_activation j"

lemma job_get_update [simp]:
  "job_get (j\<lparr>jj_jobs := AList.update i job (jj_jobs j)\<rparr>) i' = (if i' = i then Some job else job_get j i')"
  by (simp add: job_get_def update_conv)

lemma release_sel [simp]:
  "job_get (release_key i j) = job_get j" "jj_next_id (release_key i j) = jj_next_id j"
  "jj_jobs (release_key i j) = jj_jobs j"
  by (simp_all add: release_key_def job_get_def fun_eq_iff)

lemma update_new: "map_of al k = None \<Longrightarrow> AList.update k v al = al @ [(k, v)]"
  by (induction al) (auto split: if_splits)

lemma not_has_running: "\<not> has_running k j \<Longrightarrow> job_get j i = Some job \<Longrightarrow> mj_kind job = k \<Longrightarrow> \<not> in_progress job"
  by (auto simp: has_running_def job_get_def list_ex_iff dest!: map_of_SomeD)

lemma has_runningI: "job_get j i = Some job \<Longrightarrow> mj_kind job = k \<Longrightarrow> in_progress job \<Longrightarrow> has_running k j"
  by (meson not_has_running)

text \<open>A new job.\<close>

lemma enqueue_ok:
  assumes "journal_ok j" "unat (jj_next_id j) + 1 < 2 ^ 64" "k = Activate \<Longrightarrow> \<not> has_running Activate j"
  shows "journal_ok (snd (enqueue now k key j))"
proof (cases "map_of (jj_running_by_key j) key")
  case (Some i)
  with assms(1) show ?thesis by (simp add: enqueue_def)
next
  case None
  let ?i = "job_id k (jj_next_id j)"
  let ?j = "snd (enqueue now k key j)"
  have get: "job_get ?j i' = (if i' = ?i then Some (job_new now ?i k) else job_get j i')" for i'
    using None by (simp add: enqueue_def Let_def job_get_def update_conv)
  have keys: "jj_running_by_key ?j = jj_running_by_key j @ [(key, ?i)]"
    using None by (simp add: enqueue_def Let_def update_new)
  have next_id: "jj_next_id ?j = jj_next_id j + 1" "jj_next_id j < jj_next_id j + 1"
    using None assms(2) by (simp_all add: enqueue_def Let_def word_less_nat_alt unat_word_ariths)
  have fresh: "job_get j ?i = None"
    using assms(1) by (cases "job_get j ?i") (fastforce simp: journal_ok_def named_below_def)+
  have "?i \<notin> snd ` set (jj_running_by_key j)"
    using assms(1) fresh by (fastforce simp: journal_ok_def keys_ok_def)
  moreover have "key \<notin> fst ` set (jj_running_by_key j)" using None by (simp add: map_of_eq_None_iff)
  ultimately have "keys_ok ?j"
    using assms(1) fresh
    by (fastforce simp: journal_ok_def keys_ok_def keys get running_def job_new_def in_progress_def)
  moreover have "named_below ?j"
    using assms(1) next_id unfolding journal_ok_def named_below_def
    by (auto simp: get job_new_def) (meson less_trans)
  moreover have "one_activation ?j"
    using assms(1,3) not_has_running [of Activate j]
    by (auto simp: journal_ok_def one_activation_def running_def get job_new_def in_progress_def)
  ultimately show ?thesis by (simp add: journal_ok_def)
qed

text \<open>A job that changes.\<close>

lemma close_ok:
  assumes "journal_ok j" "\<And>job. mj_kind (f job) = mj_kind job \<and> mj_phase (f job) \<noteq> JobRunning"
  shows "journal_ok (snd (close_job f i j))"
proof (cases "job_get j i")
  case None
  with assms(1) show ?thesis by (simp add: close_job_def change_job_def)
next
  case (Some job)
  let ?j = "snd (close_job f i j)"
  have get: "job_get ?j i' = (if i' = i then Some (f job) else job_get j i')" "jj_next_id ?j = jj_next_id j" for i'
    using Some by (simp_all add: close_job_def change_job_def)
  have keys: "jj_running_by_key ?j = filter (\<lambda>(_, v). v \<noteq> i) (jj_running_by_key j)"
    using Some by (simp add: close_job_def change_job_def release_key_def)
  have "i' \<in> snd ` set (jj_running_by_key ?j)" if "i' \<in> snd ` set (jj_running_by_key j)" "i' \<noteq> i" for i'
    using that by (force simp: keys)
  then have "keys_ok ?j"
    using assms unfolding journal_ok_def keys_ok_def running_def get
    by (auto simp: keys distinct_map_filter split: if_splits)
  moreover have "named_below ?j" "one_activation ?j"
    using assms Some by (auto simp: journal_ok_def named_below_def one_activation_def running_def get split: if_splits)
  ultimately show ?thesis by (simp add: journal_ok_def)
qed

lemma cancel_ok:
  assumes "journal_ok j"
  shows "journal_ok (snd (journal_request_cancel now i j))"
proof (cases "job_get j i")
  case None
  with assms show ?thesis by (simp add: journal_request_cancel_def change_job_def)
next
  case (Some job)
  let ?j = "snd (journal_request_cancel now i j)"
  have get: "job_get ?j i' = (if i' = i then Some (job_request_cancel now job) else job_get j i')"
    "jj_next_id ?j = jj_next_id j" "jj_running_by_key ?j = jj_running_by_key j" for i'
    using Some by (simp_all add: journal_request_cancel_def change_job_def)
  have "keys_ok ?j"
    using assms unfolding journal_ok_def keys_ok_def running_def get
    by (auto simp: job_request_cancel_def in_progress_def)
  moreover have "named_below ?j" "one_activation ?j"
    using assms Some
    by (auto simp: journal_ok_def named_below_def one_activation_def running_def get job_request_cancel_def split: if_splits)
  ultimately show ?thesis by (simp add: journal_ok_def)
qed

lemma submit_ok:
  "journal_ok j \<Longrightarrow> unat (jj_next_id j) + 1 < 2 ^ 64 \<Longrightarrow> journal_ok (snd (submit now r j))"
  by (auto simp: submit_def enqueue_ok simp del: parse_kind.simps split: option.split)

lemma job_act_ok: "journal_ok j \<Longrightarrow> unat (jj_next_id j) + 1 < 2 ^ 64 \<Longrightarrow> journal_ok (job_act op j)"
  by (cases op) (auto simp: submit_ok api_cancel_def cancel_ok journal_succeed_def journal_fail_def job_succeed_def
      job_fail_def intro!: close_ok)

lemma next_id_step: "unat (jj_next_id (job_act op j)) \<le> unat (jj_next_id j) + 1"
proof -
  have "unat (n + 1) \<le> unat n + 1" for n :: u64 by (simp add: unat_word_ariths)
  then show ?thesis
    by (cases op) (auto simp: submit_def enqueue_def Let_def api_cancel_def journal_request_cancel_def change_job_def
        journal_succeed_def journal_fail_def close_job_def simp del: parse_kind.simps split: option.split)
qed

lemma job_run_snoc: "job_run j (ops @ [op]) = job_act op (job_run j ops)"
  by (simp add: job_run_def)

lemma job_run_ok:
  assumes "length ops < 2 ^ 64 - 1"
  shows "journal_ok (job_run journal_new ops) \<and> unat (jj_next_id (job_run journal_new ops)) \<le> length ops"
  using assms
proof (induction ops rule: rev_induct)
  case Nil
  then show ?case
    by (simp add: job_run_def journal_new_def journal_ok_def named_below_def keys_ok_def one_activation_def running_def job_get_def)
next
  case (snoc op ops)
  then have IH: "journal_ok (job_run journal_new ops)" "unat (jj_next_id (job_run journal_new ops)) \<le> length ops" by simp_all
  with snoc.prems have "unat (jj_next_id (job_run journal_new ops)) + 1 < 2 ^ 64" by simp
  with job_act_ok [OF IH(1), of op] IH(2) next_id_step [of op "job_run journal_new ops"] show ?case
    by (simp add: job_run_snoc)
qed


definition sample_submit :: "string \<Rightarrow> string \<Rightarrow> job_submit_request" where
  "sample_submit k key = \<lparr>js_kind = k, js_payload_key = key, js_expected_generation = 3, js_runtime_lease = Some ''l''\<rparr>"


section \<open>Cancelling a job that has ended\<close>

text \<open>Once some activation is marked as cancelling, no request changes that.\<close>

definition activation_blocked :: "job_journal \<Rightarrow> bool" where
  "activation_blocked j \<longleftrightarrow> (\<exists>n job. job_get j (job_id Activate n) = Some job \<and> mj_kind job = Activate \<and> in_progress job)"

lemma blocked_has_running: "activation_blocked j \<Longrightarrow> has_running Activate j"
  by (auto simp: activation_blocked_def intro: has_runningI)

lemma blocked_enqueue: "k \<noteq> Activate \<Longrightarrow> activation_blocked j \<Longrightarrow> activation_blocked (snd (enqueue now k key j))"
  by (auto simp: activation_blocked_def enqueue_def Let_def job_get_def update_conv split: option.split)

lemma blocked_request: "is_request op \<Longrightarrow> activation_blocked j \<Longrightarrow> activation_blocked (job_act op j)"
proof (cases op)
  case (OpSubmit now r)
  assume blocked: "activation_blocked j"
  with blocked_has_running [OF blocked] show ?thesis
    by (auto simp: OpSubmit submit_def blocked_enqueue simp del: parse_kind.simps split: option.split)
next
  case (OpCancel now i)
  assume "activation_blocked j"
  then obtain n job where "job_get j (job_id Activate n) = Some job" "mj_kind job = Activate" "in_progress job"
    by (auto simp: activation_blocked_def)
  then show ?thesis
    unfolding OpCancel activation_blocked_def
    by (intro exI [of _ n]) (auto simp: api_cancel_def journal_request_cancel_def change_job_def
        job_request_cancel_def in_progress_def split: option.split)
qed simp_all

lemma blocked_run: "list_all is_request ops \<Longrightarrow> activation_blocked j \<Longrightarrow> activation_blocked (job_run j ops)"
  by (induction ops arbitrary: j) (simp_all add: job_run_def blocked_request)

lemma blocked_submit:
  assumes "activation_blocked j" "js_kind r = ''activate''" "js_expected_generation r \<noteq> 0"
    "js_runtime_lease r = Some l" "l \<noteq> []"
  shows "submit now r j = (Inl Conflict, j)"
  using assms blocked_has_running by (simp add: submit_def)

text \<open>Cancelling an activation that has already ended brings it back as one in progress: from
  then on, whatever jobs are submitted or cancelled, every activation is refused as if another one
  were running. The comments promise that a cancellation keeps the final state of a job.\<close>

lemma cancel_revives_activation:
  assumes "length ops < 2 ^ 64 - 1" "job_get (job_run journal_new ops) i = Some job" "mj_kind job = Activate"
    and "j = snd (api_cancel now i (job_run journal_new ops))" "list_all is_request later"
    and "js_kind r = ''activate''" "js_expected_generation r \<noteq> 0" "js_runtime_lease r = Some l" "l \<noteq> []"
  shows "submit now' r (job_run j later) = (Inl Conflict, job_run j later)"
proof -
  have "\<exists>n. i = job_id Activate n"
    using job_run_ok [OF assms(1)] assms(2,3) by (fastforce simp: journal_ok_def named_below_def)
  with assms(2-4) have "activation_blocked j"
    by (auto simp: activation_blocked_def api_cancel_def journal_request_cancel_def change_job_def job_request_cancel_def
        in_progress_def)
  with assms(5) have "activation_blocked (job_run j later)" by (rule blocked_run)
  with assms(6-9) show ?thesis by (intro blocked_submit)
qed

text \<open>A payload is registered without the kind of its job: while a job is in progress, submitting
  its payload as another kind of job is answered with this job, and nothing new is started.\<close>

lemma payload_ignores_kind:
  assumes "submit now r j = (Inr i, j')" "js_kind r' \<in> {''fetch'', ''build'', ''download'', ''verify'', ''stage''}"
    "js_payload_key r' = js_payload_key r"
  shows "submit now' r' j' = (Inr i, j')"
proof -
  have "map_of (jj_running_by_key j') (js_payload_key r) = Some i"
    using assms(1) by (auto simp: submit_def enqueue_def Let_def update_conv simp del: parse_kind.simps
        split: option.splits if_splits)
  with assms(2,3) show ?thesis by (auto simp: submit_def enqueue_def)
qed

end
