(* ===== verification/Manager_Activation.thy ===== *)
theory Manager_Activation
  imports Policy_Control
begin

text \<open>
  The activation of a model version on two nodes: the journal and its phases
  (\<open>src/manager/activation.rs\<close>), the transaction that drives the runtime
  (\<open>src/cluster/production/activation.rs\<close>) and the return to the previous version
  (\<open>src/manager/rollback.rs\<close>). The runtime is a driver whose three calls succeed or fail; the
  calls made are part of the result. The properties say when an activation completes and when the
  runtime is left alone.
\<close>

section \<open>The journal\<close>

datatype activation_phase = ApPrepared | ApDraining | ApReady | ApCommitting | ApComplete | ApRolledBack

datatype node_phase = NpNotStarted | NpPrepared | NpDraining | NpReady | NpCommitted

record node_activation =
  na_node :: string
  na_phase :: node_phase
  na_digest :: "string option"

record activation_journal =
  aj_operation_id :: string
  aj_expected_generation :: u64
  aj_runtime_lease :: string
  aj_policy_epoch :: u64
  aj_phase :: activation_phase
  aj_nodes :: "node_activation list"

record activation_request =
  aq_operation_id :: string
  aq_expected_generation :: u64
  aq_runtime_lease :: string
  aq_policy_epoch :: u64
  aq_nodes :: "string list"

datatype activation_error =
  MissingGenerationOrLease | RequiresTwoNodes | InvalidTransition activation_phase | UnknownNode string
| DriverFailed

datatype prepare_outcome = Prepared activation_journal | StoppedZero activation_journal

definition prepare_activation ::
  "activation_request \<Rightarrow> (string \<Rightarrow> string option) \<Rightarrow> activation_error + prepare_outcome" where
  "prepare_activation r verified_artifact =
     (if aq_expected_generation r = 0 \<or> aq_runtime_lease r = [] then Inl MissingGenerationOrLease
      else if length (aq_nodes r) \<noteq> 2 then Inl RequiresTwoNodes
      else
        let nodes = map (\<lambda>n. \<lparr>na_node = n, na_phase = NpPrepared, na_digest = verified_artifact n\<rparr>) (aq_nodes r);
            journal = \<lparr>aj_operation_id = aq_operation_id r, aj_expected_generation = aq_expected_generation r,
              aj_runtime_lease = aq_runtime_lease r, aj_policy_epoch = aq_policy_epoch r, aj_phase = ApPrepared,
              aj_nodes = nodes\<rparr>
        in Inr (if list_all (\<lambda>n. verified_artifact n \<noteq> None) (aq_nodes r) then Prepared journal else StoppedZero journal))"

definition all_nodes :: "node_phase \<Rightarrow> node_activation list \<Rightarrow> node_activation list" where
  "all_nodes ph ns = map (\<lambda>n. n\<lparr>na_phase := ph\<rparr>) ns"

definition begin_drain_activation :: "activation_journal \<Rightarrow> activation_error + activation_journal" where
  "begin_drain_activation j =
     (if aj_phase j \<noteq> ApPrepared then Inl (InvalidTransition (aj_phase j))
      else Inr (j\<lparr>aj_phase := ApDraining, aj_nodes := all_nodes NpDraining (aj_nodes j)\<rparr>))"

definition mark_ready :: "activation_journal \<Rightarrow> activation_error + activation_journal" where
  "mark_ready j =
     (if aj_phase j \<noteq> ApDraining then Inl (InvalidTransition (aj_phase j))
      else Inr (j\<lparr>aj_phase := ApReady, aj_nodes := all_nodes NpReady (aj_nodes j)\<rparr>))"

text \<open>The first entry of the node is the one that is changed.\<close>

fun commit_node :: "string \<Rightarrow> node_activation list \<Rightarrow> node_activation list option" where
  "commit_node n [] = None"
| "commit_node n (x # xs) =
     (if na_node x = n then Some (x\<lparr>na_phase := NpCommitted\<rparr> # xs) else map_option ((#) x) (commit_node n xs))"

definition commit_ack :: "activation_journal \<Rightarrow> string \<Rightarrow> activation_error + activation_journal" where
  "commit_ack j n =
     (if aj_phase j \<noteq> ApReady \<and> aj_phase j \<noteq> ApCommitting then Inl (InvalidTransition (aj_phase j))
      else case commit_node n (aj_nodes j) of
        None \<Rightarrow> Inl (UnknownNode n)
      | Some ns \<Rightarrow>
          Inr (j\<lparr>aj_phase := (if list_all (\<lambda>x. na_phase x = NpCommitted) ns then ApComplete else ApCommitting),
                 aj_nodes := ns\<rparr>))"

definition rollback_journal :: "activation_journal \<Rightarrow> activation_journal" where
  "rollback_journal j =
     j\<lparr>aj_phase := ApRolledBack, aj_nodes := map (\<lambda>n. n\<lparr>na_phase := NpNotStarted, na_digest := None\<rparr>) (aj_nodes j)\<rparr>"

section \<open>The transaction\<close>

datatype driver_call = DrainAndStopOld | StartNewAndWaitReady | DriverCommit

record activation_driver =
  ad_drain :: bool
  ad_start :: bool
  ad_commit :: bool

datatype activation_verdict =
  VComplete activation_journal | VStoppedZero activation_journal | VRolledBack activation_journal
| VYielded activation_journal

fun commit_all :: "string list \<Rightarrow> activation_journal \<Rightarrow> activation_error + activation_journal" where
  "commit_all [] j = Inr j"
| "commit_all (n # ns) j = (case commit_ack j n of Inl e \<Rightarrow> Inl e | Inr j' \<Rightarrow> commit_all ns j')"

definition execute_activation ::
  "activation_request \<Rightarrow> (string \<Rightarrow> string option) \<Rightarrow> activation_driver \<Rightarrow> operation_policy \<Rightarrow> u16 option \<Rightarrow>
   (activation_error + activation_verdict) \<times> driver_call list" where
  "execute_activation r verified_artifact d policy peer_version =
     (case prepare_activation r verified_artifact of
        Inl e \<Rightarrow> (Inl e, [])
      | Inr (StoppedZero j) \<Rightarrow> (Inr (VStoppedZero j), [])
      | Inr (Prepared j) \<Rightarrow>
          if check_tp_start policy peer_version \<noteq> TpAllowed then (Inr (VYielded (rollback_journal j)), [])
          else case begin_drain_activation j of Inl e \<Rightarrow> (Inl e, []) | Inr j \<Rightarrow>
            if \<not> ad_drain d then (Inl DriverFailed, [DrainAndStopOld])
            else if \<not> ad_start d then (Inr (VRolledBack (rollback_journal j)), [DrainAndStopOld, StartNewAndWaitReady])
            else (case mark_ready j of Inl e \<Rightarrow> (Inl e, [DrainAndStopOld, StartNewAndWaitReady]) | Inr j \<Rightarrow>
              let calls = [DrainAndStopOld, StartNewAndWaitReady, DriverCommit] in
              if \<not> ad_commit d then (Inl DriverFailed, calls)
              else case commit_all (map na_node (aj_nodes j)) j of
                Inl e \<Rightarrow> (Inl e, calls)
              | Inr j \<Rightarrow> (Inr (if aj_phase j = ApComplete then VComplete j else VRolledBack j), calls)))"

section \<open>Rollback\<close>

record rollback_request = activation_request +
  rq_previous_digest :: string

datatype rollback_outcome =
  Restored activation_journal string | RollbackManual activation_journal | PolicyHeld activation_journal u64

definition rollback_to_previous ::
  "rollback_request \<Rightarrow> (string \<Rightarrow> string option) \<Rightarrow> bool \<Rightarrow> bool \<Rightarrow> activation_error + rollback_outcome" where
  "rollback_to_previous r verified_artifact previous_starts force_held =
     (case prepare_activation (activation_request.truncate r) verified_artifact of
        Inl e \<Rightarrow> Inl e
      | Inr out \<Rightarrow>
          let j = (case out of Prepared j \<Rightarrow> j | StoppedZero j \<Rightarrow> j)\<lparr>aj_phase := ApRolledBack\<rparr> in
          Inr (if \<not> previous_starts then RollbackManual j
               else if force_held then PolicyHeld j (aq_policy_epoch r)
               else Restored j (rq_previous_digest r)))"

section \<open>When an activation completes\<close>

lemma two_nodes: "length xs = 2 \<Longrightarrow> \<exists>a b. xs = [a, b]"
  by (auto simp: numeral_2_eq_2 length_Suc_conv)

definition node_committed :: "(string \<Rightarrow> string option) \<Rightarrow> string \<Rightarrow> node_activation" where
  "node_committed verified_artifact n = \<lparr>na_node = n, na_phase = NpCommitted, na_digest = verified_artifact n\<rparr>"

definition journal_complete :: "activation_request \<Rightarrow> (string \<Rightarrow> string option) \<Rightarrow> activation_journal" where
  "journal_complete r verified_artifact =
     \<lparr>aj_operation_id = aq_operation_id r, aj_expected_generation = aq_expected_generation r,
      aj_runtime_lease = aq_runtime_lease r, aj_policy_epoch = aq_policy_epoch r, aj_phase = ApComplete,
      aj_nodes = map (node_committed verified_artifact) (aq_nodes r)\<rparr>"

definition may_activate :: "activation_request \<Rightarrow> (string \<Rightarrow> string option) \<Rightarrow> operation_policy \<Rightarrow> u16 option \<Rightarrow> bool" where
  "may_activate r verified_artifact policy peer_version \<longleftrightarrow>
     aq_expected_generation r \<noteq> 0 \<and> aq_runtime_lease r \<noteq> [] \<and> length (aq_nodes r) = 2
     \<and> list_all (\<lambda>n. verified_artifact n \<noteq> None) (aq_nodes r) \<and> check_tp_start policy peer_version = TpAllowed"

lemmas activation_defs = execute_activation_def prepare_activation_def begin_drain_activation_def mark_ready_def
  commit_ack_def all_nodes_def rollback_journal_def

lemma execute_cases:
  assumes "aq_nodes r = [a, b]"
  shows "execute_activation r va d policy pv =
    (if aq_expected_generation r = 0 \<or> aq_runtime_lease r = [] then (Inl MissingGenerationOrLease, [])
     else let j = \<lparr>aj_operation_id = aq_operation_id r, aj_expected_generation = aq_expected_generation r,
              aj_runtime_lease = aq_runtime_lease r, aj_policy_epoch = aq_policy_epoch r, aj_phase = ApPrepared,
              aj_nodes = map (\<lambda>n. \<lparr>na_node = n, na_phase = NpPrepared, na_digest = va n\<rparr>) [a, b]\<rparr> in
     if va a = None \<or> va b = None then (Inr (VStoppedZero j), [])
     else if check_tp_start policy pv \<noteq> TpAllowed then (Inr (VYielded (rollback_journal j)), [])
     else if \<not> ad_drain d then (Inl DriverFailed, [DrainAndStopOld])
     else if \<not> ad_start d then (Inr (VRolledBack (rollback_journal j)), [DrainAndStopOld, StartNewAndWaitReady])
     else if \<not> ad_commit d then (Inl DriverFailed, [DrainAndStopOld, StartNewAndWaitReady, DriverCommit])
     else (Inr (if a = b then VRolledBack (j\<lparr>aj_phase := ApCommitting,
                   aj_nodes := [node_committed va a, \<lparr>na_node = b, na_phase = NpReady, na_digest = va b\<rparr>]\<rparr>)
                else VComplete (journal_complete r va)),
           [DrainAndStopOld, StartNewAndWaitReady, DriverCommit]))"
  using assms by (auto simp: activation_defs node_committed_def journal_complete_def Let_def)

lemma execute_other: "length (aq_nodes r) \<noteq> 2 \<Longrightarrow> \<exists>e. execute_activation r va d policy pv = (Inl e, [])"
  by (auto simp: execute_activation_def prepare_activation_def)

text \<open>C35. An activation on two nodes. It completes exactly when the request is complete, both nodes
  have a verified artifact, the policy and the peer allow it, the two nodes are different and the
  drain, the start and the commit of the runtime all succeed, and then both nodes are recorded as
  committed with their artifacts. The runtime is touched at all only when every check has passed,
  and the new version is committed only when it has started.\<close>

theorem activation_all_or_nothing:
  "(fst (execute_activation r va d policy pv) = Inr (VComplete j) \<longleftrightarrow>
      may_activate r va policy pv \<and> distinct (aq_nodes r) \<and> ad_drain d \<and> ad_start d \<and> ad_commit d
      \<and> j = journal_complete r va)
   \<and> (snd (execute_activation r va d policy pv) \<noteq> [] \<longleftrightarrow> may_activate r va policy pv)
   \<and> (DriverCommit \<in> set (snd (execute_activation r va d policy pv)) \<longleftrightarrow>
      may_activate r va policy pv \<and> ad_drain d \<and> ad_start d)"
proof (cases "length (aq_nodes r) = 2")
  case True
  then obtain a b where "aq_nodes r = [a, b]" using two_nodes by blast
  then show ?thesis by (auto simp: execute_cases may_activate_def Let_def)
next
  case False
  with execute_other [OF False, of va d policy pv] show ?thesis by (auto simp: may_activate_def)
qed

text \<open>A request that names the same node twice passes every check; the new version is started and
  committed, and the result is called a rollback although nothing is rolled back.\<close>

lemma same_node_twice:
  assumes "may_activate r va policy pv" "\<not> distinct (aq_nodes r)" "ad_drain d" "ad_start d" "ad_commit d"
  shows "\<exists>j. execute_activation r va d policy pv = (Inr (VRolledBack j), [DrainAndStopOld, StartNewAndWaitReady, DriverCommit])
    \<and> aj_phase j = ApCommitting"
proof -
  obtain a b where "aq_nodes r = [a, b]" using two_nodes [of "aq_nodes r"] assms(1) by (auto simp: may_activate_def)
  with assms show ?thesis by (auto simp: execute_cases may_activate_def Let_def)
qed

text \<open>A rollback keeps the epoch of the policy, whether the previous version starts or not.\<close>

lemma rollback_keeps_policy:
  "rollback_to_previous r va starts force = Inr out \<Longrightarrow>
     (case out of Restored j _ \<Rightarrow> aj_policy_epoch j | RollbackManual j \<Rightarrow> aj_policy_epoch j
        | PolicyHeld j ep \<Rightarrow> if ep = aj_policy_epoch j then ep else 0) = aq_policy_epoch r"
  by (auto simp: rollback_to_previous_def prepare_activation_def activation_request.truncate_def Let_def
      split: sum.splits prepare_outcome.splits if_splits)

lemma rollback_restores_only_started:
  "rollback_to_previous r va starts force = Inr out \<Longrightarrow> (\<exists>j. out = RollbackManual j) \<longleftrightarrow> \<not> starts"
  by (auto simp: rollback_to_previous_def Let_def split: sum.splits if_splits)

end
