(* ===== verification/Spec2Isabelle.thy ===== *)
theory Spec2Isabelle
  imports
    Sds_Prelude
    Tp_Runtime
    Proxy_Target
    Tp_Session
    Cluster_State
    Op_Lease
    Policy_Control
    Admission_Gate
    Text_Codec
    Control_Auth
    Control_Plane
    Role_Control
    Recovery_Service
    Runtime_World
    Coordinator_Runtime
    Worker_Runtime
    Mode_Runtime
    Planned_Restart
    Production_Node
    Node_Invariant
    Node_Safety
    Process_Control
    State_Store
    Policy_Transaction
    Utf8_Text
    Ds4_Hello
    Network_Evidence
    Web_Sse
    Web_Citation
    Web_Request
    Web_Search
    Web_Engine
    Web_Server
    Manager_Jobs
    Manager_Activation
begin

text \<open>
  A verification of the cluster core of siderostat.

  \<^bold>\<open>The program.\<close> siderostat is a reverse proxy in front of one or two machines that run
  the inference program ds4. A node serves requests from its own child (standalone), or two
  nodes serve them together (paired, distributed or tensor-parallel). A cluster state
  machine decides which mode is published and where requests are sent, an admission gate
  lets requests through or drains them, an operation lease and an operation policy decide
  which change of mode may run, the two nodes talk over signed control requests with leases
  and generations, and a recovery service restarts a degraded child. Beside this core stand a
  rendezvous that checks the HELLO of the worker's ds4, the evidence about the network link, a
  manager of model versions with its jobs and activations, and a bridge that lets ds4 search
  the web.

  \<^bold>\<open>The theories.\<close>
  \<^item> \<open>Sds_Prelude\<close>: machine integers with Rust's saturating operations, results, the generic
    reachability of fallible machines and its locale, lists and maps.
  \<^item> \<open>Proxy_Target\<close> (\<open>src/target.rs\<close>): roles, modes, states and \<open>resolve_target\<close>.
  \<^item> \<open>Tp_Session\<close> (\<open>src/cluster/tp.rs\<close>): the readiness of a tensor-parallel session.
  \<^item> \<open>Cluster_State\<close> (\<open>src/cluster/state.rs\<close>): \<open>transition\<close> over snapshots and events, the
    loop that serves commands, and the tracker of promotion failures.
  \<^item> \<open>Op_Lease\<close> (\<open>src/cluster/operation.rs\<close>): the lease over operation kinds and the
    idempotency registry.
  \<^item> \<open>Policy_Control\<close> (\<open>src/cluster/policy.rs\<close>, \<open>production/policy.rs\<close>, \<open>production/tp.rs\<close>,
    \<open>recovery_tp.rs\<close>): policy requests, the forced standalone, the gates of automatic
    promotion and of tensor-parallel starts, the bounded tensor-parallel recovery.
  \<^item> \<open>Admission_Gate\<close> (\<open>src/admission.rs\<close>): permits, draining and closing.
  \<^item> \<open>Text_Codec\<close> and \<open>Control_Auth\<close> (\<open>src/cluster/auth.rs\<close>): hexadecimal, decimal and
    big-endian text, the canonical message, signing, verification and the nonce table.
  \<^item> \<open>Control_Plane\<close> (\<open>src/cluster/control.rs\<close>): commands and endpoints, the bounded body, the
    peer lease and the control processor.
  \<^item> \<open>Role_Control\<close> (\<open>src/cluster/coordinator/control.rs\<close>, \<open>src/cluster/worker.rs\<close>): the
    coordinator and the worker side of the control protocol, and the worker tracker of
    tensor parallelism.
  \<^item> \<open>Recovery_Service\<close> (\<open>src/recovery.rs\<close>): the incident detector and the recovery jobs.
  \<^item> \<open>Runtime_World\<close>: what the runtimes act on (state machine, proxy target, gate, failures, the
    log of calls to children and peer), the actions as a state-and-error monad, and its calculus
    of weakest preconditions, with the contract of the gate as a locale.
  \<^item> \<open>Coordinator_Runtime\<close> (\<open>src/cluster/coordinator.rs\<close>), \<open>Worker_Runtime\<close>
    (\<open>src/cluster/worker.rs\<close>), \<open>Mode_Runtime\<close> (\<open>src/cluster/runtime.rs\<close>): promotion and
    its recovery, demotion, planned restart, back-off; preparing and watching the worker's child;
    startup, pairing, fallback and local supervision.
  \<^item> \<open>Planned_Restart\<close> (\<open>PlannedRestartGate\<close> of \<open>src/cluster/production.rs\<close>).
  \<^item> \<open>Production_Node\<close> (\<open>src/cluster/production.rs\<close> and \<open>recovery.rs\<close>, \<open>reconcile.rs\<close>,
    \<open>effects.rs\<close>, \<open>worker.rs\<close>, \<open>pairing.rs\<close> beside it): the whole layer-parallel node.
  \<^item> \<open>Node_Invariant\<close>: the locale that lifts an invariant of the parts to all operations of the
    node. \<open>Node_Safety\<close>: histories of a node, the two interpretations of the locale, and the
    properties of the whole node.
  \<^item> \<open>Process_Control\<close> (\<open>src/cluster/process.rs\<close>, \<open>process/standalone.rs\<close>,
    \<open>src/startup_cleanup.rs\<close>): the identity of a process, signals to verified processes only,
    spawning, readiness and stopping of a child, the standalone supervisor and the cleanup of
    left-over processes, over an operating system that answers as it likes at each time.
  \<^item> \<open>State_Store\<close> (\<open>src/cluster/state_store.rs\<close>, \<open>policy_journal.rs\<close>, \<open>restart.rs\<close>, the
    persistence of \<open>src/app.rs\<close> and of \<open>production/tp_runtime.rs\<close>): the state file, its
    atomic replacement and migration, the policy journal, and the decision of a restart.
  \<^item> \<open>Policy_Transaction\<close> (the policy part of \<open>src/cluster/production.rs\<close>): the two-node
    transaction over two whole nodes with their journals, with every loss of a message.
  \<^item> \<open>Utf8_Text\<close>: valid UTF-8 and its character boundaries, as the standard library defines them.
  \<^item> \<open>Ds4_Hello\<close> (\<open>src/cluster/ds4_hello.rs\<close>): the HELLO frame, reading it from a connection,
    and the rendezvous that accepts one worker.
  \<^item> \<open>Network_Evidence\<close> (\<open>src/cluster/role.rs\<close>, \<open>network_snapshot.rs\<close>,
    \<open>network_evidence.rs\<close>, \<open>discovery.rs\<close>): the role by addresses, the snapshot of an
    observation, the evidence by epochs, and the candidates for the peer.
  \<^item> \<open>Manager_Jobs\<close> (\<open>src/manager/jobs.rs\<close>, \<open>api.rs\<close>): the journal of jobs and its handlers.
  \<^item> \<open>Manager_Activation\<close> (\<open>src/manager/activation.rs\<close>, \<open>rollback.rs\<close>,
    \<open>src/cluster/production/activation.rs\<close>): the activation of a version on two nodes.
  \<^item> \<open>Web_Sse\<close> (\<open>src/websearch/response.rs\<close>, \<open>sse.rs\<close>): the answer of the search bridge, as
    one object and as a stream of events. \<open>Web_Citation\<close> (\<open>citation.rs\<close>): the markers of the
    model and the visible citations. \<open>Web_Request\<close> (\<open>wire.rs\<close>, \<open>request.rs\<close>,
    \<open>history.rs\<close>): the request, its validation and its conversation. \<open>Web_Search\<close>
    (\<open>backend.rs\<close>, \<open>searxng.rs\<close>): the answers of the search engine. \<open>Web_Engine\<close>
    (\<open>chat_client.rs\<close>, \<open>engine.rs\<close>): the bounded loop with the model. \<open>Web_Server\<close>
    (\<open>server.rs\<close>): the handler that composes them.

  \<^bold>\<open>How code becomes definitions.\<close> A struct is a record, an enum a datatype, a \<open>u64\<close> a
  64-bit word with \<open>saturating_add\<close> and \<open>saturating_sub\<close> written out. A method that takes
  \<open>&mut self\<close> returns the new state; a method that returns a \<open>Result\<close> returns a sum, with
  the state beside it when the method may fail after it has changed something. State behind
  a mutex changes in one step per critical section, and concurrency is a list of such steps
  in an arbitrary order. A loop over a channel is a fold over the list of its commands.
  SHA-256, HMAC and the hasher of the standard library are parameters. Child processes, the
  peer's answers, the clock and fresh identifiers are inputs of the operations
  (\<open>environment\<close>, \<open>effect_inputs\<close>, \<open>promote_inputs\<close>); an asynchronous operation runs
  from its start to its result, and what other tasks do while it waits is among its inputs. A
  poll loop with a deadline runs over the list of what each poll sees, which ends at the
  deadline, so no fuel is needed.

  The loops of \<open>Process_Control\<close> run over a clock that moves at least by the time they sleep and
  are proved to end by the distance to their deadline; the callers refuse a poll interval of zero.
  The JSON codec of the state file is a parameter that decodes what it has encoded. In the search bridge
  the parser and the printer of JSON and the URL library are parameters; the loop of the engine recurses over
  the turns it has left, so its bound is that of the code.

  \<^bold>\<open>What is shown.\<close> Cluster state: the published target is the resolved one in every reachable
  snapshot, stale events are refused, a tensor-parallel route is published only for a
  complete session, and solo standalone can always be reached. Admission: permits are
  counted exactly, a successful drain leaves nothing in flight, a closed gate admits nothing.
  Operations: the lease refines one lock. Authentication: the canonical message is injective,
  signing and verification fit together, an accepted request is authentic and cannot be
  replayed. Control: commands are applied at most once, a present peer has been heard from,
  the promotion exchange succeeds, a delayed pairing keeps the session. Recovery: the
  detector fires once per incident and only for sustained low throughput, the history stays
  bounded, the cooldown holds while the attempt is remembered. Node: over every history of
  operations, with every call failing at will, the gate serves only what is published and at
  most one child may run; a promotion always comes to rest if its undo calls work; a lost peer is
  always recovered from; a deferred pairing is completed once. Processes: only a verified process
  is signalled, a supervisor never forgets a living child, every stop ends within its bound. State:
  a save is atomic, a forced standalone survives re-saves and restarts, a restart leaves no child
  behind. Policy: a successful transaction commits on both nodes, an unfinished one suppresses
  promotion, also after a restart. Link: the HELLO codec is exact, the rendezvous accepts exactly
  the expected worker, and a route counts as scoped only by the newest observation. Manager: the
  journal finds every running job and at most one activation runs; an activation completes on both
  nodes or does not complete. Bridge: only an admitted request reaches the model, its loop is
  bounded by six turns and three searches whatever the model does, citations name existing
  sources with exact byte ranges, chunks and citing keep a text valid, and a stream that completes
  carries the answer of this run. Some theorems show where the
  code does not do what its comments say; their texts say so.

  \<^bold>\<open>Not modelled.\<close> Sockets, HTTP, JSON and TOML, the supervisors of distributed children, the
  menu-bar monitor and the packaging tasks: these parts call the operating system and
  libraries, and hold little state of their own. The tensor-parallel runtime
  (\<open>production/tp_runtime.rs\<close>) is not modelled beyond the state machine, the tracker, the gates
  and the journal it uses; of the manager, downloads, builds and digests of files are left out.
\<close>

end
